(* ===== verification/Prelude.thy ===== *)
theory Prelude
  imports Main "HOL-Library.Word" "HOL-Library.Char_ord" "HOL-Library.List_Lexorder"
    "HOL-Library.AList"
begin

text \<open>
  Shared vocabulary of the development: Go's machine integers and their conversions, Go errors
  as values, the result type of fallible code and its sequencing, and the lemmas on association
  lists and ranges that several components use.

  A Go \<^verbatim>\<open>string\<close> and a Go \<^verbatim>\<open>[]byte\<close> are both sequences of bytes; both are \<open>char list\<close> here
  (a \<open>char\<close> is a byte), ordered lexicographically by byte value as \<^verbatim>\<open>bytes.Compare\<close> and Go's
  string comparison do.  A \<^verbatim>\<open>uint64\<close> is a \<open>nat\<close> below \<open>2 ^ 64\<close>, an \<^verbatim>\<open>int64\<close> an \<open>int\<close>; the
  conversions between them wrap and are written out.  A \<^verbatim>\<open>uint32\<close> is a \<open>32 word\<close>.
\<close>

section \<open>Collections of facts\<close>

named_theorems result_simps \<open>inversion of sequenced fallible computations\<close>

section \<open>Bytes and machine integers\<close>

type_synonym bytes = "char list"

definition MaxUint64 :: nat where
  "MaxUint64 = 2 ^ 64 - 1"

definition int64 :: "int \<Rightarrow> int" where
  "int64 i = (i + 2 ^ 63) mod 2 ^ 64 - 2 ^ 63"

definition uint64 :: "int \<Rightarrow> nat" where
  "uint64 i = nat (i mod 2 ^ 64)"

definition inc64 :: "nat \<Rightarrow> nat" where
  "inc64 n = (n + 1) mod 2 ^ 64"

text \<open>Go's zero time, the first of January of the year 1, in nanoseconds from the Unix epoch.\<close>

definition zero_time :: int where
  "zero_time = - 62135596800 * 10 ^ 9"

section \<open>Errors as values\<close>

text \<open>
  The sentinel errors the code compares against, \<^verbatim>\<open>fmt.Errorf\<close> without \<^verbatim>\<open>%w\<close> (\<open>Errorf\<close>) and with
  \<^verbatim>\<open>%w\<close> (\<open>Wrap\<close>, message prefix and wrapped error), the errors of the operating system, and a
  run-time panic.  Of a formatted message only the constant part is kept.
\<close>

datatype error =
    ErrNotFound | ErrAlreadyExists | ErrNotDir | ErrIsDir | ErrNotEmpty | ErrInvalid
  | ErrLogNotFound | ErrLogCompacted | ErrWALCorrupt | ErrStableCorrupt
  | ErrCrossChunkWrite | ErrInvalidLength | ErrIsDirectory | ErrChunkNotFound
  | ErrNotLeader (LeaderID: string) (LeaderAddr: string)
  | ContextCanceled | DeadlineExceeded
  | OsNotExist | OsError string | Panic string
  | Errorf string
  | Wrap string error

fun errors_Is :: "error \<Rightarrow> error \<Rightarrow> bool" where
  "errors_Is (Wrap m e) target = (Wrap m e = target \<or> errors_Is e target)"
| "errors_Is e target = (e = target)"

section \<open>Fallible computations\<close>

type_synonym 'a result = "error + 'a"

definition rbind :: "'a result \<Rightarrow> ('a \<Rightarrow> 'b result) \<Rightarrow> 'b result" where
  "rbind m f = (case m of Inl e \<Rightarrow> Inl e | Inr x \<Rightarrow> f x)"

definition wrap :: "string \<Rightarrow> 'a result \<Rightarrow> 'a result" where
  "wrap s m = (case m of Inl e \<Rightarrow> Inl (Wrap s e) | Inr x \<Rightarrow> Inr x)"

definition of_opt :: "error \<Rightarrow> 'a option \<Rightarrow> 'a result" where
  "of_opt e v = (case v of None \<Rightarrow> Inl e | Some x \<Rightarrow> Inr x)"

section \<open>Facts on integers\<close>

lemma int64_id [simp]: "- (2 ^ 63) \<le> i \<Longrightarrow> i < 2 ^ 63 \<Longrightarrow> int64 i = i"
  by (simp add: int64_def)

lemma int64_over: "2 ^ 63 \<le> i \<Longrightarrow> i < 2 ^ 64 + 2 ^ 63 \<Longrightarrow> int64 i = i - 2 ^ 64"
proof -
  assume i: "2 ^ 63 \<le> i" "i < 2 ^ 64 + 2 ^ 63"
  have "(i + 2 ^ 63) mod 2 ^ 64 = (i + 2 ^ 63 - 2 ^ 64) mod 2 ^ 64" by (rule minus_mod_self2 [symmetric])
  also have "\<dots> = i + 2 ^ 63 - 2 ^ 64" using i by (intro mod_pos_pos_trivial) auto
  finally show ?thesis by (simp add: int64_def)
qed

lemma int64_int [simp]: "n < 2 ^ 63 \<Longrightarrow> int64 (int n) = int n"
proof -
  assume "n < 2 ^ 63"
  then have "int n < 2 ^ 63" by (metis of_nat_less_iff of_nat_numeral of_nat_power)
  then show ?thesis by (intro int64_id) auto
qed

lemma uint64_bound: "uint64 i < 2 ^ 64"
  by (simp add: uint64_def nat_less_iff)

lemma uint64_nonneg [simp]: "0 \<le> i \<Longrightarrow> i < 2 ^ 64 \<Longrightarrow> uint64 i = nat i"
  by (simp add: uint64_def)

lemma uint64_int [simp]: "n < 2 ^ 64 \<Longrightarrow> uint64 (int n) = n"
  by (simp add: uint64_def nat_mod_as_int)

lemma inc64_Suc [simp]: "n + 1 < 2 ^ 64 \<Longrightarrow> inc64 n = n + 1"
  by (simp add: inc64_def)

section \<open>Facts on fallible computations\<close>

lemma rbind_simps [simp]:
  "rbind (Inl e) f = Inl e" "rbind (Inr x) f = f x"
  by (simp_all add: rbind_def)

lemma rbind_Inr_iff [result_simps]:
  "rbind m f = Inr y \<longleftrightarrow> (\<exists>x. m = Inr x \<and> f x = Inr y)"
  by (cases m) auto

lemma rbind_Inl_iff:
  "rbind m f = Inl e \<longleftrightarrow> m = Inl e \<or> (\<exists>x. m = Inr x \<and> f x = Inl e)"
  by (cases m) auto

lemma wrap_simps [simp]: "wrap s (Inl e) = Inl (Wrap s e)" "wrap s (Inr x) = Inr x"
  by (simp_all add: wrap_def)

lemma wrap_Inr_iff [simp]: "wrap s m = Inr x \<longleftrightarrow> m = Inr x"
  by (cases m) auto

lemma of_opt_simps [simp]: "of_opt e None = Inl e" "of_opt e (Some x) = Inr x"
  by (simp_all add: of_opt_def)

lemma of_opt_Inr_iff [simp]: "of_opt e v = Inr x \<longleftrightarrow> v = Some x"
  by (cases v) auto

end
