(* ===== verification/Contract.thy ===== *)
theory Contract
  imports Prelude
begin

text \<open>
  The data the components exchange: the storage contract (\<^verbatim>\<open>topology/contract/types.go\<close>), the
  replicated metadata operations (\<^verbatim>\<open>internal/metadata_service/ops.go\<close>), the Raft command envelope
  and log entries (\<^verbatim>\<open>internal/metadata_replicator/raft_replicator/types.go\<close>) and the on-disk
  containers of the Raft stores (\<^verbatim>\<open>internal/metadata_replicator/durable_raft/stores.go\<close>).

  Serialised data.  \<^verbatim>\<open>encoding/json\<close> and \<^verbatim>\<open>encoding/gob\<close> are used for one purpose only, to turn a
  value into bytes and back.  A byte sequence is therefore modelled by the value it encodes
  (type \<open>blob\<close>): a marshalled value is a constructor applied to that value, and \<open>Raw\<close> bytes are
  those that encode none of these values.  Unmarshalling into a Go type succeeds on that type's
  constructor; as \<^verbatim>\<open>json.Unmarshal\<close> ignores unknown fields and leaves missing ones at zero, it
  also succeeds on the encoding of another JSON object, where the code could meet one.  Strings in
  JSON values are taken to be valid UTF-8 (\<^verbatim>\<open>json.Marshal\<close> replaces other bytes).  \<open>BoltImage\<close> is the
  content of a database file, bucket by bucket.  A moment in time is the number of nanoseconds
  since the epoch.  An optional (pointer or nil-able) field is an \<open>option\<close>.
\<close>

section \<open>The storage contract\<close>

record ChunkLocation =
  LogicalNodeAlias :: string
  PhysicalEndpoint :: string

record ChunkDescriptor =
  cd_ChunkID :: string
  cd_Locations :: "ChunkLocation list"

record WriteContext =
  wc_TxnID :: string
  wc_ChunkID :: string
  wc_TargetNodes :: "ChunkLocation list"
  wc_IsNewChunk :: bool

record ReadContext =
  rc_ChunkID :: string
  rc_TargetNodes :: "ChunkLocation list"

datatype InodeType = TypeFile | TypeDirectory

record Inode =
  i_InodeID :: string
  i_Type :: InodeType
  i_LinkCount :: int
  i_Mode :: "32 word"
  i_OwnerUID :: "32 word"
  i_OwnerGID :: "32 word"
  i_AccessTime :: int
  i_ModifyTime :: int
  i_ChangeTime :: int
  i_FileSize :: int
  i_VersionNumber :: int
  i_Children :: "(string \<times> string) list"
  i_ChunkList :: "ChunkDescriptor list"

record Attributes =
  a_InodeID :: string
  a_Type :: InodeType
  a_Mode :: "32 word"
  a_Size :: int
  a_AccessTime :: int
  a_ModifyTime :: int
  a_ChangeTime :: int
  a_UID :: "32 word"
  a_GID :: "32 word"

record FileSystemStats =
  TotalSpace :: int
  UsedSpace :: int
  TotalInodes :: int
  UsedInodes :: int
  BlockSize :: int

record DirEntry =
  de_Name :: string
  de_InodeID :: string
  de_Type :: InodeType

record DirEntryPlus =
  dp_Name :: string
  dp_InodeID :: string
  dp_Type :: InodeType
  dp_Inode :: Attributes

record FileSystemInfo =
  fi_FsID :: string
  fi_MaxFileSize :: int
  fi_MaxFilenameSize :: int
  fi_ChunkSize :: int

record Superblock =
  sb_FsID :: string
  sb_RootInodeID :: string
  sb_ChunkSize :: int
  sb_MaxFilenameSize :: int
  sb_MaxFileSize :: int
  sb_CreatedAt :: int

section \<open>Replicated operations\<close>

datatype OpType = OpCreate | OpRemove | OpRename | OpSetAttr | OpUpdateInode | OpOther int

record MetadataOperation =
  op_Type :: OpType
  op_InodeID :: string
  op_ParentID :: string
  op_Name :: string
  op_FileType :: InodeType
  op_Mode :: "32 word"
  op_UID :: "32 word"
  op_GID :: "32 word"
  op_DstParentID :: string
  op_DstName :: string
  op_SetMode :: "32 word option"
  op_SetUID :: "32 word option"
  op_SetGID :: "32 word option"
  op_SetATime :: "int option"
  op_SetMTime :: "int option"
  op_NewSize :: "int option"
  op_NewChunkList :: "ChunkDescriptor list option"
  op_OpID :: string
  op_Timestamp :: int

datatype IntentState = StateUnknown | StatePrepared | StateCommitted | StateAborted | StateOther int

record ChunkIntentOperation =
  ci_TxnID :: string
  ci_ChunkID :: string
  ci_NodeIDs :: "string list"
  ci_State :: IntentState
  ci_Timestamp :: int

datatype PayloadType = PayloadPosixMeta | PayloadChunkIntent | PayloadOther int

record RaftCommandEnvelope =
  env_Type :: PayloadType
  env_PosixMeta :: "MetadataOperation option"
  env_ChunkIntent :: "ChunkIntentOperation option"

section \<open>Serialised data\<close>

record SnapshotMeta =
  LastIncludedIndex :: nat
  LastIncludedTerm :: nat

datatype blob =
    Raw bytes
  | GobInode Inode
  | GobSuperblock Superblock
  | GobChunkDescriptor ChunkDescriptor
  | JsonStrings "string list"
  | JsonIntent ChunkIntentOperation
  | JsonEnvelope RaftCommandEnvelope
  | JsonEntries "LogEntry list"
  | JsonStableState (ss_Term: nat) (ss_VotedFor: string)
  | JsonStableEnvelope (se_CRC: nat) (se_Payload: blob)
  | JsonWalFile (wf_CompactedUntil: nat) (wf_CompactedTerm: nat) (wf_Logs: "LogEntry list")
  | JsonWalEnvelope (we_CRC: nat) (we_Payload: blob)
  | JsonSnapshotFile (sf_Meta: SnapshotMeta) (sf_Data: blob)
  | BoltImage "(bytes \<times> (bytes \<times> blob) list) list"
and LogEntry =
  LogEntry (Index: int) (Term: int) (Data: blob) (Timestamp: int)

text \<open>
  The \<^verbatim>\<open>omitempty\<close> tags of \<^verbatim>\<open>MetadataOperation\<close>: of its fields only \<^verbatim>\<open>NewChunkList\<close> has a zero
  value (nil) that differs from an empty one, so an empty list comes back as nil.
\<close>

definition json_MetadataOperation :: "MetadataOperation \<Rightarrow> MetadataOperation" where
  "json_MetadataOperation op =
     (if op_NewChunkList op = Some [] then op\<lparr>op_NewChunkList := None\<rparr> else op)"

definition json_Marshal_envelope :: "RaftCommandEnvelope \<Rightarrow> blob" where
  "json_Marshal_envelope e =
     JsonEnvelope (e\<lparr>env_PosixMeta := map_option json_MetadataOperation (env_PosixMeta e)\<rparr>)"

section \<open>Cluster view\<close>

datatype NodeStatus = NodeStatusUnknown | NodeStatusAlive | NodeStatusSuspect | NodeStatusDown

record Node =
  node_ID :: string
  node_Address :: string
  node_Status :: NodeStatus
  node_Metadata :: "(string \<times> string) list"

end
