(* ===== verification/Keys.thy ===== *)
theory Keys
  imports Contract
begin

text \<open>
  The byte keys of the metadata database and the decimal inode identifiers
  (\<^verbatim>\<open>internal/metadata_service/bolt/bolt_metadata_service.go\<close>): \<^verbatim>\<open>strconv.ParseUint\<close> and
  \<^verbatim>\<open>strconv.FormatUint\<close> in base 10 and 64 bits, the fixed-width integers of \<^verbatim>\<open>encoding/binary\<close>, the
  key encoders built from them, and the pieces of package \<^verbatim>\<open>strings\<close> that split a path.  The lemmas
  show that the codecs are inverse to each other, that the encoding is injective and keeps the
  numeric order, and that an eight byte prefix isolates one inode's keys.
\<close>

section \<open>Decimal numbers\<close>

definition digit_val :: "char \<Rightarrow> nat option" where
  "digit_val c = (if of_char CHR ''0'' \<le> (of_char c :: nat) \<and> (of_char c :: nat) \<le> of_char CHR ''9''
                  then Some (of_char c - of_char CHR ''0'') else None)"

definition digit_char :: "nat \<Rightarrow> char" where
  "digit_char d = char_of (48 + d)"

text \<open>
  The scan stops at the first character that is no digit (\<^verbatim>\<open>ErrSyntax\<close>) or at which the value
  leaves 64 bits (\<^verbatim>\<open>ErrRange\<close>).
\<close>

fun parse_digits :: "nat \<Rightarrow> string \<Rightarrow> nat result" where
  "parse_digits n [] = Inr n"
| "parse_digits n (c # cs) =
     (case digit_val c of
        None \<Rightarrow> Inl (Errorf ''invalid syntax'')
      | Some d \<Rightarrow> if 10 * n + d > MaxUint64 then Inl (Errorf ''value out of range'')
                  else parse_digits (10 * n + d) cs)"

definition ParseUint :: "string \<Rightarrow> nat result" where
  "ParseUint s = (if s = [] then Inl (Errorf ''invalid syntax'') else parse_digits 0 s)"

fun FormatUint :: "nat \<Rightarrow> string" where
  "FormatUint n = (if n < 10 then [digit_char n] else FormatUint (n div 10) @ [digit_char (n mod 10)])"

declare FormatUint.simps [simp del]

section \<open>Fixed-width integers\<close>

fun be_bytes :: "nat \<Rightarrow> nat \<Rightarrow> bytes" where
  "be_bytes 0 n = []"
| "be_bytes (Suc k) n = be_bytes k (n div 256) @ [char_of (n mod 256)]"

definition be_val :: "bytes \<Rightarrow> nat" where
  "be_val bs = foldl (\<lambda>a c. a * 256 + of_char c) 0 bs"

definition BigEndian_Uint64 :: "bytes \<Rightarrow> nat" where
  "BigEndian_Uint64 bs = be_val (take 8 bs)"

definition LittleEndian_Uint64 :: "bytes \<Rightarrow> nat" where
  "LittleEndian_Uint64 bs = be_val (rev (take 8 bs))"

definition encodeUint64BE :: "nat \<Rightarrow> bytes" where
  "encodeUint64BE n = be_bytes 8 n"

definition encodeUint64LE :: "nat \<Rightarrow> bytes" where
  "encodeUint64LE n = rev (be_bytes 8 n)"

section \<open>Keys\<close>

definition encodeInodeKey :: "string \<Rightarrow> bytes result" where
  "encodeInodeKey inodeID =
     rbind (wrap ''inode id must be a base-10 uint64'' (ParseUint inodeID)) (\<lambda>parsed. Inr (encodeUint64BE parsed))"

definition decodeInodeID :: "bytes \<Rightarrow> string result" where
  "decodeInodeID key = (if length key \<noteq> 8 then Inl (Errorf ''invalid inode key length'')
                        else Inr (FormatUint (BigEndian_Uint64 key)))"

definition encodeDentryKey :: "bytes \<Rightarrow> string \<Rightarrow> bytes" where
  "encodeDentryKey parentKey name = parentKey @ name"

definition encodeChunkMapKey :: "bytes \<Rightarrow> nat \<Rightarrow> bytes" where
  "encodeChunkMapKey inodeKey chunkIndex = inodeKey @ encodeUint64BE chunkIndex"

section \<open>Paths\<close>

definition strings_Trim :: "char \<Rightarrow> string \<Rightarrow> string" where
  "strings_Trim c s = rev (dropWhile (\<lambda>x. x = c) (rev (dropWhile (\<lambda>x. x = c) s)))"

fun strings_Split :: "char \<Rightarrow> string \<Rightarrow> string list" where
  "strings_Split c [] = [[]]"
| "strings_Split c (x # xs) =
     (if x = c then [] # strings_Split c xs
      else (case strings_Split c xs of p # ps \<Rightarrow> (x # p) # ps | [] \<Rightarrow> [[x]]))"

definition has_prefix :: "bytes \<Rightarrow> bytes \<Rightarrow> bool" where
  "has_prefix key pre \<longleftrightarrow> take (length pre) key = pre"

section \<open>Decimal round trips\<close>

lemma digit_val_char [simp]: "d < 10 \<Longrightarrow> digit_val (digit_char d) = Some d"
  by (simp add: digit_val_def digit_char_def of_char_of)

lemma digit_val_bound: "digit_val c = Some d \<Longrightarrow> d < 10"
  by (auto simp: digit_val_def split: if_splits)

lemma parse_digits_append:
  "parse_digits n (xs @ ys) = rbind (parse_digits n xs) (\<lambda>m. parse_digits m ys)"
  by (induction xs arbitrary: n) (auto split: option.split)

lemma FormatUint_nonempty [simp]: "FormatUint n \<noteq> []"
  by (subst FormatUint.simps) simp

lemma parse_FormatUint: "n \<le> MaxUint64 \<Longrightarrow> parse_digits 0 (FormatUint n) = Inr n"
proof (induction n rule: FormatUint.induct)
  case (1 n)
  show ?case
  proof (cases "n < 10")
    case True
    with 1(2) show ?thesis by (simp add: FormatUint.simps)
  next
    case False
    then have "parse_digits 0 (FormatUint (n div 10)) = Inr (n div 10)" using 1 by simp
    then show ?thesis using False 1(2) by (subst FormatUint.simps) (simp add: parse_digits_append)
  qed
qed

lemma ParseUint_FormatUint: "n < 2 ^ 64 \<Longrightarrow> ParseUint (FormatUint n) = Inr n"
  by (simp add: ParseUint_def parse_FormatUint MaxUint64_def)

lemma parse_digits_bound: "parse_digits n s = Inr m \<Longrightarrow> n \<le> MaxUint64 \<Longrightarrow> m \<le> MaxUint64"
  by (induction s arbitrary: n) (auto split: option.splits if_splits)

lemma ParseUint_bound: "ParseUint s = Inr m \<Longrightarrow> m < 2 ^ 64"
  using parse_digits_bound [of 0 s m] by (auto simp: ParseUint_def MaxUint64_def split: if_splits)

section \<open>Fixed-width round trips\<close>

lemma of_char_less_256: "(of_char c :: nat) < 256"
  using nat_of_char_less_256 [of c] by simp

lemma length_be_bytes [simp]: "length (be_bytes k n) = k"
  by (induction k arbitrary: n) auto

lemma be_val_snoc: "be_val (bs @ [c]) = be_val bs * 256 + of_char c"
  by (simp add: be_val_def)

lemma be_val_Nil [simp]: "be_val [] = 0"
  by (simp add: be_val_def)

lemma be_val_bytes: "be_val (be_bytes k n) = n mod 256 ^ k"
proof (induction k arbitrary: n)
  case 0
  show ?case by simp
next
  case (Suc k)
  have "n mod (256 * 256 ^ k) = 256 * (n div 256 mod 256 ^ k) + n mod 256"
    by (rule mod_mult2_eq)
  then show ?case by (simp add: Suc be_val_snoc of_char_of)
qed

lemma be_bytes_val: "be_bytes (length bs) (be_val bs) = bs"
proof (induction bs rule: rev_induct)
  case Nil
  show ?case by simp
next
  case (snoc c bs)
  have "(of_char c :: nat) < 256" by (rule of_char_less_256) 
  then show ?case by (simp add: be_val_snoc snoc)
qed

lemma be_val_bound: "be_val bs < 256 ^ length bs"
proof (induction bs rule: rev_induct)
  case (snoc c bs)
  have "(of_char c :: nat) < 256" by (rule of_char_less_256)
  with snoc have "be_val bs * 256 + of_char c < (be_val bs + 1) * 256" by simp
  also have "\<dots> \<le> 256 ^ length bs * 256" using snoc by (intro mult_le_mono1) simp
  finally show ?case by (simp add: be_val_snoc mult.commute)
qed simp

lemma length_encodeUint64BE [simp]: "length (encodeUint64BE n) = 8"
  by (simp add: encodeUint64BE_def)

lemma length_encodeUint64LE [simp]: "length (encodeUint64LE n) = 8"
  by (simp add: encodeUint64LE_def)

lemma BigEndian_encode [simp]: "n < 2 ^ 64 \<Longrightarrow> BigEndian_Uint64 (encodeUint64BE n) = n"
  by (simp add: BigEndian_Uint64_def encodeUint64BE_def be_val_bytes)

lemma LittleEndian_encode [simp]: "n < 2 ^ 64 \<Longrightarrow> LittleEndian_Uint64 (encodeUint64LE n) = n"
  by (simp add: LittleEndian_Uint64_def encodeUint64LE_def be_val_bytes)

lemma encode_BigEndian: "length bs = 8 \<Longrightarrow> encodeUint64BE (BigEndian_Uint64 bs) = bs"
  using be_bytes_val [of bs] by (simp add: BigEndian_Uint64_def encodeUint64BE_def)

lemma BigEndian_bound: "BigEndian_Uint64 bs < 2 ^ 64"
proof -
  have "be_val (take 8 bs) < 256 ^ length (take 8 bs)" by (rule be_val_bound)
  also have "\<dots> \<le> 256 ^ 8" by (rule power_increasing) auto
  finally show ?thesis by (simp add: BigEndian_Uint64_def)
qed

lemma LittleEndian_bound: "LittleEndian_Uint64 bs < 2 ^ 64"
proof -
  have "be_val (rev (take 8 bs)) < 256 ^ length (rev (take 8 bs))" by (rule be_val_bound)
  also have "\<dots> \<le> 256 ^ 8" by (rule power_increasing) auto
  finally show ?thesis by (simp add: LittleEndian_Uint64_def)
qed

lemma encodeUint64BE_inject:
  "m < 2 ^ 64 \<Longrightarrow> n < 2 ^ 64 \<Longrightarrow> encodeUint64BE m = encodeUint64BE n \<longleftrightarrow> m = n"
  by (metis BigEndian_encode)

section \<open>Order\<close>

lemma snoc_less_iff:
  fixes xs ys :: bytes
  shows "length xs = length ys \<Longrightarrow> xs @ [a] < ys @ [b] \<longleftrightarrow> xs < ys \<or> xs = ys \<and> a < b"
  by (induction xs ys rule: list_induct2) auto

lemma be_val_less_iff: "length xs = length ys \<Longrightarrow> be_val xs < be_val ys \<longleftrightarrow> xs < ys"
proof (induction xs arbitrary: ys rule: rev_induct)
  case Nil
  then show ?case by simp
next
  case (snoc a xs ys)
  then obtain zs b where ys: "ys = zs @ [b]" and l: "length xs = length zs"
    by (cases ys rule: rev_cases) auto
  have ab: "(of_char a :: nat) < 256" "(of_char b :: nat) < 256" by (rule of_char_less_256)+
  have eq: "xs = zs" if "be_val xs = be_val zs" using that be_bytes_val [of xs] be_bytes_val [of zs] l by metis
  consider "be_val xs < be_val zs" | "be_val xs = be_val zs" | "be_val zs < be_val xs" by linarith
  then show ?case
  proof cases
    case 1
    then have "xs < zs" using snoc.IH l by blast
    moreover have "be_val xs * 256 + of_char a < be_val zs * 256 + of_char b" using 1 ab by linarith
    ultimately show ?thesis by (simp add: ys be_val_snoc snoc_less_iff l)
  next
    case 2
    then show ?thesis using eq by (simp add: ys be_val_snoc snoc_less_iff less_char_def)
  next
    case 3
    then have "\<not> xs < zs" "xs \<noteq> zs" using snoc.IH [OF l] by auto
    moreover have "\<not> be_val xs * 256 + of_char a < be_val zs * 256 + of_char b" using 3 ab by linarith
    ultimately show ?thesis by (simp add: ys be_val_snoc snoc_less_iff l)
  qed
qed

lemma encodeUint64BE_less_iff:
  "m < 2 ^ 64 \<Longrightarrow> n < 2 ^ 64 \<Longrightarrow> encodeUint64BE m < encodeUint64BE n \<longleftrightarrow> m < n"
  using be_val_less_iff [of "encodeUint64BE m" "encodeUint64BE n"]
  by (simp add: encodeUint64BE_def be_val_bytes)

section \<open>Prefixes\<close>

lemma has_prefix_append [simp]: "has_prefix (p @ x) p"
  by (simp add: has_prefix_def)

lemma has_prefix_iff: "has_prefix k p \<longleftrightarrow> (\<exists>x. k = p @ x)"
  by (auto simp: has_prefix_def) (metis append_take_drop_id)

lemma prefix_le: "has_prefix k p \<Longrightarrow> p \<le> k"
  by (induction p arbitrary: k) (auto simp: has_prefix_iff)

lemma prefix_between:
  "p \<le> k \<Longrightarrow> k \<le> k' \<Longrightarrow> has_prefix k' p \<Longrightarrow> has_prefix k p"
proof (induction p arbitrary: k k')
  case Nil
  then show ?case by (simp add: has_prefix_def)
next
  case (Cons a p)
  obtain b l where k: "k = b # l" using Cons.prems(1) by (cases k) auto
  obtain l' where k': "k' = a # l'" "has_prefix l' p" using Cons.prems(3) by (auto simp: has_prefix_iff)
  have "b = a" "p \<le> l" "l \<le> l'" using Cons.prems(1,2) by (auto simp: k k')
  then show ?case using Cons.IH [of l l'] k k' by (auto simp: has_prefix_iff)
qed

text \<open>Two keys with eight byte prefixes are equal when prefix and rest are.\<close>

lemma dentry_key_inject [simp]:
  "length p = length q \<Longrightarrow> encodeDentryKey p x = encodeDentryKey q y \<longleftrightarrow> p = q \<and> x = y"
  by (simp add: encodeDentryKey_def)

lemma has_prefix_dentry [simp]:
  "length p = length q \<Longrightarrow> has_prefix (encodeDentryKey p x) q \<longleftrightarrow> p = q"
  by (simp add: encodeDentryKey_def has_prefix_def)

end
