(* ===== verification/Bbolt.thy ===== *)
theory Bbolt
  imports Keys
begin

text \<open>
  The embedded key/value store \<^verbatim>\<open>go.etcd.io/bbolt\<close>, which is not part of the repository: its
  operations are a parameter of the metadata service (record \<open>bbolt\<close>) and what the service relies
  on of its documentation is the locale \<open>bbolt_api\<close>: a bucket is a finite map from keys to values, a
  cursor visits a bucket's keys in byte order, a transaction is atomic, an image written by \<^verbatim>\<open>WriteTo\<close>
  opens to the same contents.  A value of type \<open>'db\<close> is the database as a transaction sees it.
  The documentation leaves open what a cursor returns once keys have been deleted under it; the
  locale \<open>bbolt_sweep\<close> is the extra assumption that it is not disturbed.  At the end both locales
  are interpreted on an in-memory store.
\<close>

section \<open>The operations\<close>

text \<open>
  \<^item> \<open>bb_Cursor b p\<close>: the pairs that \<^verbatim>\<open>Cursor().Seek(p)\<close> and then \<^verbatim>\<open>Next()\<close> return, up to the first nil;
  \<^item> \<open>bb_Sweep b p\<close>: the keys the same calls return when the key returned by one call is deleted
    from the bucket right after the following call;
  \<^item> \<open>bb_TooLarge v\<close>: the value's bytes exceed the store's maximal value size;
  \<^item> \<open>bb_Commit\<close>: the error of committing the transaction, if any;
  \<^item> \<open>bb_Open\<close>: opens a file with the given content, or a new one.
\<close>

record 'db bbolt =
  bb_Bucket :: "bytes \<Rightarrow> 'db \<Rightarrow> bool"
  bb_Create :: "bytes \<Rightarrow> 'db \<Rightarrow> 'db result"
  bb_Get :: "bytes \<Rightarrow> bytes \<Rightarrow> 'db \<Rightarrow> blob option"
  bb_Put :: "bytes \<Rightarrow> bytes \<Rightarrow> blob \<Rightarrow> 'db \<Rightarrow> 'db result"
  bb_Delete :: "bytes \<Rightarrow> bytes \<Rightarrow> 'db \<Rightarrow> 'db result"
  bb_Cursor :: "bytes \<Rightarrow> bytes \<Rightarrow> 'db \<Rightarrow> (bytes \<times> blob) list"
  bb_Sweep :: "bytes \<Rightarrow> bytes \<Rightarrow> 'db \<Rightarrow> bytes list"
  bb_KeyN :: "bytes \<Rightarrow> 'db \<Rightarrow> nat"
  bb_TooLarge :: "blob \<Rightarrow> bool"
  bb_Commit :: "'db \<Rightarrow> error option"
  bb_Close :: "'db \<Rightarrow> error option"
  bb_WriteTo :: "'db \<Rightarrow> blob result"
  bb_Open :: "blob option \<Rightarrow> 'db result"

text \<open>\<^verbatim>\<open>MaxKeySize\<close> of the store.\<close>

definition MaxKeySize :: nat where
  "MaxKeySize = 32768"

text \<open>\<^verbatim>\<open>db.Update\<close>: the transaction is rolled back when the function or the commit fails.\<close>

definition db_Update :: "'db bbolt \<Rightarrow> ('db \<Rightarrow> 'db result) \<Rightarrow> 'db \<Rightarrow> error option \<times> 'db" where
  "db_Update B f d =
     (case f d of
        Inl e \<Rightarrow> (Some e, d)
      | Inr d' \<Rightarrow> (case bb_Commit B d' of None \<Rightarrow> (None, d') | Some e \<Rightarrow> (Some e, d)))"

text \<open>What a reader sees of a database: the buckets it has and their contents.\<close>

definition same_view :: "'db bbolt \<Rightarrow> 'db \<Rightarrow> 'db \<Rightarrow> bool" where
  "same_view B d d' \<longleftrightarrow> (\<forall>b. bb_Bucket B b d' = bb_Bucket B b d \<and> (\<forall>k. bb_Get B b k d' = bb_Get B b k d))"

text \<open>
  The loop \<^verbatim>\<open>for k, v := c.Seek(p); k != nil && bytes.HasPrefix(k, p); k, v = c.Next()\<close>: the pairs its
  body runs on.
\<close>

definition prefix_scan :: "'db bbolt \<Rightarrow> bytes \<Rightarrow> bytes \<Rightarrow> 'db \<Rightarrow> (bytes \<times> blob) list" where
  "prefix_scan B b p d = takeWhile (\<lambda>x. has_prefix (fst x) p) (bb_Cursor B b p d)"

lemma takeWhile_prefix:
  assumes "sorted_wrt (<) (map fst xs)" and "\<forall>x\<in>set xs. p \<le> fst x"
  shows "takeWhile (\<lambda>x. has_prefix (fst x) p) xs = filter (\<lambda>x. has_prefix (fst x) p) xs"
  using assms
proof (induction xs)
  case (Cons x xs)
  show ?case
  proof (cases "has_prefix (fst x) p")
    case False
    have "\<not> has_prefix (fst y) p" if "y \<in> set xs" for y
      using prefix_between [of p "fst x" "fst y"] Cons.prems that False by (auto simp: less_imp_le)
    then show ?thesis using False by (simp add: filter_False)
  qed (use Cons in simp)
qed simp

lemma strict_sorted_pairs_eq:
  fixes xs ys :: "('a::linorder \<times> 'b) list"
  assumes "sorted_wrt (<) (map fst xs)" and "sorted_wrt (<) (map fst ys)" and "set xs = set ys"
  shows "xs = ys"
proof -
  have d: "distinct (map fst xs)" "distinct (map fst ys)" using assms(1,2) by (simp_all add: strict_sorted_iff)
  have k: "map fst xs = map fst ys"
    using assms by (intro strict_sorted_equal) simp_all
  have "map snd xs = map snd ys"
  proof (rule nth_equalityI)
    show l: "length (map snd xs) = length (map snd ys)" using arg_cong [OF k, of length] by simp
    fix i assume i: "i < length (map snd xs)"
    have "xs ! i \<in> set ys" using i assms(3) by (metis length_map nth_mem)
    moreover have "ys ! i \<in> set ys" "fst (xs ! i) = fst (ys ! i)"
      using i l arg_cong [OF k, of "\<lambda>l. l ! i"] by simp_all
    ultimately have "xs ! i = ys ! i" using d(2) by (metis eq_key_imp_eq_value prod.collapse)
    then show "map snd xs ! i = map snd ys ! i" using i l by simp
  qed
  with k show ?thesis by (metis zip_map_fst_snd)
qed

section \<open>What the service relies on\<close>

locale bbolt_api =
  fixes B :: "'db bbolt"
  assumes absent: "\<not> bb_Bucket B b d \<Longrightarrow> bb_Get B b k d = None"
    and create_ok: "b \<noteq> [] \<Longrightarrow> length b \<le> MaxKeySize \<Longrightarrow> \<exists>d'. bb_Create B b d = Inr d'"
    and create: "bb_Create B b d = Inr d' \<Longrightarrow>
      bb_Bucket B b' d' = (b' = b \<or> bb_Bucket B b' d) \<and> bb_Get B b' k d' = bb_Get B b' k d"
    and put_ok: "bb_Bucket B b d \<Longrightarrow> k \<noteq> [] \<Longrightarrow> length k \<le> MaxKeySize \<Longrightarrow> \<not> bb_TooLarge B v \<Longrightarrow>
      \<exists>d'. bb_Put B b k v d = Inr d'"
    and put: "bb_Put B b k v d = Inr d' \<Longrightarrow> bb_Bucket B b' d' = bb_Bucket B b' d
      \<and> bb_Get B b' k' d' = (if b' = b \<and> k' = k then Some v else bb_Get B b' k' d)"
    and delete_ok: "bb_Bucket B b d \<Longrightarrow> \<exists>d'. bb_Delete B b k d = Inr d'"
    and delete: "bb_Delete B b k d = Inr d' \<Longrightarrow> bb_Bucket B b' d' = bb_Bucket B b' d
      \<and> bb_Get B b' k' d' = (if b' = b \<and> k' = k then None else bb_Get B b' k' d)"
    and cursor_sorted: "sorted_wrt (<) (map fst (bb_Cursor B b p d))"
    and cursor_set: "(k, v) \<in> set (bb_Cursor B b p d) \<longleftrightarrow> p \<le> k \<and> bb_Get B b k d = Some v"
    and keyN: "bb_KeyN B b d = card {k. bb_Get B b k d \<noteq> None}"
    and open_image: "bb_WriteTo B d = Inr x \<Longrightarrow> bb_Open B (Some x) = Inr d' \<Longrightarrow> same_view B d d'"
    and open_new: "bb_Open B None = Inr d \<Longrightarrow> \<not> bb_Bucket B b d"
begin

lemmas bucket_put [simp] = put [THEN conjunct1]
lemmas get_put = put [THEN conjunct2]
lemmas bucket_delete [simp] = delete [THEN conjunct1]
lemmas get_delete = delete [THEN conjunct2]
lemmas bucket_create = create [THEN conjunct1]
lemmas get_create [simp] = create [THEN conjunct2]

text \<open>Scanning the keys with a given prefix visits exactly the keys that have it, in byte order.\<close>

lemma scan_filter: "prefix_scan B b p d = filter (\<lambda>x. has_prefix (fst x) p) (bb_Cursor B b p d)"
  unfolding prefix_scan_def
  by (rule takeWhile_prefix) (use cursor_sorted cursor_set in auto)

lemma scan_sorted: "sorted_wrt (<) (map fst (prefix_scan B b p d))"
  using cursor_sorted [of b p d] unfolding scan_filter
  by (induction "bb_Cursor B b p d") (auto simp: sorted_wrt_map sorted_wrt_filter)

lemma scan_set: "(k, v) \<in> set (prefix_scan B b p d) \<longleftrightarrow> has_prefix k p \<and> bb_Get B b k d = Some v"
  by (auto simp: scan_filter cursor_set prefix_le)

lemma scan_keys: "fst ` set (prefix_scan B b p d) = {k. has_prefix k p \<and> bb_Get B b k d \<noteq> None}"
proof -
  have "fst ` set (prefix_scan B b p d) = {k. \<exists>v. (k, v) \<in> set (prefix_scan B b p d)}" by force
  then show ?thesis by (simp add: scan_set)
qed

text \<open>A scan is determined by the contents.\<close>

lemma scan_cong:
  assumes "\<And>k. has_prefix k p \<Longrightarrow> bb_Get B b k d = bb_Get B b' k d'"
  shows "prefix_scan B b p d = prefix_scan B b' p d'"
  using assms by (intro strict_sorted_pairs_eq scan_sorted) (auto simp: scan_set)

end

text \<open>Not guaranteed by the documentation: a cursor survives the deletion of the keys behind it.\<close>

locale bbolt_sweep = bbolt_api +
  assumes sweep: "bb_Sweep B b p d = map fst (bb_Cursor B b p d)"

section \<open>An in-memory store\<close>

type_synonym image = "(bytes \<times> (bytes \<times> blob) list) list"

definition img_get :: "bytes \<Rightarrow> bytes \<Rightarrow> image \<Rightarrow> blob option" where
  "img_get b k d = (case map_of d b of None \<Rightarrow> None | Some m \<Rightarrow> map_of m k)"

definition img_cursor :: "bytes \<Rightarrow> bytes \<Rightarrow> image \<Rightarrow> (bytes \<times> blob) list" where
  "img_cursor b p d =
     (case map_of d b of
        None \<Rightarrow> []
      | Some m \<Rightarrow> map (\<lambda>k. (k, the (map_of m k))) (sort (remdups (filter (\<lambda>k. p \<le> k) (map fst m)))))"

definition img_store :: "image bbolt" where
  "img_store = \<lparr>
     bb_Bucket = (\<lambda>b d. map_of d b \<noteq> None),
     bb_Create = (\<lambda>b d. Inr (if map_of d b = None then AList.update b [] d else d)),
     bb_Get = img_get,
     bb_Put = (\<lambda>b k v d. case map_of d b of
        None \<Rightarrow> Inl (Errorf ''bucket not found'')
      | Some m \<Rightarrow> if k = [] then Inl (Errorf ''key required'')
                  else if MaxKeySize < length k then Inl (Errorf ''key too large'')
                  else Inr (AList.update b (AList.update k v m) d)),
     bb_Delete = (\<lambda>b k d. case map_of d b of
        None \<Rightarrow> Inl (Errorf ''bucket not found'') | Some m \<Rightarrow> Inr (AList.update b (AList.delete k m) d)),
     bb_Cursor = img_cursor,
     bb_Sweep = (\<lambda>b p d. map fst (img_cursor b p d)),
     bb_KeyN = (\<lambda>b d. case map_of d b of None \<Rightarrow> 0 | Some m \<Rightarrow> length (remdups (map fst m))),
     bb_TooLarge = (\<lambda>_. False),
     bb_Commit = (\<lambda>_. None),
     bb_Close = (\<lambda>_. None),
     bb_WriteTo = (\<lambda>d. Inr (BoltImage d)),
     bb_Open = (\<lambda>x. case x of None \<Rightarrow> Inr [] | Some (BoltImage d) \<Rightarrow> Inr d | _ \<Rightarrow> Inl (Errorf ''invalid database''))\<rparr>"

lemma strict_sort_remdups: "sorted_wrt (<) (sort (remdups xs) :: 'a::linorder list)"
  by (simp add: strict_sorted_iff)

lemma img_cursor_set:
  "(k, v) \<in> set (img_cursor b p d) \<longleftrightarrow> p \<le> k \<and> img_get b k d = Some v"
proof (cases "map_of d b")
  case (Some m)
  have "k \<in> fst ` set m \<and> the (map_of m k) = v \<longleftrightarrow> map_of m k = Some v"
    by (cases "map_of m k") (auto simp: map_of_eq_None_iff dest: map_of_SomeD intro: rev_image_eqI)
  then show ?thesis using Some by (auto simp: img_cursor_def img_get_def)
qed (simp add: img_cursor_def img_get_def)

lemma img_keyN: "bb_KeyN img_store b d = card {k. img_get b k d \<noteq> None}"
proof (cases "map_of d b")
  case (Some m)
  have "{k. map_of m k \<noteq> None} = set (map fst m)" by (auto simp: map_of_eq_None_iff)
  moreover have "card (set (map fst m)) = length (remdups (map fst m))" by (rule List.card_set)
  ultimately show ?thesis using Some by (simp add: img_store_def img_get_def)
qed (simp add: img_store_def img_get_def)

interpretation img: bbolt_sweep img_store
proof unfold_locales
  show "bb_KeyN img_store b d = card {k. bb_Get img_store b k d \<noteq> None}" for b d
    using img_keyN [of b d] by (simp add: img_store_def)
  show "sorted_wrt (<) (map fst (bb_Cursor img_store b p d))" for b p d
    by (auto simp: img_store_def img_cursor_def o_def intro: strict_sort_remdups split: option.split)
  show "(k, v) \<in> set (bb_Cursor img_store b p d) \<longleftrightarrow> p \<le> k \<and> bb_Get img_store b k d = Some v" for b p d k v
    using img_cursor_set by (simp add: img_store_def)
qed (auto simp: img_store_def img_get_def update_conv' delete_conv' same_view_def split: option.splits if_splits)

end
