(* ===== verification/OsFile.thy ===== *)
theory OsFile
  imports Contract
begin

text \<open>
  The operating system's files as the Raft stores and the chunk service use them, and
  \<^verbatim>\<open>writeFileAtomically\<close> (\<^verbatim>\<open>durable_raft/stores.go\<close>) over them.

  A file system state has the contents a running process sees (\<open>cur\<close>), whether a file's data has
  been fsynced (\<open>synced\<close>), and for every path the set of contents that path may have after a
  crash (\<open>poss\<close>): an unsynced file may come back with any content, a rename is only certain to
  survive once the parent directory has been fsynced.  Failures are scripted: each system call
  consumes one element of \<open>faults\<close> (none left means success); \<open>Fail bs\<close> makes the call fail,
  a failing write leaving the bytes \<open>bs\<close> in the file, and \<open>Crash\<close> stops the machine: from then
  on no system call has an effect.  A statement about every \<open>faults\<close> script is thus a statement
  about every failure of every system call and a crash between any two of them.
\<close>

section \<open>State and system calls\<close>

datatype fault = Success | Fail bytes | Crash

record fs =
  cur :: "string \<rightharpoonup> blob"
  synced :: "string \<Rightarrow> bool"
  poss :: "string \<Rightarrow> blob option set"
  faults :: "fault list"
  crashed :: bool

definition syscall :: "fs \<Rightarrow> fault \<times> fs" where
  "syscall s =
     (if crashed s then (Crash, s)
      else case faults s of
        [] \<Rightarrow> (Success, s)
      | f # rest \<Rightarrow> (f, s\<lparr>faults := rest, crashed := (f = Crash)\<rparr>))"

definition filepath_Dir :: "string \<Rightarrow> string" where
  "filepath_Dir p =
     (if CHR ''/'' \<in> set p
      then let d = rev (tl (dropWhile (\<lambda>c. c \<noteq> CHR ''/'') (rev p))) in if d = [] then ''/'' else d
      else ''.'')"

definition os_MkdirAll :: "fs \<Rightarrow> error option \<times> fs" where
  "os_MkdirAll s =
     (case syscall s of (Success, t) \<Rightarrow> (None, t) | (_, t) \<Rightarrow> (Some (OsError ''mkdir''), t))"

text \<open>\<^verbatim>\<open>os.OpenFile(p, O_CREATE|O_WRONLY|O_TRUNC, mode)\<close>: the file is empty afterwards.\<close>

definition os_OpenTrunc :: "string \<Rightarrow> fs \<Rightarrow> error option \<times> fs" where
  "os_OpenTrunc p s =
     (case syscall s of
        (Success, t) \<Rightarrow>
          (None, t\<lparr>cur := (cur t)(p \<mapsto> Raw []), synced := (synced t)(p := False),
                   poss := (poss t)(p := UNIV)\<rparr>)
      | (_, t) \<Rightarrow> (Some (OsError ''open''), t))"

definition f_Write :: "string \<Rightarrow> blob \<Rightarrow> fs \<Rightarrow> error option \<times> fs" where
  "f_Write p d s =
     (case syscall s of
        (Success, t) \<Rightarrow>
          (None, t\<lparr>cur := (cur t)(p \<mapsto> d), synced := (synced t)(p := False),
                   poss := (poss t)(p := UNIV)\<rparr>)
      | (Fail bs, t) \<Rightarrow>
          (Some (OsError ''write''),
           t\<lparr>cur := (cur t)(p \<mapsto> Raw bs), synced := (synced t)(p := False),
             poss := (poss t)(p := UNIV)\<rparr>)
      | (Crash, t) \<Rightarrow> (Some (OsError ''write''), t))"

definition f_Sync :: "string \<Rightarrow> fs \<Rightarrow> error option \<times> fs" where
  "f_Sync p s =
     (case syscall s of
        (Success, t) \<Rightarrow> (None, t\<lparr>synced := (synced t)(p := True)\<rparr>)
      | (_, t) \<Rightarrow> (Some (OsError ''fsync''), t))"

definition f_Close :: "fs \<Rightarrow> error option \<times> fs" where
  "f_Close s =
     (case syscall s of (Success, t) \<Rightarrow> (None, t) | (_, t) \<Rightarrow> (Some (OsError ''close''), t))"

definition os_Remove :: "string \<Rightarrow> fs \<Rightarrow> error option \<times> fs" where
  "os_Remove p s =
     (case syscall s of
        (Success, t) \<Rightarrow>
          (if cur t p = None then (Some OsNotExist, t)
           else (None, t\<lparr>cur := (cur t)(p := None), poss := (poss t)(p := insert None (poss t p))\<rparr>))
      | (_, t) \<Rightarrow> (Some (OsError ''remove''), t))"

definition os_Rename :: "string \<Rightarrow> string \<Rightarrow> fs \<Rightarrow> error option \<times> fs" where
  "os_Rename p q s =
     (case syscall s of
        (Success, t) \<Rightarrow>
          (case cur t p of
             None \<Rightarrow> (Some OsNotExist, t)
           | Some d \<Rightarrow>
               (None,
                t\<lparr>cur := (cur t)(p := None, q \<mapsto> d),
                  synced := (synced t)(q := synced t p),
                  poss := (poss t)(p := insert None (poss t p),
                                   q := (if synced t p then insert (Some d) (poss t q) else UNIV))\<rparr>))
      | (_, t) \<Rightarrow> (Some (OsError ''rename''), t))"

definition d_Open :: "fs \<Rightarrow> error option \<times> fs" where
  "d_Open s =
     (case syscall s of (Success, t) \<Rightarrow> (None, t) | (_, t) \<Rightarrow> (Some (OsError ''open dir''), t))"

text \<open>
  fsync of a directory makes its entries durable: a path of it that names a synced file has that
  content after a crash, a path that names no file has none.
\<close>

definition d_Sync :: "string \<Rightarrow> fs \<Rightarrow> error option \<times> fs" where
  "d_Sync d s =
     (case syscall s of
        (Success, t) \<Rightarrow>
          (None, t\<lparr>poss := (\<lambda>p. if filepath_Dir p = d \<and> (cur t p = None \<or> synced t p)
                               then {cur t p} else poss t p)\<rparr>)
      | (_, t) \<Rightarrow> (Some (OsError ''fsync dir''), t))"

definition os_Stat :: "string \<Rightarrow> fs \<Rightarrow> error option \<times> fs" where
  "os_Stat p s =
     (case syscall s of
        (Success, t) \<Rightarrow> (if cur t p = None then Some OsNotExist else None, t)
      | (_, t) \<Rightarrow> (Some (OsError ''stat''), t))"

definition os_ReadFile :: "string \<Rightarrow> fs \<Rightarrow> blob result \<times> fs" where
  "os_ReadFile p s =
     (case syscall s of
        (Success, t) \<Rightarrow> (of_opt OsNotExist (cur t p), t)
      | (_, t) \<Rightarrow> (Inl (OsError ''read''), t))"

text \<open>\<^verbatim>\<open>os.WriteFile\<close>: open, write, close; nothing is fsynced.\<close>

definition os_WriteFile :: "string \<Rightarrow> blob \<Rightarrow> fs \<Rightarrow> error option \<times> fs" where
  "os_WriteFile p d s0 =
     (case os_OpenTrunc p s0 of (Some e, s1) \<Rightarrow> (Some e, s1) | (None, s1) \<Rightarrow>
      let (writeErr, s2) = f_Write p d s1; (closeErr, s3) = f_Close s2
      in (if writeErr \<noteq> None then writeErr else closeErr, s3))"

text \<open>A reboot after a crash finds every path in one of its possible states, all of it durable.\<close>

definition reboot :: "fs \<Rightarrow> fs \<Rightarrow> bool" where
  "reboot s t \<longleftrightarrow> (\<forall>p. cur t p \<in> poss s p \<and> poss t p = {cur t p}) \<and> \<not> crashed t"

definition wf_fs :: "fs \<Rightarrow> bool" where
  "wf_fs s \<longleftrightarrow> (\<forall>p. cur s p \<in> poss s p)"

section \<open>writeFileAtomically\<close>

definition tmpPath :: "string \<Rightarrow> string" where
  "tmpPath p = p @ ''.tmp''"

definition writeFileAtomically :: "string \<Rightarrow> blob \<Rightarrow> fs \<Rightarrow> error option \<times> fs" where
  "writeFileAtomically path data s0 =
     (case os_MkdirAll s0 of (Some e, s1) \<Rightarrow> (Some e, s1) | (None, s1) \<Rightarrow>
      case os_OpenTrunc (tmpPath path) s1 of (Some e, s2) \<Rightarrow> (Some e, s2) | (None, s2) \<Rightarrow>
      let (writeErr0, s3) = f_Write (tmpPath path) data s2;
          (writeErr, s4) = (if writeErr0 = None then f_Sync (tmpPath path) s3 else (writeErr0, s3));
          (closeErr, s5) = f_Close s4
      in if writeErr \<noteq> None then (let (_, s6) = os_Remove (tmpPath path) s5 in (writeErr, s6))
         else if closeErr \<noteq> None then (let (_, s6) = os_Remove (tmpPath path) s5 in (closeErr, s6))
         else case os_Rename (tmpPath path) path s5 of
           (Some e, s6) \<Rightarrow> (let (_, s7) = os_Remove (tmpPath path) s6 in (Some e, s7))
         | (None, s6) \<Rightarrow>
             (case d_Open s6 of
                (Some e, s7) \<Rightarrow> (Some (Wrap ''open dir for fsync after rename'' e), s7)
              | (None, s7) \<Rightarrow>
                  (case d_Sync (filepath_Dir path) s7 of
                     (Some e, s8) \<Rightarrow> (Some (Wrap ''fsync dir after rename'' e), s8)
                   | (None, s8) \<Rightarrow> (None, s8))))"

section \<open>Facts\<close>

lemma tmpPath_neq [simp]: "tmpPath p \<noteq> p" "p \<noteq> tmpPath p"
  by (simp_all add: tmpPath_def)

text \<open>
  \<open>same_but p s t\<close>: the two states agree on every path but \<open>p\<close>.  Everything the code does to a
  temporary file is of this kind; a system call itself only consumes its fault.
\<close>

definition same_but :: "string \<Rightarrow> fs \<Rightarrow> fs \<Rightarrow> bool" where
  "same_but p s t \<longleftrightarrow>
     (\<forall>q. q \<noteq> p \<longrightarrow> cur t q = cur s q \<and> synced t q = synced s q \<and> poss t q = poss s q)"

lemma same_but_refl [simp]: "same_but p s s"
  by (simp add: same_but_def)

lemma same_but_trans: "same_but p s t \<Longrightarrow> same_but p t u \<Longrightarrow> same_but p s u"
  by (simp add: same_but_def)

lemma syscall_files:
  "syscall s = (f, t) \<Longrightarrow> cur t = cur s \<and> synced t = synced s \<and> poss t = poss s"
  by (auto simp: syscall_def split: if_splits list.splits)

lemma syscall_Success: "syscall s = (Success, t) \<Longrightarrow> \<not> crashed t"
  by (auto simp: syscall_def split: if_splits list.splits)

lemma os_MkdirAll_same: "os_MkdirAll s = (r, t) \<Longrightarrow> same_but p s t"
  by (auto simp: os_MkdirAll_def same_but_def dest!: syscall_files split: prod.splits fault.splits)

lemma os_OpenTrunc_same: "os_OpenTrunc p s = (r, t) \<Longrightarrow> same_but p s t"
  by (auto simp: os_OpenTrunc_def same_but_def dest!: syscall_files split: prod.splits fault.splits)

lemma f_Write_same: "f_Write p d s = (r, t) \<Longrightarrow> same_but p s t"
  by (auto simp: f_Write_def same_but_def dest!: syscall_files split: prod.splits fault.splits)

lemma f_Sync_same: "f_Sync p s = (r, t) \<Longrightarrow> same_but p s t"
  by (auto simp: f_Sync_def same_but_def dest!: syscall_files split: prod.splits fault.splits)

lemma f_Close_same: "f_Close s = (r, t) \<Longrightarrow> same_but p s t"
  by (auto simp: f_Close_def same_but_def dest!: syscall_files split: prod.splits fault.splits)

lemma os_Remove_same: "os_Remove p s = (r, t) \<Longrightarrow> same_but p s t"
  by (auto simp: os_Remove_def same_but_def dest!: syscall_files
      split: prod.splits fault.splits if_splits)

lemma d_Open_same: "d_Open s = (r, t) \<Longrightarrow> same_but p s t"
  by (auto simp: d_Open_def same_but_def dest!: syscall_files split: prod.splits fault.splits)

lemmas same_butI = os_MkdirAll_same os_OpenTrunc_same f_Write_same f_Sync_same f_Close_same
  os_Remove_same d_Open_same

lemma f_Write_ok: "f_Write p d s = (None, t) \<Longrightarrow> cur t p = Some d"
  by (auto simp: f_Write_def split: prod.splits fault.splits)

lemma f_Sync_ok: "f_Sync p s = (None, t) \<Longrightarrow> cur t = cur s \<and> synced t p"
  by (auto simp: f_Sync_def dest!: syscall_files split: prod.splits fault.splits)

lemma f_Close_ok: "f_Close s = (r, t) \<Longrightarrow> cur t = cur s \<and> synced t = synced s"
  by (auto simp: f_Close_def dest!: syscall_files split: prod.splits fault.splits)

lemma d_Open_ok: "d_Open s = (r, t) \<Longrightarrow> cur t = cur s \<and> synced t = synced s \<and> poss t = poss s"
  by (auto simp: d_Open_def dest!: syscall_files split: prod.splits fault.splits)

lemma os_Rename_fail: "os_Rename p q s = (Some e, t) \<Longrightarrow> same_but p s t"
  by (auto simp: os_Rename_def same_but_def dest!: syscall_files
      split: prod.splits fault.splits option.splits)

lemma os_Rename_ok:
  assumes "os_Rename p q s = (None, t)" and "cur s p = Some d" and "synced s p" and "p \<noteq> q"
  shows "cur t = (cur s)(p := None, q \<mapsto> d)" and "synced t = (synced s)(q := True)"
    and "poss t = (poss s)(p := insert None (poss s p), q := insert (Some d) (poss s q))"
  using assms
  by (auto simp: os_Rename_def dest!: syscall_files split: prod.splits fault.splits option.splits)

lemma d_Sync_cur: "d_Sync d s = (r, t) \<Longrightarrow> cur t = cur s \<and> synced t = synced s"
  by (auto simp: d_Sync_def dest!: syscall_files split: prod.splits fault.splits)

lemma d_Sync_poss: "d_Sync d s = (r, t) \<Longrightarrow> cur s q \<in> poss s q \<Longrightarrow> poss t q \<subseteq> poss s q"
  by (auto simp: d_Sync_def dest!: syscall_files split: prod.splits fault.splits if_splits)

lemma d_Sync_mem: "d_Sync d s = (r, t) \<Longrightarrow> cur s q \<in> poss s q \<Longrightarrow> cur t q \<in> poss t q"
  by (auto simp: d_Sync_def dest!: syscall_files split: prod.splits fault.splits if_splits)

lemma d_Sync_ok:
  "d_Sync (filepath_Dir p) s = (None, t) \<Longrightarrow> synced s p \<Longrightarrow> poss t p = {cur s p}"
  by (auto simp: d_Sync_def dest!: syscall_files split: prod.splits fault.splits)

lemma d_Sync_fail:
  "d_Sync d s = (Some e, t) \<Longrightarrow> cur t = cur s \<and> synced t = synced s \<and> poss t = poss s"
  by (auto simp: d_Sync_def dest!: syscall_files split: prod.splits fault.splits)

lemma d_Sync_not_crashed: "d_Sync d s = (None, t) \<Longrightarrow> \<not> crashed t"
  by (auto simp: d_Sync_def dest: syscall_Success split: prod.splits fault.splits)

section \<open>writeFileAtomically is atomic and durable under every failure and crash\<close>

text \<open>Every run either only touched the temporary file, or got as far as the rename of fsynced data.\<close>

lemma writeFileAtomically_cases:
  assumes run: "writeFileAtomically path data s = (r, t)"
  obtains (tmp_only) "r \<noteq> None" "same_but (tmpPath path) s t"
  | (renamed) u v where "same_but (tmpPath path) s u" "cur u (tmpPath path) = Some data"
      "synced u (tmpPath path)" "os_Rename (tmpPath path) path u = (None, v)"
      "(r \<noteq> None \<and> cur t = cur v \<and> synced t = synced v \<and> poss t = poss v) \<or> 
       (\<exists>w. cur w = cur v \<and> synced w = synced v \<and> poss w = poss v
            \<and> d_Sync (filepath_Dir path) w = (None, t))"
proof -
  let ?tmp = "tmpPath path"
  obtain e1 s1 where 1: "os_MkdirAll s = (e1, s1)" by fastforce
  obtain e2 s2 where 2: "os_OpenTrunc ?tmp s1 = (e2, s2)" by fastforce
  obtain e3 s3 where 3: "f_Write ?tmp data s2 = (e3, s3)" by fastforce
  obtain e4 s4 where 4: "(if e3 = None then f_Sync ?tmp s3 else (e3, s3)) = (e4, s4)" by fastforce
  obtain e5 s5 where 5: "f_Close s4 = (e5, s5)" by fastforce
  obtain e6 s6 where 6: "os_Rename ?tmp path s5 = (e6, s6)" by fastforce
  obtain e7 s7 where 7: "d_Open s6 = (e7, s7)" by fastforce
  obtain e8 s8 where 8: "d_Sync (filepath_Dir path) s7 = (e8, s8)" by fastforce
  obtain r1 x1 where r1: "os_Remove ?tmp s5 = (r1, x1)" by fastforce
  obtain r2 x2 where r2: "os_Remove ?tmp s6 = (r2, x2)" by fastforce
  note steps = 1 2 3 4 5 6 7 8 r1 r2
  have a1: "same_but ?tmp s s1" by (rule os_MkdirAll_same [OF 1])
  have a2: "same_but ?tmp s s2" using a1 os_OpenTrunc_same [OF 2] by (rule same_but_trans)
  have a3: "same_but ?tmp s s3" using a2 f_Write_same [OF 3] by (rule same_but_trans)
  have "same_but ?tmp s3 s4" using 4 f_Sync_same [of ?tmp s3 e4 s4] by (auto split: if_splits)
  with a3 have a4: "same_but ?tmp s s4" by (rule same_but_trans)
  have a5: "same_but ?tmp s s5" using a4 f_Close_same [OF 5] by (rule same_but_trans)
  have b1: "same_but ?tmp s x1" using a5 os_Remove_same [OF r1] by (rule same_but_trans)
  consider "e1 \<noteq> None" | "e1 = None" "e2 \<noteq> None" | "e1 = None" "e2 = None" "e4 \<noteq> None \<or> e5 \<noteq> None"
    | "e1 = None" "e2 = None" "e4 = None" "e5 = None" "e6 \<noteq> None"
    | "e1 = None" "e2 = None" "e4 = None" "e5 = None" "e6 = None" by fast
  then show ?thesis
  proof cases
    case 1 then show ?thesis using run a1 steps tmp_only by (auto simp: writeFileAtomically_def)
  next
    case 2 then show ?thesis using run a2 steps tmp_only by (auto simp: writeFileAtomically_def)
  next
    case 3 then show ?thesis using run b1 steps tmp_only
      by (auto simp: writeFileAtomically_def split: if_splits)
  next
    case 4
    then obtain e where "e6 = Some e" by auto
    then have "same_but ?tmp s5 s6" using 6 os_Rename_fail by metis
    then have "same_but ?tmp s s6" using a5 same_but_trans by blast
    then have "same_but ?tmp s x2" using os_Remove_same [OF r2] same_but_trans by blast
    with 4 show ?thesis using run steps tmp_only
      by (auto simp: writeFileAtomically_def split: if_splits)
  next
    case 5
    have e3: "e3 = None" using \<open>e4 = None\<close> 4 by (auto split: if_splits)
    have "cur s5 ?tmp = Some data" "synced s5 ?tmp"
      using f_Write_ok [of ?tmp data s2 s3] f_Sync_ok [of ?tmp s3 s4] f_Close_ok [of s4 e5 s5]
        steps \<open>e4 = None\<close> e3 by auto
    note facts = this 6 [unfolded \<open>e6 = None\<close>]
    have s7: "cur s7 = cur s6 \<and> synced s7 = synced s6 \<and> poss s7 = poss s6"
      by (rule d_Open_ok [OF 7])
    have t: "(r, t) = (if e7 \<noteq> None then (Some (Wrap ''open dir for fsync after rename'' (the e7)), s7)
        else if e8 \<noteq> None then (Some (Wrap ''fsync dir after rename'' (the e8)), s8) else (None, s8))"
      using run steps 5 e3 by (auto simp: writeFileAtomically_def split: if_splits option.splits)
    show ?thesis
    proof (cases "e7 = None \<and> e8 = None")
      case True
      with t 8 have "d_Sync (filepath_Dir path) s7 = (None, t)" by simp
      then show ?thesis using renamed [OF a5 facts] s7 by blast
    next
      case False
      with t have "r \<noteq> None" "t = s7 \<or> t = s8 \<and> e8 \<noteq> None" by (auto split: if_splits)
      moreover have "e8 \<noteq> None \<Longrightarrow> cur s8 = cur s7 \<and> synced s8 = synced s7 \<and> poss s8 = poss s7"
        using 8 d_Sync_fail by (metis not_Some_eq)
      ultimately have "r \<noteq> None \<and> cur t = cur s6 \<and> synced t = synced s6 \<and> poss t = poss s6"
        using s7 by auto
      then show ?thesis using renamed [OF a5 facts] by blast
    qed
  qed
qed

lemma d_Sync_wf: "d_Sync d s = (r, t) \<Longrightarrow> wf_fs s \<Longrightarrow> wf_fs t"
  by (auto simp: d_Sync_def wf_fs_def dest!: syscall_files split: prod.splits fault.splits)

lemma os_MkdirAll_wf: "os_MkdirAll s = (r, t) \<Longrightarrow> wf_fs s \<Longrightarrow> wf_fs t"
  by (auto simp: os_MkdirAll_def wf_fs_def dest!: syscall_files split: prod.splits fault.splits if_splits option.splits)

lemma os_OpenTrunc_wf: "os_OpenTrunc p s = (r, t) \<Longrightarrow> wf_fs s \<Longrightarrow> wf_fs t"
  by (auto simp: os_OpenTrunc_def wf_fs_def dest!: syscall_files split: prod.splits fault.splits if_splits option.splits)

lemma f_Write_wf: "f_Write p d s = (r, t) \<Longrightarrow> wf_fs s \<Longrightarrow> wf_fs t"
  by (auto simp: f_Write_def wf_fs_def dest!: syscall_files split: prod.splits fault.splits if_splits option.splits)

lemma f_Sync_wf: "f_Sync p s = (r, t) \<Longrightarrow> wf_fs s \<Longrightarrow> wf_fs t"
  by (auto simp: f_Sync_def wf_fs_def dest!: syscall_files split: prod.splits fault.splits if_splits option.splits)

lemma f_Close_wf: "f_Close s = (r, t) \<Longrightarrow> wf_fs s \<Longrightarrow> wf_fs t"
  by (auto simp: f_Close_def wf_fs_def dest!: syscall_files split: prod.splits fault.splits if_splits option.splits)

lemma os_Remove_wf: "os_Remove p s = (r, t) \<Longrightarrow> wf_fs s \<Longrightarrow> wf_fs t"
  by (auto simp: os_Remove_def wf_fs_def dest!: syscall_files split: prod.splits fault.splits if_splits option.splits)

lemma os_Rename_wf: "os_Rename p q s = (r, t) \<Longrightarrow> wf_fs s \<Longrightarrow> wf_fs t"
  by (auto simp: os_Rename_def wf_fs_def dest!: syscall_files split: prod.splits fault.splits if_splits option.splits)

lemma d_Open_wf: "d_Open s = (r, t) \<Longrightarrow> wf_fs s \<Longrightarrow> wf_fs t"
  by (auto simp: d_Open_def wf_fs_def dest!: syscall_files split: prod.splits fault.splits if_splits option.splits)

lemmas op_wf = os_MkdirAll_wf os_OpenTrunc_wf f_Write_wf f_Sync_wf f_Close_wf os_Remove_wf os_Rename_wf d_Open_wf

lemma writeFileAtomically_wf:
  assumes run: "writeFileAtomically path data s = (r, t)" and wf: "wf_fs s"
  shows "wf_fs t"
proof -
  let ?tmp = "tmpPath path"
  obtain e1 s1 where 1: "os_MkdirAll s = (e1, s1)" by fastforce
  obtain e2 s2 where 2: "os_OpenTrunc ?tmp s1 = (e2, s2)" by fastforce
  obtain e3 s3 where 3: "f_Write ?tmp data s2 = (e3, s3)" by fastforce
  obtain e4 s4 where 4: "(if e3 = None then f_Sync ?tmp s3 else (e3, s3)) = (e4, s4)" by fastforce
  obtain e5 s5 where 5: "f_Close s4 = (e5, s5)" by fastforce
  obtain e6 s6 where 6: "os_Rename ?tmp path s5 = (e6, s6)" by fastforce
  obtain e7 s7 where 7: "d_Open s6 = (e7, s7)" by fastforce
  obtain e8 s8 where 8: "d_Sync (filepath_Dir path) s7 = (e8, s8)" by fastforce
  obtain r1 x1 where r1: "os_Remove ?tmp s5 = (r1, x1)" by fastforce
  obtain r2 x2 where r2: "os_Remove ?tmp s6 = (r2, x2)" by fastforce
  have w3: "wf_fs s1" "wf_fs s2" "wf_fs s3"
    using op_wf(1) [OF 1 wf] op_wf(2) [OF 2] op_wf(3) [OF 3] by auto
  then have "wf_fs s4" using 4 op_wf(4) by (auto split: if_splits)
  then have "wf_fs s5" "wf_fs s6" "wf_fs s7" "wf_fs s8" "wf_fs x1" "wf_fs x2"
    using op_wf(5) [OF 5] op_wf(7) [OF 6] op_wf(8) [OF 7] d_Sync_wf [OF 8]
      op_wf(6) [OF r1] op_wf(6) [OF r2] by auto
  moreover have "t \<in> {s1, s2, s7, s8, x1, x2}"
    using run 1 2 3 4 5 6 7 8 r1 r2
    by (auto simp: writeFileAtomically_def split: if_splits option.splits)
  ultimately show ?thesis using w3 by auto
qed

text \<open>
  \<open>atomic_write path data r s t\<close>: what a caller of \<open>writeFileAtomically\<close> may rely on, whatever
  fails: the path has its old or its new content, now and after a crash at any moment; if the
  call returned nil, it durably has the new one; every other path but the temporary one is as
  before.
\<close>

definition atomic_write :: "string \<Rightarrow> blob \<Rightarrow> error option \<Rightarrow> fs \<Rightarrow> fs \<Rightarrow> bool" where
  "atomic_write path data r s t \<longleftrightarrow>
     (cur t path = cur s path \<or> cur t path = Some data)
   \<and> cur t path \<in> poss t path
   \<and> poss t path \<subseteq> insert (Some data) (poss s path)
   \<and> (r = None \<longrightarrow> cur t path = Some data \<and> poss t path = {Some data})
   \<and> (\<forall>q. q \<noteq> path \<longrightarrow> q \<noteq> tmpPath path \<longrightarrow>
        cur t q = cur s q \<and> cur t q \<in> poss t q \<and> poss t q \<subseteq> poss s q)"

lemma writeFileAtomically_atomic_write:
  assumes wf: "wf_fs s" and run: "writeFileAtomically path data s = (r, t)"
  shows "atomic_write path data r s t"
  using run
proof (cases rule: writeFileAtomically_cases)
  case tmp_only
  with wf show ?thesis by (auto simp: atomic_write_def same_but_def wf_fs_def)
next
  case (renamed u v)
  let ?tmp = "tmpPath path"
  note ren = os_Rename_ok [OF renamed(4,2,3) tmpPath_neq(1)]
  have u: "\<And>q. q \<noteq> ?tmp \<Longrightarrow> cur u q = cur s q \<and> poss u q = poss s q"
    using renamed(1) by (simp add: same_but_def)
  have v: "cur v path = Some data" "poss v path = insert (Some data) (poss s path)" "synced v path"
    "\<And>q. q \<noteq> path \<Longrightarrow> q \<noteq> ?tmp \<Longrightarrow> cur v q = cur s q \<and> poss v q = poss s q"
    using ren u by auto
  have wfq: "\<And>q. cur s q \<in> poss s q" using wf by (simp add: wf_fs_def)
  from renamed(5) show ?thesis
  proof (elim disjE exE conjE)
    assume "r \<noteq> None" "cur t = cur v" "synced t = synced v" "poss t = poss v"
    with v wfq show ?thesis by (auto simp: atomic_write_def)
  next
    fix w assume w: "cur w = cur v" "synced w = synced v" "poss w = poss v"
      and sync: "d_Sync (filepath_Dir path) w = (None, t)"
    have c: "cur t = cur v" using d_Sync_cur [OF sync] w by simp
    have p: "poss t path = {Some data}" using d_Sync_ok [OF sync] w v by simp
    have q: "cur t q \<in> poss t q \<and> poss t q \<subseteq> poss s q" if "q \<noteq> path" "q \<noteq> ?tmp" for q
    proof -
      have "cur w q \<in> poss w q" "poss w q = poss s q" using w v(4) [OF that] wfq [of q] by simp_all
      then show ?thesis using d_Sync_poss [OF sync, of q] d_Sync_mem [OF sync, of q] by simp
    qed
    from c p q v show ?thesis by (auto simp: atomic_write_def)
  qed
qed

lemma writeFileAtomically_no_fault:
  assumes "faults s = []" and "\<not> crashed s"
  shows "fst (writeFileAtomically path data s) = None"
    and "\<not> crashed (snd (writeFileAtomically path data s))"
    and "faults (snd (writeFileAtomically path data s)) = []"
  using assms
  by (simp_all add: writeFileAtomically_def os_MkdirAll_def os_OpenTrunc_def f_Write_def f_Sync_def
      f_Close_def os_Rename_def d_Open_def d_Sync_def syscall_def)

text \<open>
  C4. Whatever system call of an atomic write fails, and wherever a crash cuts it off, after a
  reboot the file has the new content or one it could have had before; if the write returned
  nil it has the new content; every other file (the temporary one apart) has a content it could
  have had before.  With no fault the write does return nil.
\<close>

theorem writeFileAtomically_crash_safe:
  assumes "wf_fs s" and "writeFileAtomically path data s = (r, t)" and "reboot t t'"
  shows "(cur t' path = Some data \<or> cur t' path \<in> poss s path)
    \<and> (r = None \<longrightarrow> cur t' path = Some data)
    \<and> (\<forall>q. q \<noteq> path \<longrightarrow> q \<noteq> tmpPath path \<longrightarrow> cur t' q \<in> poss s q)
    \<and> (faults s = [] \<and> \<not> crashed s \<longrightarrow> r = None)"
proof -
  have a: "atomic_write path data r s t"
    using assms(1,2) by (rule writeFileAtomically_atomic_write)
  have c: "cur t' q \<in> poss t q" for q using assms(3) by (simp add: reboot_def)
  have "cur t' path = Some data \<or> cur t' path \<in> poss s path"
    using a c [of path] by (auto simp: atomic_write_def)
  moreover have "r = None \<longrightarrow> cur t' path = Some data" using a c [of path] by (auto simp: atomic_write_def)
  moreover have "\<forall>q. q \<noteq> path \<longrightarrow> q \<noteq> tmpPath path \<longrightarrow> cur t' q \<in> poss s q"
    using a c by (auto simp: atomic_write_def)
  moreover have "faults s = [] \<and> \<not> crashed s \<longrightarrow> r = None"
    using assms(2) writeFileAtomically_no_fault(1) [of s path data] by auto
  ultimately show ?thesis by blast
qed

definition blank_fs :: fs where
  "blank_fs = \<lparr>cur = (\<lambda>_. None), synced = (\<lambda>_. True), poss = (\<lambda>_. {None}), faults = [], crashed = False\<rparr>"

lemma wf_blank_fs [simp]: "wf_fs blank_fs"
  by (simp add: wf_fs_def blank_fs_def)

lemma reboot_self:
  "wf_fs t \<Longrightarrow> reboot t \<lparr>cur = cur t, synced = synced t, poss = (\<lambda>p. {cur t p}), faults = [], crashed = False\<rparr>"
  by (simp add: reboot_def wf_fs_def)

theorem writeFileAtomically_crash_safe_witness:
  "\<exists>t t'. writeFileAtomically ''/d/f'' (Raw ''x'') blank_fs = (None, t) \<and> reboot t t'
     \<and> cur t' ''/d/f'' = Some (Raw ''x'') \<and> cur t' ''/d/g'' = None"
proof -
  obtain r t where run: "writeFileAtomically ''/d/f'' (Raw ''x'') blank_fs = (r, t)" by fastforce
  note w = writeFileAtomically_wf [OF run wf_blank_fs]
  note c = writeFileAtomically_crash_safe [OF wf_blank_fs run reboot_self [OF w]]
  have r: "r = None" using c by (simp add: blank_fs_def)
  have f: "cur t ''/d/f'' = Some (Raw ''x'')" using c r by simp
  have g: "cur t ''/d/g'' = None" using c by (simp add: blank_fs_def tmpPath_def)
  show ?thesis
    by (rule exI [of _ t], rule exI, intro conjI, rule run [unfolded r], rule reboot_self [OF w])
      (simp_all add: f g)
qed

end
