(* ===== verification/BoltMeta.thy ===== *)
theory BoltMeta
  imports Bbolt OsFile
begin

text \<open>
  The metadata service (\<^verbatim>\<open>internal/metadata_service/bolt/bolt_metadata_service.go\<close>).  The store is the
  parameter \<open>B\<close> (see \<open>Bbolt\<close>), the replicator the parameter \<open>rep\<close>: given a command it returns
  the error of \<^verbatim>\<open>Replicate\<close> and the service as it is by then, other commands having been applied in
  between.  A method that runs one transaction is a function on the database (its name ends in
  \<open>Tx\<close>) inside the method's guards.  \<^verbatim>\<open>ctx\<close> is the sequence of results of polling \<^verbatim>\<open>ctx.Err()\<close>; \<^verbatim>\<open>now\<close> is
  \<^verbatim>\<open>time.Now()\<close>, \<^verbatim>\<open>opid\<close> the fresh UUID of an operation.  Latency metrics are left out.
\<close>

section \<open>State\<close>

type_synonym ctxt = "nat \<Rightarrow> error option"

definition poll :: "ctxt \<Rightarrow> nat \<Rightarrow> unit result" where
  "poll ctx i = (case ctx i of None \<Rightarrow> Inr () | Some e \<Rightarrow> Inl e)"

definition polled :: "nat \<Rightarrow> ctxt \<Rightarrow> ctxt" where
  "polled k ctx = (\<lambda>i. ctx (k + i))"

text \<open>
  The service: its database (nil once a snapshot restore has failed half way), whether that is
  open, whether a replicator is set, and the package's inode counter.
\<close>

record 'db service =
  db :: "'db option"
  isOpen :: bool
  replicator :: bool
  inodeIDCounter :: nat

definition metadataStateBucket :: bytes where "metadataStateBucket = ''metadata_state''"
definition superblockBucket :: bytes where "superblockBucket = ''superblock''"
definition inodesBucket :: bytes where "inodesBucket = ''inodes''"
definition dentriesBucket :: bytes where "dentriesBucket = ''dentries''"
definition chunkMapBucket :: bytes where "chunkMapBucket = ''chunk_map''"
definition chunkPlacementsBkt :: bytes where "chunkPlacementsBkt = ''chunk_placements''"
definition chunkIntentsBkt :: bytes where "chunkIntentsBkt = ''chunk_intents''"
definition consistentIndexKey :: bytes where "consistentIndexKey = ''consistent_index''"
definition superblockKey :: bytes where "superblockKey = ''sb''"

definition requiredBuckets :: "bytes list" where
  "requiredBuckets = [metadataStateBucket, superblockBucket, inodesBucket, dentriesBucket,
     chunkMapBucket, chunkPlacementsBkt, chunkIntentsBkt]"

definition not_initialized :: error where
  "not_initialized = Errorf ''bolt metadata service is not initialized''"

definition no_schema :: error where
  "no_schema = Errorf ''bolt metadata schema is not initialized''"

definition initialized :: "'db service \<Rightarrow> unit result" where
  "initialized s = (if db s = None then Inl not_initialized else Inr ())"

text \<open>The two kinds of transaction; a closed database refuses both.\<close>

definition svc_View :: "('db \<Rightarrow> 'a result) \<Rightarrow> 'db service \<Rightarrow> 'a result" where
  "svc_View f s =
     (case db s of
        None \<Rightarrow> Inl not_initialized
      | Some d \<Rightarrow> if isOpen s then f d else Inl (Errorf ''database not open''))"

definition svc_Update ::
  "'db bbolt \<Rightarrow> ('db \<Rightarrow> 'db result) \<Rightarrow> 'db service \<Rightarrow> error option \<times> 'db service" where
  "svc_Update B f s =
     (case db s of
        None \<Rightarrow> (Some not_initialized, s)
      | Some d \<Rightarrow> if isOpen s then let (e, d') = db_Update B f d in (e, s\<lparr>db := Some d'\<rparr>)
                 else (Some (Errorf ''database not open''), s))"

text \<open>A method whose guards fail returns their error and changes nothing.\<close>

definition guarded :: "'a result \<Rightarrow> 's \<Rightarrow> ('a \<Rightarrow> error option \<times> 's) \<Rightarrow> error option \<times> 's" where
  "guarded g s f = (case g of Inl e \<Rightarrow> (Some e, s) | Inr x \<Rightarrow> f x)"

definition need :: "'db bbolt \<Rightarrow> bytes list \<Rightarrow> 'db \<Rightarrow> unit result" where
  "need B bs d = (if list_all (\<lambda>b. bb_Bucket B b d) bs then Inr () else Inl no_schema)"

section \<open>Stored values\<close>

text \<open>
  Gob decoding fails on anything but an encoding of the type asked for: the stored types share no
  field.  Inode keys (in the directory entries) and the consistent index are raw bytes; \<open>key_of\<close>
  reads them, and no value of another kind is taken for a key.
\<close>

fun decodeGob_Inode :: "blob \<Rightarrow> Inode result" where
  "decodeGob_Inode (GobInode i) = Inr i"
| "decodeGob_Inode _ = Inl (Errorf ''gob'')"

fun decodeGob_Superblock :: "blob \<Rightarrow> Superblock result" where
  "decodeGob_Superblock (GobSuperblock b) = Inr b"
| "decodeGob_Superblock _ = Inl (Errorf ''gob'')"

fun decodeGob_ChunkDescriptor :: "blob \<Rightarrow> ChunkDescriptor result" where
  "decodeGob_ChunkDescriptor (GobChunkDescriptor c) = Inr c"
| "decodeGob_ChunkDescriptor _ = Inl (Errorf ''gob'')"

fun json_Unmarshal_RaftCommandEnvelope :: "blob \<Rightarrow> RaftCommandEnvelope result" where
  "json_Unmarshal_RaftCommandEnvelope (JsonEnvelope e) = Inr e"
| "json_Unmarshal_RaftCommandEnvelope _ = Inl (Errorf ''json'')"

fun json_Unmarshal_intent :: "blob \<Rightarrow> ChunkIntentOperation result" where
  "json_Unmarshal_intent (JsonIntent i) = Inr i"
| "json_Unmarshal_intent _ = Inl (Errorf ''json'')"

fun json_Unmarshal_strings :: "blob \<Rightarrow> string list result" where
  "json_Unmarshal_strings (JsonStrings l) = Inr l"
| "json_Unmarshal_strings _ = Inl (Errorf ''json'')"

fun key_of :: "blob \<Rightarrow> bytes" where
  "key_of (Raw bs) = bs"
| "key_of _ = []"

definition storableInode :: "Inode \<Rightarrow> Inode" where
  "storableInode inode = inode\<lparr>i_Children := [], i_ChunkList := []\<rparr>"

definition put_inode :: "'db bbolt \<Rightarrow> bytes \<Rightarrow> Inode \<Rightarrow> 'db \<Rightarrow> 'db result" where
  "put_inode B key inode d = bb_Put B inodesBucket key (GobInode (storableInode inode)) d"

definition put_index :: "'db bbolt \<Rightarrow> nat \<Rightarrow> 'db \<Rightarrow> 'db result" where
  "put_index B consistentIndex d = wrap ''update consistent index''
     (bb_Put B metadataStateBucket consistentIndexKey (Raw (encodeUint64LE consistentIndex)) d)"

definition toMetadataIntentState :: "IntentState \<Rightarrow> IntentState" where
  "toMetadataIntentState st = (case st of
      StatePrepared \<Rightarrow> StatePrepared | StateCommitted \<Rightarrow> StateCommitted | StateAborted \<Rightarrow> StateAborted
    | _ \<Rightarrow> StateUnknown)"

definition toRaftIntentState :: "IntentState \<Rightarrow> IntentState" where
  "toRaftIntentState st = (case st of
      StatePrepared \<Rightarrow> StatePrepared | StateCommitted \<Rightarrow> StateCommitted | StateAborted \<Rightarrow> StateAborted
    | _ \<Rightarrow> StateUnknown)"

section \<open>Loading\<close>

definition loadSuperblock :: "'db bbolt \<Rightarrow> 'db \<Rightarrow> Superblock result" where
  "loadSuperblock B d =
     (if \<not> bb_Bucket B superblockBucket d then Inl no_schema
      else rbind (of_opt ErrNotFound (bb_Get B superblockBucket superblockKey d)) (\<lambda>superblockBytes.
           wrap ''decode superblock'' (decodeGob_Superblock superblockBytes)))"

definition loadStoredInode :: "'db bbolt \<Rightarrow> bytes \<Rightarrow> 'db \<Rightarrow> Inode result" where
  "loadStoredInode B inodeKey d =
     (if \<not> bb_Bucket B inodesBucket d then Inl no_schema
      else rbind (of_opt ErrNotFound (bb_Get B inodesBucket inodeKey d)) (\<lambda>inodeBytes.
           wrap ''decode inode'' (decodeGob_Inode inodeBytes)))"

definition zeroChunk :: ChunkDescriptor where
  "zeroChunk = \<lparr>cd_ChunkID = [], cd_Locations = []\<rparr>"

text \<open>\<^verbatim>\<open>chunkList[index] = chunkDescriptor\<close>, after appending zero descriptors up to \<^verbatim>\<open>index\<close>.\<close>

definition placeChunk :: "nat \<Rightarrow> ChunkDescriptor \<Rightarrow> ChunkDescriptor list \<Rightarrow> ChunkDescriptor list" where
  "placeChunk index c chunkList = (chunkList @ replicate (index + 1 - length chunkList) zeroChunk)[index := c]"

fun loadChunks :: "nat \<Rightarrow> (bytes \<times> blob) list \<Rightarrow> ChunkDescriptor list \<Rightarrow> ChunkDescriptor list result" where
  "loadChunks keyLen [] chunkList = Inr chunkList"
| "loadChunks keyLen ((key, value) # rest) chunkList =
     (if length key \<noteq> keyLen + 8 then Inl (Errorf ''invalid chunk map key length'')
      else rbind (wrap ''decode chunk descriptor'' (decodeGob_ChunkDescriptor value)) (\<lambda>c.
           loadChunks keyLen rest (placeChunk (BigEndian_Uint64 (drop keyLen key)) c chunkList)))"

definition loadChunkList :: "'db bbolt \<Rightarrow> bytes \<Rightarrow> 'db \<Rightarrow> ChunkDescriptor list result" where
  "loadChunkList B inodeKey d =
     (if \<not> bb_Bucket B chunkMapBucket d then Inl no_schema
      else loadChunks (length inodeKey) (prefix_scan B chunkMapBucket inodeKey d) [])"

text \<open>
  The cursor is advanced before the key it was on is deleted: the keys are those of a sweep, up to
  the first that does not have the prefix.
\<close>

fun deleteKeys :: "'db bbolt \<Rightarrow> bytes list \<Rightarrow> 'db \<Rightarrow> 'db result" where
  "deleteKeys B [] d = Inr d"
| "deleteKeys B (key # keys) d =
     rbind (wrap ''delete chunk descriptor'' (bb_Delete B chunkMapBucket key d)) (deleteKeys B keys)"

definition deleteChunkList :: "'db bbolt \<Rightarrow> bytes \<Rightarrow> 'db \<Rightarrow> 'db result" where
  "deleteChunkList B inodeKey d =
     (if \<not> bb_Bucket B chunkMapBucket d then Inl no_schema
      else deleteKeys B (takeWhile (\<lambda>k. has_prefix k inodeKey) (bb_Sweep B chunkMapBucket inodeKey d)) d)"

fun putChunks :: "'db bbolt \<Rightarrow> bytes \<Rightarrow> nat \<Rightarrow> ChunkDescriptor list \<Rightarrow> 'db \<Rightarrow> 'db result" where
  "putChunks B inodeKey idx [] d = Inr d"
| "putChunks B inodeKey idx (c # cs) d =
     rbind (wrap ''store chunk descriptor''
        (bb_Put B chunkMapBucket (encodeChunkMapKey inodeKey idx) (GobChunkDescriptor c) d))
       (putChunks B inodeKey (idx + 1) cs)"

definition replaceChunkList :: "'db bbolt \<Rightarrow> bytes \<Rightarrow> ChunkDescriptor list \<Rightarrow> 'db \<Rightarrow> 'db result" where
  "replaceChunkList B inodeKey chunkList d =
     rbind (deleteChunkList B inodeKey d) (putChunks B inodeKey 0 chunkList)"

section \<open>Applying replicated operations\<close>

definition decodeIndex :: "blob \<Rightarrow> nat result" where
  "decodeIndex indexBytes =
     (if length (key_of indexBytes) \<noteq> 8 then Inl (Errorf ''invalid consistent index length'')
      else Inr (LittleEndian_Uint64 (key_of indexBytes)))"

definition nextConsistentIndex :: "'db bbolt \<Rightarrow> 'db service \<Rightarrow> nat result" where
  "nextConsistentIndex B s =
     rbind (initialized s) (\<lambda>_.
     rbind (svc_View (\<lambda>d.
        if \<not> bb_Bucket B metadataStateBucket d then Inl no_schema
        else case bb_Get B metadataStateBucket consistentIndexKey d of
               None \<Rightarrow> Inr 0
             | Some indexBytes \<Rightarrow> decodeIndex indexBytes) s) (\<lambda>current.
     Inr (inc64 current)))"

definition newInode :: "MetadataOperation \<Rightarrow> Inode" where
  "newInode op =
     \<lparr>i_InodeID = op_InodeID op, i_Type = op_FileType op,
      i_LinkCount = (if op_FileType op = TypeDirectory then 2 else 1),
      i_Mode = op_Mode op, i_OwnerUID = op_UID op, i_OwnerGID = op_GID op,
      i_AccessTime = op_Timestamp op, i_ModifyTime = op_Timestamp op, i_ChangeTime = op_Timestamp op,
      i_FileSize = 0, i_VersionNumber = 0, i_Children = [], i_ChunkList = []\<rparr>"

definition touched :: "int \<Rightarrow> Inode \<Rightarrow> Inode" where
  "touched now inode = inode\<lparr>i_ModifyTime := now, i_ChangeTime := now\<rparr>"

definition createTx :: "'db bbolt \<Rightarrow> MetadataOperation \<Rightarrow> nat \<Rightarrow> bytes \<Rightarrow> bytes \<Rightarrow> 'db \<Rightarrow> 'db result" where
  "createTx B op consistentIndex parentKey childKey d =
     rbind (need B [inodesBucket, dentriesBucket, metadataStateBucket] d) (\<lambda>_.
     rbind (of_opt ErrNotFound (bb_Get B inodesBucket parentKey d)) (\<lambda>parentBytes.
     rbind (wrap ''decode parent inode'' (decodeGob_Inode parentBytes)) (\<lambda>parent.
     if i_Type parent \<noteq> TypeDirectory then Inl ErrNotFound
     else if bb_Get B dentriesBucket (encodeDentryKey parentKey (op_Name op)) d \<noteq> None then Inl ErrAlreadyExists
     else
       let parent' = (if op_FileType op = TypeDirectory
                      then parent\<lparr>i_LinkCount := int64 (i_LinkCount parent + 1)\<rparr> else parent)
       in rbind (wrap ''store child inode'' (put_inode B childKey (newInode op) d)) (\<lambda>d.
          rbind (wrap ''store dentry'' (bb_Put B dentriesBucket (encodeDentryKey parentKey (op_Name op)) (Raw childKey) d)) (\<lambda>d.
          rbind (wrap ''update parent inode'' (put_inode B parentKey (touched (op_Timestamp op) parent') d)) (\<lambda>d.
          put_index B consistentIndex d))))))"

definition ApplyCreate :: "'db bbolt \<Rightarrow> MetadataOperation \<Rightarrow> nat \<Rightarrow> 'db service \<Rightarrow> error option \<times> 'db service" where
  "ApplyCreate B op consistentIndex s =
     guarded (rbind (initialized s) (\<lambda>_.
        rbind (wrap ''encode parent inode id'' (encodeInodeKey (op_ParentID op))) (\<lambda>parentKey.
        rbind (wrap ''encode child inode id'' (encodeInodeKey (op_InodeID op))) (\<lambda>childKey.
        Inr (parentKey, childKey))))) s
       (\<lambda>(parentKey, childKey). svc_Update B (createTx B op consistentIndex parentKey childKey) s)"

definition renameTx :: "'db bbolt \<Rightarrow> MetadataOperation \<Rightarrow> nat \<Rightarrow> bytes \<Rightarrow> bytes \<Rightarrow> 'db \<Rightarrow> 'db result" where
  "renameTx B op consistentIndex srcParentKey dstParentKey d =
     (let srcDentryKey = encodeDentryKey srcParentKey (op_Name op);
          dstDentryKey = encodeDentryKey dstParentKey (op_DstName op) in
     rbind (need B [inodesBucket, dentriesBucket, metadataStateBucket] d) (\<lambda>_.
     rbind (of_opt ErrNotFound (bb_Get B inodesBucket srcParentKey d)) (\<lambda>srcParentBytes.
     rbind (of_opt ErrNotFound (bb_Get B inodesBucket dstParentKey d)) (\<lambda>dstParentBytes.
     rbind (wrap ''decode source parent inode'' (decodeGob_Inode srcParentBytes)) (\<lambda>srcParent.
     rbind (wrap ''decode destination parent inode'' (decodeGob_Inode dstParentBytes)) (\<lambda>dstParent.
     rbind (of_opt ErrNotFound (bb_Get B dentriesBucket srcDentryKey d)) (\<lambda>childKey.
     rbind (wrap ''delete source dentry'' (bb_Delete B dentriesBucket srcDentryKey d)) (\<lambda>d.
     rbind (case bb_Get B dentriesBucket dstDentryKey d of
              None \<Rightarrow> Inr d
            | Some overwrittenChildKey \<Rightarrow>
                wrap ''delete overwritten inode'' (bb_Delete B inodesBucket (key_of overwrittenChildKey) d)) (\<lambda>d.
     rbind (wrap ''store destination dentry'' (bb_Put B dentriesBucket dstDentryKey childKey d)) (\<lambda>d.
     rbind (wrap ''update source parent inode'' (put_inode B srcParentKey (touched (op_Timestamp op) srcParent) d)) (\<lambda>d.
     rbind (wrap ''update destination parent inode'' (put_inode B dstParentKey (touched (op_Timestamp op) dstParent) d)) (\<lambda>d.
     put_index B consistentIndex d))))))))))))"

definition ApplyRename :: "'db bbolt \<Rightarrow> MetadataOperation \<Rightarrow> nat \<Rightarrow> 'db service \<Rightarrow> error option \<times> 'db service" where
  "ApplyRename B op consistentIndex s =
     guarded (rbind (initialized s) (\<lambda>_.
        rbind (wrap ''encode source parent inode id'' (encodeInodeKey (op_ParentID op))) (\<lambda>srcParentKey.
        rbind (wrap ''encode destination parent inode id'' (encodeInodeKey (op_DstParentID op))) (\<lambda>dstParentKey.
        Inr (srcParentKey, dstParentKey))))) s
       (\<lambda>(srcParentKey, dstParentKey). svc_Update B (renameTx B op consistentIndex srcParentKey dstParentKey) s)"

definition removeTx :: "'db bbolt \<Rightarrow> MetadataOperation \<Rightarrow> nat \<Rightarrow> bytes \<Rightarrow> 'db \<Rightarrow> 'db result" where
  "removeTx B op consistentIndex parentKey d =
     (let dentryKey = encodeDentryKey parentKey (op_Name op) in
     rbind (need B [inodesBucket, dentriesBucket, metadataStateBucket] d) (\<lambda>_.
     rbind (of_opt ErrNotFound (bb_Get B dentriesBucket dentryKey d)) (\<lambda>childKey.
     rbind (of_opt ErrNotFound (bb_Get B inodesBucket parentKey d)) (\<lambda>parentBytes.
     rbind (wrap ''decode parent inode'' (decodeGob_Inode parentBytes)) (\<lambda>parent.
     rbind (of_opt ErrNotFound (bb_Get B inodesBucket (key_of childKey) d)) (\<lambda>childBytes.
     rbind (wrap ''decode child inode'' (decodeGob_Inode childBytes)) (\<lambda>child.
     rbind (wrap ''delete dentry'' (bb_Delete B dentriesBucket dentryKey d)) (\<lambda>d.
     rbind (wrap ''delete child inode'' (bb_Delete B inodesBucket (key_of childKey) d)) (\<lambda>d.
     let parent' = (if i_Type child = TypeDirectory
                    then parent\<lparr>i_LinkCount := int64 (i_LinkCount parent - 1)\<rparr> else parent) in
     rbind (wrap ''update parent inode'' (put_inode B parentKey (touched (op_Timestamp op) parent') d)) (\<lambda>d.
     put_index B consistentIndex d))))))))))"

definition ApplyRemove :: "'db bbolt \<Rightarrow> MetadataOperation \<Rightarrow> nat \<Rightarrow> 'db service \<Rightarrow> error option \<times> 'db service" where
  "ApplyRemove B op consistentIndex s =
     guarded (rbind (initialized s) (\<lambda>_. wrap ''encode parent inode id'' (encodeInodeKey (op_ParentID op)))) s
       (\<lambda>parentKey. svc_Update B (removeTx B op consistentIndex parentKey) s)"

definition setAttrs :: "MetadataOperation \<Rightarrow> Inode \<Rightarrow> Inode" where
  "setAttrs op inode =
     (let i1 = (case op_SetMode op of None \<Rightarrow> inode | Some m \<Rightarrow> inode\<lparr>i_Mode := m\<rparr>);
          i2 = (case op_SetUID op of None \<Rightarrow> i1 | Some u \<Rightarrow> i1\<lparr>i_OwnerUID := u\<rparr>);
          i3 = (case op_SetGID op of None \<Rightarrow> i2 | Some g \<Rightarrow> i2\<lparr>i_OwnerGID := g\<rparr>);
          i4 = (case op_SetATime op of None \<Rightarrow> i3 | Some t \<Rightarrow> i3\<lparr>i_AccessTime := t\<rparr>);
          i5 = (case op_SetMTime op of None \<Rightarrow> i4 | Some t \<Rightarrow> i4\<lparr>i_ModifyTime := t\<rparr>)
      in i5\<lparr>i_ChangeTime := op_Timestamp op\<rparr>)"

definition setAttrTx :: "'db bbolt \<Rightarrow> MetadataOperation \<Rightarrow> nat \<Rightarrow> bytes \<Rightarrow> 'db \<Rightarrow> 'db result" where
  "setAttrTx B op consistentIndex inodeKey d =
     rbind (need B [inodesBucket, metadataStateBucket] d) (\<lambda>_.
     rbind (loadStoredInode B inodeKey d) (\<lambda>inode.
     rbind (wrap ''update inode'' (put_inode B inodeKey (setAttrs op inode) d)) (\<lambda>d.
     put_index B consistentIndex d)))"

definition ApplySetAttr :: "'db bbolt \<Rightarrow> MetadataOperation \<Rightarrow> nat \<Rightarrow> 'db service \<Rightarrow> error option \<times> 'db service" where
  "ApplySetAttr B op consistentIndex s =
     guarded (rbind (initialized s) (\<lambda>_. wrap ''encode inode id'' (encodeInodeKey (op_InodeID op)))) s
       (\<lambda>inodeKey. svc_Update B (setAttrTx B op consistentIndex inodeKey) s)"

definition updateFields :: "MetadataOperation \<Rightarrow> Inode \<Rightarrow> Inode" where
  "updateFields op inode =
     (let i1 = (case op_NewSize op of None \<Rightarrow> inode | Some n \<Rightarrow> inode\<lparr>i_FileSize := n\<rparr>);
          i2 = (case op_SetMTime op of None \<Rightarrow> i1 | Some t \<Rightarrow> i1\<lparr>i_ModifyTime := t\<rparr>)
      in i2\<lparr>i_VersionNumber := int64 (i_VersionNumber i2 + 1), i_ChangeTime := op_Timestamp op\<rparr>)"

definition updateChunks :: "'db bbolt \<Rightarrow> MetadataOperation \<Rightarrow> bytes \<Rightarrow> 'db \<Rightarrow> 'db result" where
  "updateChunks B op inodeKey d =
     (case op_NewChunkList op of
        None \<Rightarrow> Inr d
      | Some chunkList \<Rightarrow> wrap ''update chunk list'' (replaceChunkList B inodeKey chunkList d))"

definition updateInodeTx :: "'db bbolt \<Rightarrow> MetadataOperation \<Rightarrow> nat \<Rightarrow> bytes \<Rightarrow> 'db \<Rightarrow> 'db result" where
  "updateInodeTx B op consistentIndex inodeKey d =
     rbind (need B [inodesBucket, chunkMapBucket, metadataStateBucket] d) (\<lambda>_.
     rbind (loadStoredInode B inodeKey d) (\<lambda>inode.
     rbind (wrap ''update inode'' (put_inode B inodeKey (updateFields op inode) d)) (\<lambda>d.
     rbind (updateChunks B op inodeKey d) (\<lambda>d.
     put_index B consistentIndex d))))"

definition ApplyUpdateInode :: "'db bbolt \<Rightarrow> MetadataOperation \<Rightarrow> nat \<Rightarrow> 'db service \<Rightarrow> error option \<times> 'db service" where
  "ApplyUpdateInode B op consistentIndex s =
     guarded (rbind (initialized s) (\<lambda>_. wrap ''encode inode id'' (encodeInodeKey (op_InodeID op)))) s
       (\<lambda>inodeKey. svc_Update B (updateInodeTx B op consistentIndex inodeKey) s)"

text \<open>The metadata half of a chunk commit; \<open>now\<close> is only used for a command without timestamp.\<close>

definition commitFields :: "int \<Rightarrow> MetadataOperation \<Rightarrow> Inode \<Rightarrow> Inode" where
  "commitFields now op inode =
     (let i1 = (case op_NewSize op of None \<Rightarrow> inode | Some n \<Rightarrow> inode\<lparr>i_FileSize := n\<rparr>)
      in touched (if 0 < op_Timestamp op then op_Timestamp op else now) i1)"

definition intentMetaTx :: "'db bbolt \<Rightarrow> int \<Rightarrow> MetadataOperation \<Rightarrow> 'db \<Rightarrow> 'db result" where
  "intentMetaTx B now metaUpdate d =
     rbind (need B [inodesBucket, chunkMapBucket] d) (\<lambda>_.
     rbind (wrap ''encode inode id'' (encodeInodeKey (op_InodeID metaUpdate))) (\<lambda>inodeKey.
     rbind (loadStoredInode B inodeKey d) (\<lambda>inode.
     rbind (updateChunks B metaUpdate inodeKey d) (\<lambda>d.
     wrap ''update inode'' (put_inode B inodeKey (commitFields now metaUpdate inode) d)))))"

definition intentTx ::
  "'db bbolt \<Rightarrow> int \<Rightarrow> ChunkIntentOperation \<Rightarrow> MetadataOperation option \<Rightarrow> nat \<Rightarrow> 'db \<Rightarrow> 'db result" where
  "intentTx B now intent metaUpdate consistentIndex d =
     rbind (bb_Create B chunkIntentsBkt d) (\<lambda>d.
     rbind (bb_Put B chunkIntentsBkt (ci_TxnID intent) (JsonIntent intent) d) (\<lambda>d.
     rbind (bb_Create B chunkPlacementsBkt d) (\<lambda>d.
     rbind (bb_Put B chunkPlacementsBkt (ci_ChunkID intent) (JsonStrings (ci_NodeIDs intent)) d) (\<lambda>d.
     rbind (case metaUpdate of
              None \<Rightarrow> Inr d
            | Some op \<Rightarrow> if op_Type op = OpUpdateInode then intentMetaTx B now op d else Inr d) (\<lambda>d.
     rbind (need B [metadataStateBucket] d) (\<lambda>_.
     put_index B consistentIndex d))))))"

definition applyChunkIntentAtomic ::
  "'db bbolt \<Rightarrow> int \<Rightarrow> ChunkIntentOperation option \<Rightarrow> MetadataOperation option \<Rightarrow> 'db service \<Rightarrow> error option \<times> 'db service" where
  "applyChunkIntentAtomic B now intent metaUpdate s =
     guarded (rbind (initialized s) (\<lambda>_.
        rbind (of_opt (Errorf ''missing chunk intent operation in raft envelope'') intent) (\<lambda>i.
        rbind (nextConsistentIndex B s) (\<lambda>consistentIndex. Inr (i, consistentIndex))))) s
       (\<lambda>(i, consistentIndex). svc_Update B (intentTx B now i metaUpdate consistentIndex) s)"

definition applyStandardMetadata ::
  "'db bbolt \<Rightarrow> MetadataOperation option \<Rightarrow> 'db service \<Rightarrow> error option \<times> 'db service" where
  "applyStandardMetadata B mop s =
     guarded (rbind (of_opt (Errorf ''missing metadata operation in raft envelope'') mop) (\<lambda>op.
        rbind (nextConsistentIndex B s) (\<lambda>consistentIndex. Inr (op, consistentIndex)))) s
       (\<lambda>(op, consistentIndex). case op_Type op of
          OpCreate \<Rightarrow> ApplyCreate B op consistentIndex s
        | OpRemove \<Rightarrow> ApplyRemove B op consistentIndex s
        | OpRename \<Rightarrow> ApplyRename B op consistentIndex s
        | OpSetAttr \<Rightarrow> ApplySetAttr B op consistentIndex s
        | OpUpdateInode \<Rightarrow> ApplyUpdateInode B op consistentIndex s
        | OpOther _ \<Rightarrow> (Some (Errorf ''unknown operation type''), s))"

definition ApplyTransaction :: "'db bbolt \<Rightarrow> int \<Rightarrow> blob \<Rightarrow> 'db service \<Rightarrow> error option \<times> 'db service" where
  "ApplyTransaction B now data s =
     guarded (json_Unmarshal_RaftCommandEnvelope data) s (\<lambda>envelope.
       case env_Type envelope of
         PayloadPosixMeta \<Rightarrow> applyStandardMetadata B (env_PosixMeta envelope) s
       | PayloadChunkIntent \<Rightarrow> applyChunkIntentAtomic B now (env_ChunkIntent envelope) (env_PosixMeta envelope) s
       | PayloadOther _ \<Rightarrow> (Some (Errorf ''unknown envelope type''), s))"

section \<open>Queries\<close>

fun readDirLoop ::
  "'db bbolt \<Rightarrow> ctxt \<Rightarrow> nat \<Rightarrow> nat \<Rightarrow> 'db \<Rightarrow> (bytes \<times> blob) list \<Rightarrow> DirEntry list result" where
  "readDirLoop B ctx i prefixLen d [] = Inr []"
| "readDirLoop B ctx i prefixLen d ((key, value) # rest) =
     rbind (poll ctx i) (\<lambda>_.
     rbind (of_opt (Errorf ''missing child inode for dentry'') (bb_Get B inodesBucket (key_of value) d)) (\<lambda>childBytes.
     rbind (wrap ''decode child inode for dentry'' (decodeGob_Inode childBytes)) (\<lambda>child.
     rbind (readDirLoop B ctx (i + 1) prefixLen d rest) (\<lambda>entries.
     Inr (\<lparr>de_Name = drop prefixLen key, de_InodeID = i_InodeID child, de_Type = i_Type child\<rparr> # entries)))))"

definition readDirView :: "'db bbolt \<Rightarrow> ctxt \<Rightarrow> bytes \<Rightarrow> 'db \<Rightarrow> DirEntry list result" where
  "readDirView B ctx parentKey d =
     rbind (need B [inodesBucket, dentriesBucket] d) (\<lambda>_.
     rbind (of_opt ErrNotFound (bb_Get B inodesBucket parentKey d)) (\<lambda>parentBytes.
     rbind (wrap ''decode parent inode'' (decodeGob_Inode parentBytes)) (\<lambda>parent.
     if i_Type parent \<noteq> TypeDirectory then Inl ErrNotDir
     else readDirLoop B ctx 1 (length parentKey) d (prefix_scan B dentriesBucket parentKey d))))"

text \<open>
  One page of the listing: the entries from \<^verbatim>\<open>cookie\<close> on, the next cookie, and whether that is the
  end.  \<^verbatim>\<open>cookie + maxEntries\<close> is computed in 64 bits; slicing with an end before the start panics.
\<close>

definition readDirPage :: "'e list \<Rightarrow> int \<Rightarrow> int \<Rightarrow> ('e list \<times> int \<times> bool) result" where
  "readDirPage entries cookie0 maxEntries0 =
     (let n = int (length entries);
          cookie = (if cookie0 < 0 then 0 else cookie0)
      in if n \<le> cookie then Inr ([], cookie, True)
         else
           let maxEntries = (if maxEntries0 \<le> 0 then n - cookie else maxEntries0);
               end0 = int64 (cookie + maxEntries);
               end' = (if n < end0 then n else end0)
           in if end' < cookie then Inl (Panic ''slice bounds out of range'')
              else Inr (take (nat (end' - cookie)) (drop (nat cookie) entries), end', end' = n))"

definition ReadDir ::
  "'db bbolt \<Rightarrow> ctxt \<Rightarrow> string \<Rightarrow> int \<Rightarrow> int \<Rightarrow> 'db service \<Rightarrow> (DirEntry list \<times> int \<times> bool) result" where
  "ReadDir B ctx inodeID cookie maxEntries s =
     rbind (initialized s) (\<lambda>_.
     rbind (poll ctx 0) (\<lambda>_.
     rbind (wrap ''encode parent inode id'' (encodeInodeKey inodeID)) (\<lambda>parentKey.
     rbind (svc_View (readDirView B ctx parentKey) s) (\<lambda>entries.
     readDirPage entries cookie maxEntries))))"

definition lookupView :: "'db bbolt \<Rightarrow> ctxt \<Rightarrow> bytes \<Rightarrow> string \<Rightarrow> 'db \<Rightarrow> string result" where
  "lookupView B ctx parentKey name d =
     rbind (need B [inodesBucket, dentriesBucket] d) (\<lambda>_.
     rbind (of_opt ErrNotFound (bb_Get B inodesBucket parentKey d)) (\<lambda>parentBytes.
     rbind (wrap ''decode parent inode'' (decodeGob_Inode parentBytes)) (\<lambda>parent.
     if i_Type parent \<noteq> TypeDirectory then Inl ErrNotDir
     else rbind (poll ctx 1) (\<lambda>_.
          rbind (of_opt ErrNotFound (bb_Get B dentriesBucket (encodeDentryKey parentKey name) d)) (\<lambda>childKey.
          wrap ''decode child inode id'' (decodeInodeID (key_of childKey)))))))"

definition Lookup :: "'db bbolt \<Rightarrow> ctxt \<Rightarrow> string \<Rightarrow> string \<Rightarrow> 'db service \<Rightarrow> string result" where
  "Lookup B ctx parentInodeID name s =
     rbind (initialized s) (\<lambda>_.
     rbind (poll ctx 0) (\<lambda>_.
     rbind (wrap ''encode parent inode id'' (encodeInodeKey parentInodeID)) (\<lambda>parentKey.
     svc_View (lookupView B ctx parentKey name) s)))"

definition attributes_of :: "Inode \<Rightarrow> Attributes" where
  "attributes_of inode =
     \<lparr>a_InodeID = i_InodeID inode, a_Type = i_Type inode, a_Mode = i_Mode inode, a_Size = i_FileSize inode,
      a_AccessTime = i_AccessTime inode, a_ModifyTime = i_ModifyTime inode, a_ChangeTime = i_ChangeTime inode,
      a_UID = i_OwnerUID inode, a_GID = i_OwnerGID inode\<rparr>"

definition GetAttributes :: "'db bbolt \<Rightarrow> ctxt \<Rightarrow> string \<Rightarrow> 'db service \<Rightarrow> Attributes result" where
  "GetAttributes B ctx inodeID s =
     rbind (initialized s) (\<lambda>_.
     rbind (poll ctx 0) (\<lambda>_.
     rbind (wrap ''encode inode id'' (encodeInodeKey inodeID)) (\<lambda>inodeKey.
     svc_View (\<lambda>d.
       rbind (loadStoredInode B inodeKey d) (\<lambda>inode.
       rbind (poll ctx 1) (\<lambda>_. Inr (attributes_of inode)))) s)))"

definition GetFsStat :: "'db bbolt \<Rightarrow> ctxt \<Rightarrow> 'db service \<Rightarrow> FileSystemStats result" where
  "GetFsStat B ctx s =
     rbind (initialized s) (\<lambda>_.
     rbind (poll ctx 0) (\<lambda>_.
     svc_View (\<lambda>d.
       rbind (need B [superblockBucket, inodesBucket] d) (\<lambda>_.
       rbind (loadSuperblock B d) (\<lambda>superblock.
       rbind (poll ctx 1) (\<lambda>_.
       Inr \<lparr>TotalSpace = sb_MaxFileSize superblock, UsedSpace = 0, TotalInodes = sb_MaxFileSize superblock,
            UsedInodes = int64 (int (bb_KeyN B inodesBucket d)), BlockSize = sb_ChunkSize superblock\<rparr>)))) s))"

definition GetFsInfo :: "'db bbolt \<Rightarrow> ctxt \<Rightarrow> 'db service \<Rightarrow> FileSystemInfo result" where
  "GetFsInfo B ctx s =
     rbind (initialized s) (\<lambda>_.
     rbind (poll ctx 0) (\<lambda>_.
     svc_View (\<lambda>d.
       rbind (loadSuperblock B d) (\<lambda>superblock.
       rbind (poll ctx 1) (\<lambda>_.
       Inr \<lparr>fi_FsID = sb_FsID superblock, fi_MaxFileSize = sb_MaxFileSize superblock,
            fi_MaxFilenameSize = sb_MaxFilenameSize superblock, fi_ChunkSize = sb_ChunkSize superblock\<rparr>))) s))"

definition GetInode :: "'db bbolt \<Rightarrow> ctxt \<Rightarrow> string \<Rightarrow> 'db service \<Rightarrow> Inode result" where
  "GetInode B ctx inodeID s =
     rbind (initialized s) (\<lambda>_.
     rbind (poll ctx 0) (\<lambda>_.
     rbind (wrap ''encode inode id'' (encodeInodeKey inodeID)) (\<lambda>inodeKey.
     svc_View (\<lambda>d.
       rbind (need B [inodesBucket, chunkMapBucket] d) (\<lambda>_.
       rbind (loadStoredInode B inodeKey d) (\<lambda>storedInode.
       rbind (wrap ''load chunk list'' (loadChunkList B inodeKey d)) (\<lambda>chunkList.
       rbind (poll ctx 1) (\<lambda>_.
       Inr (storedInode\<lparr>i_ChunkList := chunkList\<rparr>)))))) s)))"

fun lookupParts :: "'db bbolt \<Rightarrow> ctxt \<Rightarrow> nat \<Rightarrow> 'db \<Rightarrow> string \<Rightarrow> string list \<Rightarrow> string result" where
  "lookupParts B ctx i d currentID [] = Inr currentID"
| "lookupParts B ctx i d currentID (part # parts) =
     (if part = [] \<or> part = ''.'' then lookupParts B ctx i d currentID parts
      else
        rbind (poll ctx i) (\<lambda>_.
        rbind (wrap ''encode inode id'' (encodeInodeKey currentID)) (\<lambda>currentKey.
        rbind (loadStoredInode B currentKey d) (\<lambda>inode.
        if i_Type inode \<noteq> TypeDirectory then Inl ErrNotDir
        else
          rbind (of_opt ErrNotFound (bb_Get B dentriesBucket (encodeDentryKey currentKey part) d)) (\<lambda>childKey.
          rbind (wrap ''decode child inode id for path'' (decodeInodeID (key_of childKey))) (\<lambda>childID.
          lookupParts B ctx (i + 1) d childID parts))))))"

definition LookupPath :: "'db bbolt \<Rightarrow> ctxt \<Rightarrow> string \<Rightarrow> 'db service \<Rightarrow> string result" where
  "LookupPath B ctx path s =
     rbind (initialized s) (\<lambda>_.
     rbind (poll ctx 0) (\<lambda>_.
     svc_View (\<lambda>d.
       rbind (loadSuperblock B d) (\<lambda>superblock.
       rbind (need B [inodesBucket, dentriesBucket] d) (\<lambda>_.
       if path = ''/'' then Inr (sb_RootInodeID superblock)
       else lookupParts B ctx 1 d (sb_RootInodeID superblock)
              (strings_Split (CHR ''/'') (strings_Trim (CHR ''/'') path))))) s))"

definition grantedBits :: "32 word \<Rightarrow> 32 word \<Rightarrow> Inode \<Rightarrow> 32 word" where
  "grantedBits uid gid inode =
     (if uid = i_OwnerUID inode then and (drop_bit 6 (i_Mode inode)) 7
      else if gid = i_OwnerGID inode then and (drop_bit 3 (i_Mode inode)) 7
      else and (i_Mode inode) 7)"

definition Access :: "'db bbolt \<Rightarrow> ctxt \<Rightarrow> string \<Rightarrow> 32 word \<Rightarrow> 32 word \<Rightarrow> 32 word \<Rightarrow> 'db service \<Rightarrow> unit result" where
  "Access B ctx inodeID uid gid accessMask s =
     rbind (GetInode B ctx inodeID s) (\<lambda>inode.
     if uid = 0 then Inr ()
     else if and (grantedBits uid gid inode) accessMask = accessMask then Inr ()
     else Inl (Errorf ''permission denied''))"

fun readDirPlusLoop :: "'db bbolt \<Rightarrow> ctxt \<Rightarrow> 'db service \<Rightarrow> DirEntry list \<Rightarrow> DirEntryPlus list result" where
  "readDirPlusLoop B ctx s [] = Inr []"
| "readDirPlusLoop B ctx s (entry # entries) =
     rbind (GetAttributes B ctx (de_InodeID entry) s) (\<lambda>attrs.
     rbind (readDirPlusLoop B (polled 2 ctx) s entries) (\<lambda>plusEntries.
     Inr (\<lparr>dp_Name = de_Name entry, dp_InodeID = de_InodeID entry, dp_Type = de_Type entry, dp_Inode = attrs\<rparr>
          # plusEntries)))"

definition ReadDirPlus ::
  "'db bbolt \<Rightarrow> ctxt \<Rightarrow> ctxt \<Rightarrow> string \<Rightarrow> int \<Rightarrow> int \<Rightarrow> 'db service \<Rightarrow> (DirEntryPlus list \<times> int \<times> bool) result" where
  "ReadDirPlus B ctx ctx' inodeID cookie maxEntries s =
     rbind (ReadDir B ctx inodeID cookie maxEntries s) (\<lambda>(entries, nextCookie, eof).
     rbind (readDirPlusLoop B ctx' s entries) (\<lambda>plusEntries.
     Inr (plusEntries, nextCookie, eof)))"

definition directoryIsEmpty :: "'db bbolt \<Rightarrow> ctxt \<Rightarrow> string \<Rightarrow> 'db service \<Rightarrow> bool result" where
  "directoryIsEmpty B ctx inodeID s =
     rbind (initialized s) (\<lambda>_.
     rbind (poll ctx 0) (\<lambda>_.
     rbind (wrap ''encode inode id'' (encodeInodeKey inodeID)) (\<lambda>inodeKey.
     svc_View (\<lambda>d.
       rbind (need B [dentriesBucket, inodesBucket] d) (\<lambda>_.
       rbind (loadStoredInode B inodeKey d) (\<lambda>inode.
       if i_Type inode \<noteq> TypeDirectory then Inl ErrNotDir
       else Inr (case bb_Cursor B dentriesBucket inodeKey d of
                   [] \<Rightarrow> True | (key, _) # _ \<Rightarrow> \<not> has_prefix key inodeKey)))) s)))"

definition GetChunkPlacement :: "'db bbolt \<Rightarrow> ctxt \<Rightarrow> string \<Rightarrow> 'db service \<Rightarrow> string list result" where
  "GetChunkPlacement B ctx chunkID s =
     rbind (initialized s) (\<lambda>_.
     rbind (poll ctx 0) (\<lambda>_.
     svc_View (\<lambda>d.
       if \<not> bb_Bucket B chunkPlacementsBkt d then Inl ErrNotFound
       else rbind (of_opt ErrNotFound (bb_Get B chunkPlacementsBkt chunkID d)) (\<lambda>placementBytes.
            wrap ''unmarshal chunk placement'' (json_Unmarshal_strings placementBytes))) s))"

definition GetIntentState :: "'db bbolt \<Rightarrow> ctxt \<Rightarrow> string \<Rightarrow> 'db service \<Rightarrow> IntentState result" where
  "GetIntentState B ctx txnID s =
     rbind (initialized s) (\<lambda>_.
     rbind (poll ctx 0) (\<lambda>_.
     svc_View (\<lambda>d.
       if \<not> bb_Bucket B chunkIntentsBkt d then Inr StateUnknown
       else case bb_Get B chunkIntentsBkt txnID d of
              None \<Rightarrow> Inr StateUnknown
            | Some intentBytes \<Rightarrow>
                rbind (wrap ''unmarshal chunk intent'' (json_Unmarshal_intent intentBytes)) (\<lambda>intent.
                Inr (toMetadataIntentState (ci_State intent)))) s))"

section \<open>Unreplicated updates\<close>

definition UpdateChunkPlacement ::
  "'db bbolt \<Rightarrow> ctxt \<Rightarrow> string \<Rightarrow> string list \<Rightarrow> 'db service \<Rightarrow> error option \<times> 'db service" where
  "UpdateChunkPlacement B ctx chunkID nodeIDs s =
     guarded (rbind (initialized s) (\<lambda>_. poll ctx 0)) s (\<lambda>_.
       svc_Update B (\<lambda>d.
         rbind (bb_Create B chunkPlacementsBkt d) (\<lambda>d.
         bb_Put B chunkPlacementsBkt chunkID (JsonStrings nodeIDs) d)) s)"

definition SetIntentState ::
  "'db bbolt \<Rightarrow> ctxt \<Rightarrow> int \<Rightarrow> string \<Rightarrow> IntentState \<Rightarrow> 'db service \<Rightarrow> error option \<times> 'db service" where
  "SetIntentState B ctx now txnID st s =
     guarded (rbind (initialized s) (\<lambda>_. poll ctx 0)) s (\<lambda>_.
       svc_Update B (\<lambda>d.
         rbind (bb_Create B chunkIntentsBkt d) (\<lambda>d.
         rbind (case bb_Get B chunkIntentsBkt txnID d of
                  None \<Rightarrow> Inr \<lparr>ci_TxnID = txnID, ci_ChunkID = [], ci_NodeIDs = [],
                               ci_State = toRaftIntentState st, ci_Timestamp = now\<rparr>
                | Some existing \<Rightarrow>
                    rbind (wrap ''unmarshal existing chunk intent'' (json_Unmarshal_intent existing)) (\<lambda>intent.
                    Inr (intent\<lparr>ci_State := toRaftIntentState st, ci_Timestamp := now\<rparr>))) (\<lambda>intent.
         bb_Put B chunkIntentsBkt txnID (JsonIntent intent) d))) s)"

section \<open>Replicated updates\<close>

type_synonym 'db replicate = "blob \<Rightarrow> 'db service \<Rightarrow> error option \<times> 'db service"

definition zeroOp :: "OpType \<Rightarrow> MetadataOperation" where
  "zeroOp t =
     \<lparr>op_Type = t, op_InodeID = [], op_ParentID = [], op_Name = [], op_FileType = TypeFile, op_Mode = 0,
      op_UID = 0, op_GID = 0, op_DstParentID = [], op_DstName = [], op_SetMode = None, op_SetUID = None,
      op_SetGID = None, op_SetATime = None, op_SetMTime = None, op_NewSize = None, op_NewChunkList = None,
      op_OpID = [], op_Timestamp = 0\<rparr>"

definition replicateOp ::
  "'db replicate \<Rightarrow> string \<Rightarrow> int \<Rightarrow> MetadataOperation \<Rightarrow> 'db service \<Rightarrow> error option \<times> 'db service" where
  "replicateOp rep opid now op s =
     (if \<not> replicator s then (Some (Errorf ''bolt metadata replicator is not configured''), s)
      else rep (json_Marshal_envelope
             \<lparr>env_Type = PayloadPosixMeta,
              env_PosixMeta = Some (op\<lparr>op_OpID := opid, op_Timestamp := now\<rparr>), env_ChunkIntent = None\<rparr>) s)"

text \<open>\<^verbatim>\<open>if err := s.replicateOp(...); err != nil { return ..., err }\<close>, and what follows it.\<close>

definition after :: "error option \<times> 's \<Rightarrow> ('s \<Rightarrow> 'a result \<times> 's) \<Rightarrow> 'a result \<times> 's" where
  "after r f = (case r of (Some e, s) \<Rightarrow> (Inl e, s) | (None, s) \<Rightarrow> f s)"

definition SetAttributes ::
  "'db bbolt \<Rightarrow> 'db replicate \<Rightarrow> ctxt \<Rightarrow> string \<Rightarrow> int \<Rightarrow> string \<Rightarrow> 32 word option \<Rightarrow> 32 word option
   \<Rightarrow> 32 word option \<Rightarrow> int option \<Rightarrow> int option \<Rightarrow> 'db service \<Rightarrow> Attributes result \<times> 'db service" where
  "SetAttributes B rep ctx opid now inodeID mode uid gid atime mtime s =
     (case GetAttributes B ctx inodeID s of
        Inl e \<Rightarrow> (Inl e, s)
      | Inr _ \<Rightarrow>
          after (replicateOp rep opid now ((zeroOp OpSetAttr)\<lparr>op_InodeID := inodeID, op_SetMode := mode, op_SetUID := uid,
                   op_SetGID := gid, op_SetATime := atime, op_SetMTime := mtime\<rparr>) s)
            (\<lambda>s'. (GetAttributes B (polled 2 ctx) inodeID s', s')))"

definition UpdateInode ::
  "'db bbolt \<Rightarrow> 'db replicate \<Rightarrow> ctxt \<Rightarrow> string \<Rightarrow> int \<Rightarrow> string \<Rightarrow> int \<Rightarrow> ChunkDescriptor list option \<Rightarrow> int
   \<Rightarrow> 'db service \<Rightarrow> error option \<times> 'db service" where
  "UpdateInode B rep ctx opid now inodeID newSize newChunkList mtime s =
     guarded (GetInode B ctx inodeID s) s (\<lambda>_.
       replicateOp rep opid now ((zeroOp OpUpdateInode)\<lparr>op_InodeID := inodeID, op_NewSize := Some newSize,
         op_NewChunkList := newChunkList, op_SetMTime := Some mtime\<rparr>) s)"

definition nextInodeID :: "int \<Rightarrow> 'db service \<Rightarrow> string \<times> 'db service" where
  "nextInodeID now s =
     (let c = (if inodeIDCounter s = 0 then uint64 now else inodeIDCounter s)
      in (FormatUint (inc64 c), s\<lparr>inodeIDCounter := inc64 c\<rparr>))"

text \<open>The checks \<^verbatim>\<open>Create\<close> and \<^verbatim>\<open>Mkdir\<close> share: the parent is a directory and the name is free.\<close>

definition createGuard :: "'db bbolt \<Rightarrow> ctxt \<Rightarrow> string \<Rightarrow> string \<Rightarrow> 'db service \<Rightarrow> unit result" where
  "createGuard B ctx parentInodeID name s =
     rbind (GetInode B ctx parentInodeID s) (\<lambda>parent.
     if i_Type parent \<noteq> TypeDirectory then Inl ErrNotDir
     else case Lookup B (polled 2 ctx) parentInodeID name s of
            Inr _ \<Rightarrow> Inl ErrAlreadyExists
          | Inl e \<Rightarrow> if e \<noteq> ErrNotFound then Inl e else Inr ())"

definition Create ::
  "'db bbolt \<Rightarrow> 'db replicate \<Rightarrow> ctxt \<Rightarrow> string \<Rightarrow> int \<Rightarrow> string \<Rightarrow> string \<Rightarrow> 32 word \<Rightarrow> 32 word \<Rightarrow> 32 word
   \<Rightarrow> 'db service \<Rightarrow> Inode result \<times> 'db service" where
  "Create B rep ctx opid now parentInodeID name mode uid gid s =
     (case createGuard B ctx parentInodeID name s of
        Inl e \<Rightarrow> (Inl e, s)
      | Inr _ \<Rightarrow>
          let (newID, s1) = nextInodeID now s
          in after (replicateOp rep opid now ((zeroOp OpCreate)\<lparr>op_InodeID := newID, op_ParentID := parentInodeID,
                      op_Name := name, op_FileType := TypeFile, op_Mode := mode, op_UID := uid, op_GID := gid\<rparr>) s1)
               (\<lambda>s'. (case GetInode B (polled 4 ctx) newID s' of
                        Inl e \<Rightarrow> Inl (if errors_Is e ErrNotFound then ErrAlreadyExists else e)
                      | Inr inode \<Rightarrow> Inr inode, s')))"

definition Mkdir ::
  "'db bbolt \<Rightarrow> 'db replicate \<Rightarrow> ctxt \<Rightarrow> string \<Rightarrow> int \<Rightarrow> string \<Rightarrow> string \<Rightarrow> 32 word \<Rightarrow> 32 word \<Rightarrow> 32 word
   \<Rightarrow> 'db service \<Rightarrow> Inode result \<times> 'db service" where
  "Mkdir B rep ctx opid now parentInodeID name mode uid gid s =
     (case createGuard B ctx parentInodeID name s of
        Inl e \<Rightarrow> (Inl e, s)
      | Inr _ \<Rightarrow>
          let (newID, s1) = nextInodeID now s
          in after (replicateOp rep opid now ((zeroOp OpCreate)\<lparr>op_InodeID := newID, op_ParentID := parentInodeID,
                      op_Name := name, op_FileType := TypeDirectory, op_Mode := mode, op_UID := uid, op_GID := gid\<rparr>) s1)
               (\<lambda>s'. (GetInode B (polled 4 ctx) newID s', s')))"

definition Remove ::
  "'db bbolt \<Rightarrow> 'db replicate \<Rightarrow> ctxt \<Rightarrow> string \<Rightarrow> int \<Rightarrow> string \<Rightarrow> string \<Rightarrow> 'db service \<Rightarrow> error option \<times> 'db service" where
  "Remove B rep ctx opid now parentInodeID name s =
     guarded (Lookup B ctx parentInodeID name s) s (\<lambda>_.
       replicateOp rep opid now ((zeroOp OpRemove)\<lparr>op_ParentID := parentInodeID, op_Name := name\<rparr>) s)"

definition Rmdir ::
  "'db bbolt \<Rightarrow> 'db replicate \<Rightarrow> ctxt \<Rightarrow> string \<Rightarrow> int \<Rightarrow> string \<Rightarrow> string \<Rightarrow> 'db service \<Rightarrow> error option \<times> 'db service" where
  "Rmdir B rep ctx opid now parentInodeID name s =
     guarded
       (rbind (Lookup B ctx parentInodeID name s) (\<lambda>childID.
        rbind (GetInode B (polled 2 ctx) childID s) (\<lambda>child.
        if i_Type child \<noteq> TypeDirectory then Inl ErrNotDir
        else rbind (directoryIsEmpty B (polled 4 ctx) childID s) (\<lambda>isEmpty.
             if \<not> isEmpty then Inl ErrNotEmpty else Inr ())))) s (\<lambda>_.
       replicateOp rep opid now ((zeroOp OpRemove)\<lparr>op_ParentID := parentInodeID, op_Name := name\<rparr>) s)"

definition Rename ::
  "'db bbolt \<Rightarrow> 'db replicate \<Rightarrow> ctxt \<Rightarrow> string \<Rightarrow> int \<Rightarrow> string \<Rightarrow> string \<Rightarrow> string \<Rightarrow> string
   \<Rightarrow> 'db service \<Rightarrow> error option \<times> 'db service" where
  "Rename B rep ctx opid now srcParentID srcName dstParentID dstName s =
     guarded
       (rbind (Lookup B ctx srcParentID srcName s) (\<lambda>_.
        rbind (GetInode B (polled 2 ctx) dstParentID s) (\<lambda>dstParent.
        if i_Type dstParent \<noteq> TypeDirectory then Inl ErrNotDir else Inr ()))) s (\<lambda>_.
       replicateOp rep opid now ((zeroOp OpRename)\<lparr>op_ParentID := srcParentID, op_Name := srcName,
         op_DstParentID := dstParentID, op_DstName := dstName\<rparr>) s)"

section \<open>Life cycle\<close>

fun createBuckets :: "'db bbolt \<Rightarrow> bytes list \<Rightarrow> 'db \<Rightarrow> 'db result" where
  "createBuckets B [] d = Inr d"
| "createBuckets B (b # bs) d = rbind (wrap ''ensure bucket'' (bb_Create B b d)) (createBuckets B bs)"

text \<open>\<^verbatim>\<open>bbolt.Open\<close> on the file at a path: a file that does not exist is created.\<close>

definition open_db :: "'db bbolt \<Rightarrow> string \<Rightarrow> fs \<Rightarrow> 'db result \<times> fs" where
  "open_db B path f =
     (case os_ReadFile path f of
        (Inr x, f') \<Rightarrow> (bb_Open B (Some x), f')
      | (Inl e, f') \<Rightarrow> (if e = OsNotExist then bb_Open B None else Inl e, f'))"

definition NewBoltMetadataService :: "'db bbolt \<Rightarrow> string \<Rightarrow> fs \<Rightarrow> 'db service result \<times> fs" where
  "NewBoltMetadataService B filePath f0 =
     (if filePath = [] then (Inl (Errorf ''bolt metadata service path cannot be empty''), f0)
      else case (if filepath_Dir filePath \<noteq> ''.'' then os_MkdirAll f0 else (None, f0)) of
        (Some e, f1) \<Rightarrow> (Inl (Wrap ''create bolt metadata directory'' e), f1)
      | (None, f1) \<Rightarrow>
          (case open_db B filePath f1 of
             (Inl e, f2) \<Rightarrow> (Inl (Wrap ''open bolt metadata db'' e), f2)
           | (Inr d, f2) \<Rightarrow>
               (case db_Update B (createBuckets B requiredBuckets) d of
                  (Some e, _) \<Rightarrow> (Inl e, f2)
                | (None, d') \<Rightarrow> (Inr \<lparr>db = Some d', isOpen = True, replicator = False, inodeIDCounter = 0\<rparr>, f2))))"

definition SetReplicator :: "bool \<Rightarrow> 'db service \<Rightarrow> 'db service" where
  "SetReplicator r s = s\<lparr>replicator := r\<rparr>"

definition Close :: "'db bbolt \<Rightarrow> 'db service \<Rightarrow> error option \<times> 'db service" where
  "Close B s =
     (case db s of
        None \<Rightarrow> (None, s)
      | Some d \<Rightarrow> if isOpen s then (bb_Close B d, s\<lparr>isOpen := False\<rparr>) else (None, s))"

definition rootInode :: "int \<Rightarrow> Inode" where
  "rootInode now =
     \<lparr>i_InodeID = ''0'', i_Type = TypeDirectory, i_LinkCount = 2, i_Mode = 493, i_OwnerUID = 0, i_OwnerGID = 0,
      i_AccessTime = now, i_ModifyTime = now, i_ChangeTime = now, i_FileSize = 0, i_VersionNumber = 0,
      i_Children = [], i_ChunkList = []\<rparr>"

definition initialSuperblock :: "int \<Rightarrow> Superblock" where
  "initialSuperblock now =
     \<lparr>sb_FsID = ''00000000-0000-0000-0000-000000000000'', sb_RootInodeID = ''0'', sb_ChunkSize = 8 * 1024 * 1024,
      sb_MaxFilenameSize = 255, sb_MaxFileSize = 2 ^ 40, sb_CreatedAt = now\<rparr>"

definition recoverTx :: "'db bbolt \<Rightarrow> int \<Rightarrow> bytes \<Rightarrow> 'db \<Rightarrow> 'db result" where
  "recoverTx B now rootKey d =
     rbind (need B [metadataStateBucket, superblockBucket, inodesBucket] d) (\<lambda>_.
     rbind (wrap ''store superblock'' (bb_Put B superblockBucket superblockKey (GobSuperblock (initialSuperblock now)) d)) (\<lambda>d.
     rbind (wrap ''store root inode'' (put_inode B rootKey (rootInode now) d)) (\<lambda>d.
     wrap ''initialize consistent index''
       (bb_Put B metadataStateBucket consistentIndexKey (Raw (encodeUint64LE 0)) d))))"

definition Recover :: "'db bbolt \<Rightarrow> int \<Rightarrow> 'db service \<Rightarrow> nat result \<times> 'db service" where
  "Recover B now s =
     (case rbind (initialized s) (\<lambda>_.
            svc_View (\<lambda>d. if \<not> bb_Bucket B metadataStateBucket d then Inl no_schema
                         else Inr (bb_Get B metadataStateBucket consistentIndexKey d)) s) of
        Inl e \<Rightarrow> (Inl e, s)
      | Inr (Some consistentIndex) \<Rightarrow> (decodeIndex consistentIndex, s)
      | Inr None \<Rightarrow>
          (case wrap ''encode root inode id'' (encodeInodeKey ''0'') of
             Inl e \<Rightarrow> (Inl e, s)
           | Inr rootKey \<Rightarrow> after (svc_Update B (recoverTx B now rootKey) s) (\<lambda>s'. (Inr 0, s'))))"

text \<open>\<open>rstart\<close> and \<open>rstop\<close> are the replicator's \<^verbatim>\<open>Start\<close> (which applies the committed log) and \<^verbatim>\<open>Stop\<close>.\<close>

definition Start ::
  "'db bbolt \<Rightarrow> ('db service \<Rightarrow> error option \<times> 'db service) \<Rightarrow> int \<Rightarrow> 'db service \<Rightarrow> error option \<times> 'db service" where
  "Start B rstart now s =
     (if db s = None then (Some not_initialized, s)
      else case Recover B now s of
             (Inl e, s1) \<Rightarrow> (Some e, s1)
           | (Inr _, s1) \<Rightarrow>
               if \<not> replicator s1 then (Some (Errorf ''bolt metadata replicator is not configured''), s1)
               else rstart s1)"

definition Stop :: "'db bbolt \<Rightarrow> error option \<Rightarrow> 'db service \<Rightarrow> error option \<times> 'db service" where
  "Stop B rstop s =
     (let repErr = (if replicator s then rstop else None); (dbErr, s') = Close B s
      in (if repErr \<noteq> None then repErr else dbErr, s'))"

definition SerializeSnapshot :: "'db bbolt \<Rightarrow> 'db service \<Rightarrow> blob result" where
  "SerializeSnapshot B s =
     rbind (initialized s) (\<lambda>_. wrap ''failed to serialize snapshot'' (svc_View (bb_WriteTo B) s))"

definition swapDb :: "'db bbolt \<Rightarrow> string \<Rightarrow> 'db service \<Rightarrow> fs \<Rightarrow> error option \<times> 'db service \<times> fs" where
  "swapDb B filePath s f =
     (case Close B s of
        (Some e, s1) \<Rightarrow> (Some (Wrap ''failed to close current db during snapshot restore'' e), s1, f)
      | (None, s1) \<Rightarrow>
          let s2 = s1\<lparr>db := None\<rparr>
          in case os_Rename (tmpPath filePath) filePath f of
               (Some e, f1) \<Rightarrow> (Some (Wrap ''failed to atomic rename snapshot file'' e), s2, f1)
             | (None, f1) \<Rightarrow>
                 (case open_db B filePath f1 of
                    (Inl e, f2) \<Rightarrow> (Some (Wrap ''failed to reopen bolt metadata db'' e), s2, f2)
                  | (Inr d, f2) \<Rightarrow> (None, s2\<lparr>db := Some d, isOpen := True\<rparr>, f2)))"

definition RestoreSnapshot ::
  "'db bbolt \<Rightarrow> string \<Rightarrow> blob \<Rightarrow> 'db service \<Rightarrow> fs \<Rightarrow> error option \<times> 'db service \<times> fs" where
  "RestoreSnapshot B filePath data s f =
     (if db s = None then (Some not_initialized, s, f)
      else case os_WriteFile (tmpPath filePath) data f of
             (Some e, f1) \<Rightarrow> (Some (Wrap ''failed to write snapshot to temp file'' e), s, f1)
           | (None, f1) \<Rightarrow>
               let (e, s2, f2) = swapDb B filePath s f1 in (e, s2, snd (os_Remove (tmpPath filePath) f2)))"

end
