(* ===== verification/BoltSpec.thy ===== *)
theory BoltSpec
  imports BoltMeta
begin

text \<open>
  The metadata the database stands for, and the refinement of it by the byte-level transactions of
  \<open>BoltMeta\<close>.  The abstract state (\<open>afs\<close>) has inodes and directory entries by inode number, a chunk
  list per inode, the chunk intents and placements, the superblock and the consistent index;
  \<open>contents\<close> is the database that represents it, key by key, and \<open>repr B d a\<close> says that \<open>d\<close> does.
  The abstract operations (\<open>spec_...\<close>) are what the commands mean.  \<open>ApplyTransaction_sim\<close> shows that
  applying any command refines them: same error or same new state.
\<close>

section \<open>Abstract state\<close>

record afs =
  a_inodes :: "nat \<Rightarrow> Inode option"
  a_dents :: "nat \<Rightarrow> string \<Rightarrow> nat option"
  a_chunks :: "nat \<Rightarrow> ChunkDescriptor list"
  a_intents :: "string \<Rightarrow> ChunkIntentOperation option"
  a_places :: "string \<Rightarrow> string list option"
  a_super :: "Superblock option"
  a_index :: "nat option"

definition contents :: "afs \<Rightarrow> bytes \<Rightarrow> bytes \<Rightarrow> blob option" where
  "contents a b k =
     (if b = inodesBucket then
        (if length k = 8 then map_option GobInode (a_inodes a (BigEndian_Uint64 k)) else None)
      else if b = dentriesBucket then
        (if 8 \<le> length k then map_option (\<lambda>c. Raw (encodeUint64BE c)) (a_dents a (BigEndian_Uint64 k) (drop 8 k)) else None)
      else if b = chunkMapBucket then
        (let l = a_chunks a (BigEndian_Uint64 k); i = BigEndian_Uint64 (drop 8 k)
         in if length k = 16 \<and> i < length l then Some (GobChunkDescriptor (l ! i)) else None)
      else if b = chunkIntentsBkt then map_option JsonIntent (a_intents a k)
      else if b = chunkPlacementsBkt then map_option JsonStrings (a_places a k)
      else if b = superblockBucket then (if k = superblockKey then map_option GobSuperblock (a_super a) else None)
      else if b = metadataStateBucket then
        (if k = consistentIndexKey then map_option (\<lambda>i. Raw (encodeUint64LE i)) (a_index a) else None)
      else None)"

definition wf_afs :: "afs \<Rightarrow> bool" where
  "wf_afs a \<longleftrightarrow>
     (\<forall>n i. a_inodes a n = Some i \<longrightarrow> n < 2 ^ 64 \<and> ParseUint (i_InodeID i) = Inr n \<and> storableInode i = i)
   \<and> (\<forall>p x c. a_dents a p x = Some c \<longrightarrow> p < 2 ^ 64 \<and> c < 2 ^ 64)
   \<and> (\<forall>n. length (a_chunks a n) < 2 ^ 64) \<and> (\<forall>n. 2 ^ 64 \<le> n \<longrightarrow> a_chunks a n = [])
   \<and> (\<forall>i. a_index a = Some i \<longrightarrow> i < 2 ^ 64)"

definition repr :: "'db bbolt \<Rightarrow> 'db \<Rightarrow> afs \<Rightarrow> bool" where
  "repr B d a \<longleftrightarrow> wf_afs a \<and> (\<forall>b \<in> set requiredBuckets. bb_Bucket B b d \<and> (\<forall>k. bb_Get B b k d = contents a b k))"

section \<open>Abstract operations\<close>

definition inode_number :: "string \<Rightarrow> nat result" where
  "inode_number i = wrap ''inode id must be a base-10 uint64'' (ParseUint i)"

definition spec_create :: "MetadataOperation \<Rightarrow> nat \<Rightarrow> afs \<Rightarrow> afs result" where
  "spec_create op ix a =
     rbind (wrap ''encode parent inode id'' (inode_number (op_ParentID op))) (\<lambda>p.
     rbind (wrap ''encode child inode id'' (inode_number (op_InodeID op))) (\<lambda>c.
     rbind (of_opt ErrNotFound (a_inodes a p)) (\<lambda>parent.
     if i_Type parent \<noteq> TypeDirectory then Inl ErrNotFound
     else if a_dents a p (op_Name op) \<noteq> None then Inl ErrAlreadyExists
     else
       let parent' = (if op_FileType op = TypeDirectory
                      then parent\<lparr>i_LinkCount := int64 (i_LinkCount parent + 1)\<rparr> else parent)
       in Inr (a\<lparr>a_inodes := (a_inodes a)(c \<mapsto> newInode op, p \<mapsto> touched (op_Timestamp op) parent'),
                 a_dents := (a_dents a)(p := (a_dents a p)(op_Name op \<mapsto> c)),
                 a_index := Some ix\<rparr>))))"

definition spec_rename :: "MetadataOperation \<Rightarrow> nat \<Rightarrow> afs \<Rightarrow> afs result" where
  "spec_rename op ix a =
     rbind (wrap ''encode source parent inode id'' (inode_number (op_ParentID op))) (\<lambda>p.
     rbind (wrap ''encode destination parent inode id'' (inode_number (op_DstParentID op))) (\<lambda>q.
     rbind (of_opt ErrNotFound (a_inodes a p)) (\<lambda>srcParent.
     rbind (of_opt ErrNotFound (a_inodes a q)) (\<lambda>dstParent.
     rbind (of_opt ErrNotFound (a_dents a p (op_Name op))) (\<lambda>c.
       let dents = (a_dents a)(p := (a_dents a p)(op_Name op := None));
           inodes = (case dents q (op_DstName op) of None \<Rightarrow> a_inodes a | Some o' \<Rightarrow> (a_inodes a)(o' := None))
       in Inr (a\<lparr>a_inodes := inodes(p \<mapsto> touched (op_Timestamp op) srcParent, q \<mapsto> touched (op_Timestamp op) dstParent),
                 a_dents := dents(q := (dents q)(op_DstName op \<mapsto> c)),
                 a_index := Some ix\<rparr>))))))"

definition spec_remove :: "MetadataOperation \<Rightarrow> nat \<Rightarrow> afs \<Rightarrow> afs result" where
  "spec_remove op ix a =
     rbind (wrap ''encode parent inode id'' (inode_number (op_ParentID op))) (\<lambda>p.
     rbind (of_opt ErrNotFound (a_dents a p (op_Name op))) (\<lambda>c.
     rbind (of_opt ErrNotFound (a_inodes a p)) (\<lambda>parent.
     rbind (of_opt ErrNotFound (a_inodes a c)) (\<lambda>child.
       let parent' = (if i_Type child = TypeDirectory
                      then parent\<lparr>i_LinkCount := int64 (i_LinkCount parent - 1)\<rparr> else parent)
       in Inr (a\<lparr>a_inodes := ((a_inodes a)(c := None))(p \<mapsto> touched (op_Timestamp op) parent'),
                 a_dents := (a_dents a)(p := (a_dents a p)(op_Name op := None)),
                 a_index := Some ix\<rparr>)))))"

definition spec_setattr :: "MetadataOperation \<Rightarrow> nat \<Rightarrow> afs \<Rightarrow> afs result" where
  "spec_setattr op ix a =
     rbind (wrap ''encode inode id'' (inode_number (op_InodeID op))) (\<lambda>n.
     rbind (of_opt ErrNotFound (a_inodes a n)) (\<lambda>inode.
     Inr (a\<lparr>a_inodes := (a_inodes a)(n \<mapsto> setAttrs op inode), a_index := Some ix\<rparr>)))"

definition spec_chunks :: "MetadataOperation \<Rightarrow> nat \<Rightarrow> afs \<Rightarrow> afs" where
  "spec_chunks op n a =
     (case op_NewChunkList op of None \<Rightarrow> a | Some l \<Rightarrow> a\<lparr>a_chunks := (a_chunks a)(n := l)\<rparr>)"

definition spec_update :: "MetadataOperation \<Rightarrow> nat \<Rightarrow> afs \<Rightarrow> afs result" where
  "spec_update op ix a =
     rbind (wrap ''encode inode id'' (inode_number (op_InodeID op))) (\<lambda>n.
     rbind (of_opt ErrNotFound (a_inodes a n)) (\<lambda>inode.
     Inr ((spec_chunks op n (a\<lparr>a_inodes := (a_inodes a)(n \<mapsto> updateFields op inode)\<rparr>))\<lparr>a_index := Some ix\<rparr>)))"

definition spec_intent_meta :: "int \<Rightarrow> MetadataOperation \<Rightarrow> afs \<Rightarrow> afs result" where
  "spec_intent_meta now op a =
     rbind (wrap ''encode inode id'' (inode_number (op_InodeID op))) (\<lambda>n.
     rbind (of_opt ErrNotFound (a_inodes a n)) (\<lambda>inode.
     Inr ((spec_chunks op n a)\<lparr>a_inodes := (a_inodes a)(n \<mapsto> commitFields now op inode)\<rparr>)))"

definition spec_intent ::
  "int \<Rightarrow> ChunkIntentOperation \<Rightarrow> MetadataOperation option \<Rightarrow> nat \<Rightarrow> afs \<Rightarrow> afs result" where
  "spec_intent now intent metaUpdate ix a =
     (let a1 = a\<lparr>a_intents := (a_intents a)(ci_TxnID intent \<mapsto> intent),
                 a_places := (a_places a)(ci_ChunkID intent \<mapsto> ci_NodeIDs intent)\<rparr>
      in rbind (case metaUpdate of
                  None \<Rightarrow> Inr a1
                | Some op \<Rightarrow> if op_Type op = OpUpdateInode then spec_intent_meta now op a1 else Inr a1) (\<lambda>a2.
         Inr (a2\<lparr>a_index := Some ix\<rparr>)))"

definition next_index :: "afs \<Rightarrow> nat" where
  "next_index a = inc64 (case a_index a of None \<Rightarrow> 0 | Some i \<Rightarrow> i)"

definition spec_meta :: "MetadataOperation \<Rightarrow> nat \<Rightarrow> afs \<Rightarrow> afs result" where
  "spec_meta op ix a =
     (case op_Type op of
        OpCreate \<Rightarrow> spec_create op ix a
      | OpRemove \<Rightarrow> spec_remove op ix a
      | OpRename \<Rightarrow> spec_rename op ix a
      | OpSetAttr \<Rightarrow> spec_setattr op ix a
      | OpUpdateInode \<Rightarrow> spec_update op ix a
      | OpOther _ \<Rightarrow> Inl (Errorf ''unknown operation type''))"

definition spec_apply :: "int \<Rightarrow> blob \<Rightarrow> afs \<Rightarrow> afs result" where
  "spec_apply now data a =
     rbind (json_Unmarshal_RaftCommandEnvelope data) (\<lambda>envelope.
     case env_Type envelope of
       PayloadPosixMeta \<Rightarrow>
         rbind (of_opt (Errorf ''missing metadata operation in raft envelope'') (env_PosixMeta envelope)) (\<lambda>op.
         spec_meta op (next_index a) a)
     | PayloadChunkIntent \<Rightarrow>
         rbind (of_opt (Errorf ''missing chunk intent operation in raft envelope'') (env_ChunkIntent envelope)) (\<lambda>intent.
         spec_intent now intent (env_PosixMeta envelope) (next_index a) a)
     | PayloadOther _ \<Rightarrow> Inl (Errorf ''unknown envelope type''))"

section \<open>Facts on buckets, keys and contents\<close>

lemma bucket_neq [simp]:
  "inodesBucket \<noteq> dentriesBucket" "inodesBucket \<noteq> chunkMapBucket" "inodesBucket \<noteq> chunkIntentsBkt"
  "inodesBucket \<noteq> chunkPlacementsBkt" "inodesBucket \<noteq> superblockBucket" "inodesBucket \<noteq> metadataStateBucket"
  "dentriesBucket \<noteq> inodesBucket" "dentriesBucket \<noteq> chunkMapBucket" "dentriesBucket \<noteq> chunkIntentsBkt"
  "dentriesBucket \<noteq> chunkPlacementsBkt" "dentriesBucket \<noteq> superblockBucket" "dentriesBucket \<noteq> metadataStateBucket"
  "chunkMapBucket \<noteq> inodesBucket" "chunkMapBucket \<noteq> dentriesBucket" "chunkMapBucket \<noteq> chunkIntentsBkt"
  "chunkMapBucket \<noteq> chunkPlacementsBkt" "chunkMapBucket \<noteq> superblockBucket" "chunkMapBucket \<noteq> metadataStateBucket"
  "chunkIntentsBkt \<noteq> inodesBucket" "chunkIntentsBkt \<noteq> dentriesBucket" "chunkIntentsBkt \<noteq> chunkMapBucket"
  "chunkIntentsBkt \<noteq> chunkPlacementsBkt" "chunkIntentsBkt \<noteq> superblockBucket" "chunkIntentsBkt \<noteq> metadataStateBucket"
  "chunkPlacementsBkt \<noteq> inodesBucket" "chunkPlacementsBkt \<noteq> dentriesBucket" "chunkPlacementsBkt \<noteq> chunkMapBucket"
  "chunkPlacementsBkt \<noteq> chunkIntentsBkt" "chunkPlacementsBkt \<noteq> superblockBucket" "chunkPlacementsBkt \<noteq> metadataStateBucket"
  "superblockBucket \<noteq> inodesBucket" "superblockBucket \<noteq> dentriesBucket" "superblockBucket \<noteq> chunkMapBucket"
  "superblockBucket \<noteq> chunkIntentsBkt" "superblockBucket \<noteq> chunkPlacementsBkt" "superblockBucket \<noteq> metadataStateBucket"
  "metadataStateBucket \<noteq> inodesBucket" "metadataStateBucket \<noteq> dentriesBucket" "metadataStateBucket \<noteq> chunkMapBucket"
  "metadataStateBucket \<noteq> chunkIntentsBkt" "metadataStateBucket \<noteq> chunkPlacementsBkt" "metadataStateBucket \<noteq> superblockBucket"
  by (simp_all add: inodesBucket_def dentriesBucket_def chunkMapBucket_def chunkIntentsBkt_def
      chunkPlacementsBkt_def superblockBucket_def metadataStateBucket_def)

lemma requiredBuckets_set [simp]:
  "set requiredBuckets = {metadataStateBucket, superblockBucket, inodesBucket, dentriesBucket,
     chunkMapBucket, chunkPlacementsBkt, chunkIntentsBkt}"
  by (simp add: requiredBuckets_def)

lemma requiredBuckets_ok: "b \<in> set requiredBuckets \<Longrightarrow> b \<noteq> [] \<and> length b \<le> MaxKeySize"
proof -
  assume "b \<in> set requiredBuckets"
  then have "b \<noteq> []" "length b \<le> 16"
    by (auto simp: inodesBucket_def dentriesBucket_def chunkMapBucket_def chunkIntentsBkt_def
        chunkPlacementsBkt_def superblockBucket_def metadataStateBucket_def)
  then show ?thesis by (simp add: MaxKeySize_def)
qed

text \<open>The contents of each bucket.\<close>

lemma contents_simps:
  "contents a inodesBucket k =
     (if length k = 8 then map_option GobInode (a_inodes a (BigEndian_Uint64 k)) else None)"
  "contents a dentriesBucket k =
     (if 8 \<le> length k then map_option (\<lambda>c. Raw (encodeUint64BE c)) (a_dents a (BigEndian_Uint64 k) (drop 8 k)) else None)"
  "contents a chunkMapBucket k =
     (let l = a_chunks a (BigEndian_Uint64 k); i = BigEndian_Uint64 (drop 8 k)
      in if length k = 16 \<and> i < length l then Some (GobChunkDescriptor (l ! i)) else None)"
  "contents a chunkIntentsBkt k = map_option JsonIntent (a_intents a k)"
  "contents a chunkPlacementsBkt k = map_option JsonStrings (a_places a k)"
  "contents a superblockBucket k = (if k = superblockKey then map_option GobSuperblock (a_super a) else None)"
  "contents a metadataStateBucket k =
     (if k = consistentIndexKey then map_option (\<lambda>i. Raw (encodeUint64LE i)) (a_index a) else None)"
  by (simp_all add: contents_def)

lemma key8_eq_iff: "n < 2 ^ 64 \<Longrightarrow> k = encodeUint64BE n \<longleftrightarrow> length k = 8 \<and> BigEndian_Uint64 k = n"
  using encode_BigEndian by auto

lemma BigEndian_append [simp]: "n < 2 ^ 64 \<Longrightarrow> BigEndian_Uint64 (encodeUint64BE n @ x) = n"
  using BigEndian_encode [of n] by (simp add: BigEndian_Uint64_def)

lemma dentry_key_iff:
  "n < 2 ^ 64 \<Longrightarrow> k = encodeDentryKey (encodeUint64BE n) x \<longleftrightarrow> 8 \<le> length k \<and> BigEndian_Uint64 k = n \<and> drop 8 k = x"
proof
  assume n: "n < 2 ^ 64" and r: "8 \<le> length k \<and> BigEndian_Uint64 k = n \<and> drop 8 k = x"
  then have "take 8 k = encodeUint64BE n"
    using encode_BigEndian [of "take 8 k"] by (simp add: BigEndian_Uint64_def)
  with r show "k = encodeDentryKey (encodeUint64BE n) x" by (metis append_take_drop_id encodeDentryKey_def)
qed (auto simp: encodeDentryKey_def)

lemma encodeInodeKey_number:
  "encodeInodeKey i = rbind (inode_number i) (\<lambda>n. Inr (encodeUint64BE n))"
  by (simp add: encodeInodeKey_def inode_number_def)

lemma inode_number_bound: "inode_number i = Inr n \<Longrightarrow> n < 2 ^ 64"
  unfolding inode_number_def wrap_Inr_iff by (rule ParseUint_bound)

text \<open>Inodes as they are stored: without children and chunk list.\<close>

lemma storable_simps [simp]:
  "storableInode (newInode op) = newInode op"
  "storableInode (touched t i) = touched t (storableInode i)"
  "storableInode (setAttrs op i) = setAttrs op (storableInode i)"
  "storableInode (updateFields op i) = updateFields op (storableInode i)"
  "storableInode (commitFields now op i) = commitFields now op (storableInode i)"
  "storableInode (i\<lparr>i_LinkCount := c\<rparr>) = (storableInode i)\<lparr>i_LinkCount := c\<rparr>"
  by (simp_all add: storableInode_def newInode_def touched_def setAttrs_def updateFields_def commitFields_def
      Let_def split: option.split)

lemma InodeID_simps [simp]:
  "i_InodeID (touched t i) = i_InodeID i" "i_InodeID (setAttrs op i) = i_InodeID i"
  "i_InodeID (updateFields op i) = i_InodeID i" "i_InodeID (commitFields now op i) = i_InodeID i"
  "i_InodeID (newInode op) = op_InodeID op"
  by (simp_all add: newInode_def touched_def setAttrs_def updateFields_def commitFields_def Let_def split: option.split)

text \<open>An inode that may be stored under number \<open>n\<close>.\<close>

definition stored_as :: "nat \<Rightarrow> Inode \<Rightarrow> bool" where
  "stored_as n i \<longleftrightarrow> n < 2 ^ 64 \<and> ParseUint (i_InodeID i) = Inr n \<and> storableInode i = i"

lemma stored_as_simps [simp]:
  "stored_as n i \<Longrightarrow> stored_as n (touched t i)" "stored_as n i \<Longrightarrow> stored_as n (setAttrs op i)"
  "stored_as n i \<Longrightarrow> stored_as n (updateFields op i)" "stored_as n i \<Longrightarrow> stored_as n (commitFields now op i)"
  "stored_as n i \<Longrightarrow> stored_as n (i\<lparr>i_LinkCount := c\<rparr>)"
  by (simp_all add: stored_as_def)

lemma stored_as_new: "inode_number (op_InodeID op) = Inr n \<Longrightarrow> stored_as n (newInode op)"
  using inode_number_bound [of "op_InodeID op" n] by (simp add: stored_as_def inode_number_def)

lemma wf_afs_inode: "wf_afs a \<Longrightarrow> a_inodes a n = Some i \<Longrightarrow> stored_as n i"
  by (simp add: wf_afs_def stored_as_def)

section \<open>Reading a represented state\<close>

lemma repr_wf: "repr B d a \<Longrightarrow> wf_afs a"
  by (simp add: repr_def)

lemma reprI:
  assumes "wf_afs a"
    and "\<And>b. b \<in> set requiredBuckets \<Longrightarrow> bb_Bucket B b d \<and> (\<forall>k. bb_Get B b k d = contents a b k)"
  shows "repr B d a"
  using assms unfolding repr_def by blast

lemma repr_buckets [simp]:
  assumes "repr B d a"
  shows "bb_Bucket B inodesBucket d" "bb_Bucket B dentriesBucket d" "bb_Bucket B chunkMapBucket d"
    "bb_Bucket B chunkIntentsBkt d" "bb_Bucket B chunkPlacementsBkt d" "bb_Bucket B superblockBucket d"
    "bb_Bucket B metadataStateBucket d"
  using assms by (simp_all add: repr_def)

lemma repr_get:
  assumes "repr B d a"
  shows "bb_Get B inodesBucket k d = contents a inodesBucket k"
    "bb_Get B dentriesBucket k d = contents a dentriesBucket k"
    "bb_Get B chunkMapBucket k d = contents a chunkMapBucket k"
    "bb_Get B chunkIntentsBkt k d = contents a chunkIntentsBkt k"
    "bb_Get B chunkPlacementsBkt k d = contents a chunkPlacementsBkt k"
    "bb_Get B superblockBucket k d = contents a superblockBucket k"
    "bb_Get B metadataStateBucket k d = contents a metadataStateBucket k"
  using assms unfolding repr_def requiredBuckets_set by blast+

lemma get_inode [simp]:
  "repr B d a \<Longrightarrow> n < 2 ^ 64 \<Longrightarrow> bb_Get B inodesBucket (encodeUint64BE n) d = map_option GobInode (a_inodes a n)"
  by (simp add: repr_get contents_simps)

lemma get_dentry [simp]:
  "repr B d a \<Longrightarrow> n < 2 ^ 64 \<Longrightarrow> bb_Get B dentriesBucket (encodeDentryKey (encodeUint64BE n) x) d
     = map_option (\<lambda>c. Raw (encodeUint64BE c)) (a_dents a n x)"
  by (simp add: repr_get contents_simps encodeDentryKey_def)

lemma load_inode [simp]:
  "repr B d a \<Longrightarrow> n < 2 ^ 64 \<Longrightarrow> loadStoredInode B (encodeUint64BE n) d = of_opt ErrNotFound (a_inodes a n)"
  by (cases "a_inodes a n") (simp_all add: loadStoredInode_def)

lemma need_ok [simp]:
  assumes "repr B d a" and "set bs \<subseteq> set requiredBuckets"
  shows "need B bs d = Inr ()"
proof -
  have "\<forall>b\<in>set bs. bb_Bucket B b d" using assms unfolding repr_def by blast
  then show ?thesis by (simp add: need_def list_all_iff)
qed

section \<open>Changing a represented state\<close>

lemma contents_update_inode:
  "n < 2 ^ 64 \<Longrightarrow> contents (a\<lparr>a_inodes := (a_inodes a)(n := v)\<rparr>) b k
     = (if b = inodesBucket \<and> k = encodeUint64BE n then map_option GobInode v else contents a b k)"
  by (auto simp: contents_def key8_eq_iff)

lemma contents_update_dent:
  "n < 2 ^ 64 \<Longrightarrow> contents (a\<lparr>a_dents := (a_dents a)(n := (a_dents a n)(x := v))\<rparr>) b k
     = (if b = dentriesBucket \<and> k = encodeDentryKey (encodeUint64BE n) x
        then map_option (\<lambda>c. Raw (encodeUint64BE c)) v else contents a b k)"
  by (auto simp: contents_def dentry_key_iff)

lemma contents_update_index:
  "contents (a\<lparr>a_index := Some i\<rparr>) b k
     = (if b = metadataStateBucket \<and> k = consistentIndexKey then Some (Raw (encodeUint64LE i)) else contents a b k)"
  by (auto simp: contents_def)

lemma contents_update_intent:
  "contents (a\<lparr>a_intents := (a_intents a)(t \<mapsto> x)\<rparr>) b k
     = (if b = chunkIntentsBkt \<and> k = t then Some (JsonIntent x) else contents a b k)"
  by (auto simp: contents_def)

lemma contents_update_place:
  "contents (a\<lparr>a_places := (a_places a)(c \<mapsto> x)\<rparr>) b k
     = (if b = chunkPlacementsBkt \<and> k = c then Some (JsonStrings x) else contents a b k)"
  by (auto simp: contents_def)

lemma chunk_key_parts:
  assumes "n < 2 ^ 64" and "length k = 16"
  shows "take 8 k = encodeUint64BE n \<longleftrightarrow> BigEndian_Uint64 k = n"
  using key8_eq_iff [OF assms(1), of "take 8 k"] assms(2) by (simp add: BigEndian_Uint64_def)

lemma contents_update_chunks:
  assumes "n < 2 ^ 64"
  shows "contents (a\<lparr>a_chunks := (a_chunks a)(n := l)\<rparr>) b k
     = (if b = chunkMapBucket \<and> has_prefix k (encodeUint64BE n)
        then (if length k = 16 \<and> BigEndian_Uint64 (drop 8 k) < length l
              then Some (GobChunkDescriptor (l ! BigEndian_Uint64 (drop 8 k))) else None)
        else contents a b k)"
proof (cases "b = chunkMapBucket \<and> length k = 16")
  case True
  then show ?thesis using chunk_key_parts [OF assms, of k]
    by (auto simp: contents_simps has_prefix_def)
qed (auto simp: contents_def)

text \<open>
  The simulation: the transaction's result stands for the abstract one.  When \<open>full\<close> does not hold,
  the store may also refuse (a key or a value that is too large).
\<close>

definition sim :: "'db bbolt \<Rightarrow> bool \<Rightarrow> 'db result \<Rightarrow> afs result \<Rightarrow> bool" where
  "sim B full m n \<longleftrightarrow> (case m of Inl e \<Rightarrow> n = Inl e \<or> \<not> full | Inr d \<Rightarrow> \<exists>a. n = Inr a \<and> repr B d a)"

lemma sim_Inl [simp]: "sim B full (Inl e) (Inl e)"
  by (simp add: sim_def)

lemma sim_InrI: "repr B d a \<Longrightarrow> sim B full (Inr d) (Inr a)"
  by (simp add: sim_def)

lemma sim_wrap: "sim B full m (Inr a) \<Longrightarrow> sim B full (wrap s m) (Inr a)"
  by (cases m) (auto simp: sim_def)

lemma sim_rbind:
  assumes "sim B full m (Inr a)" and "\<And>d. repr B d a \<Longrightarrow> sim B full (f d) n"
  shows "sim B full (rbind m f) n"
  using assms by (cases m) (auto simp: sim_def)

lemma sim_rbind_wrap:
  assumes "sim B full m (Inr a)" and "\<And>d. repr B d a \<Longrightarrow> sim B full (f d) n"
  shows "sim B full (rbind (wrap s m) f) n"
  by (rule sim_rbind [OF sim_wrap [OF assms(1)] assms(2)])

lemma sim_rbind2:
  assumes "sim B full m k" and "\<And>d a. repr B d a \<Longrightarrow> k = Inr a \<Longrightarrow> sim B full (f d) (g a)"
  shows "sim B full (rbind m f) (rbind k g)"
  using assms by (cases m; cases k) (auto simp: sim_def)

text \<open>Keys and values the store takes.\<close>

definition fits :: "'db bbolt \<Rightarrow> bytes \<Rightarrow> bool" where
  "fits B k \<longleftrightarrow> k \<noteq> [] \<and> length k \<le> MaxKeySize \<and> (\<forall>v. \<not> bb_TooLarge B v)"

definition roomy :: "'db bbolt \<Rightarrow> bool" where
  "roomy B \<longleftrightarrow> (\<forall>v. \<not> bb_TooLarge B v)"

lemma fits_keys:
  "fits B (encodeUint64BE n) \<longleftrightarrow> roomy B"
  "fits B (encodeDentryKey (encodeUint64BE n) x) \<longleftrightarrow> length x + 8 \<le> MaxKeySize \<and> roomy B"
  "fits B consistentIndexKey \<longleftrightarrow> roomy B"
  "fits B (encodeUint64BE n @ encodeUint64BE i) \<longleftrightarrow> roomy B"
proof -
  have "encodeUint64BE n \<noteq> []" using length_encodeUint64BE [of n] by (metis list.size(3) zero_neq_numeral)
  then show "fits B (encodeUint64BE n) \<longleftrightarrow> roomy B"
    "fits B (encodeDentryKey (encodeUint64BE n) x) \<longleftrightarrow> length x + 8 \<le> MaxKeySize \<and> roomy B"
    "fits B consistentIndexKey \<longleftrightarrow> roomy B"
    "fits B (encodeUint64BE n @ encodeUint64BE i) \<longleftrightarrow> roomy B"
    by (auto simp: fits_def roomy_def encodeDentryKey_def consistentIndexKey_def MaxKeySize_def)
qed

lemma wf_afs_updates:
  assumes "wf_afs a"
  shows "stored_as n i \<Longrightarrow> wf_afs (a\<lparr>a_inodes := (a_inodes a)(n \<mapsto> i)\<rparr>)"
    and "wf_afs (a\<lparr>a_inodes := (a_inodes a)(n := None)\<rparr>)"
    and "p < 2 ^ 64 \<Longrightarrow> c < 2 ^ 64 \<Longrightarrow> wf_afs (a\<lparr>a_dents := (a_dents a)(p := (a_dents a p)(x \<mapsto> c))\<rparr>)"
    and "wf_afs (a\<lparr>a_dents := (a_dents a)(p := (a_dents a p)(x := None))\<rparr>)"
    and "ix < 2 ^ 64 \<Longrightarrow> wf_afs (a\<lparr>a_index := Some ix\<rparr>)"
    and "wf_afs (a\<lparr>a_intents := m\<rparr>)" and "wf_afs (a\<lparr>a_places := m'\<rparr>)"
    and "n < 2 ^ 64 \<Longrightarrow> length l < 2 ^ 64 \<Longrightarrow> wf_afs (a\<lparr>a_chunks := (a_chunks a)(n := l)\<rparr>)"
  using assms by (auto simp: wf_afs_def stored_as_def)

text \<open>The same for a service with an open database, and a command the store has room for.\<close>

definition svc_repr :: "'db bbolt \<Rightarrow> 'db service \<Rightarrow> afs \<Rightarrow> bool" where
  "svc_repr B s a \<longleftrightarrow> isOpen s \<and> (\<exists>d. db s = Some d \<and> repr B d a)"

definition svc_sim :: "'db bbolt \<Rightarrow> bool \<Rightarrow> 'db service \<Rightarrow> error option \<times> 'db service \<Rightarrow> afs result \<Rightarrow> bool" where
  "svc_sim B full s r n \<longleftrightarrow>
     (case r of
        (None, s') \<Rightarrow> \<exists>a d. n = Inr a \<and> repr B d a \<and> s' = s\<lparr>db := Some d\<rparr>
      | (Some e, s') \<Rightarrow> s' = s \<and> (full \<longrightarrow> n = Inl e))"

definition command_fits :: "'db bbolt \<Rightarrow> RaftCommandEnvelope \<Rightarrow> bool" where
  "command_fits B e \<longleftrightarrow>
     (\<forall>op. env_PosixMeta e = Some op \<longrightarrow>
        length (op_Name op) + 8 \<le> MaxKeySize \<and> length (op_DstName op) + 8 \<le> MaxKeySize)
   \<and> (\<forall>i. env_ChunkIntent e = Some i \<longrightarrow> fits B (ci_TxnID i) \<and> fits B (ci_ChunkID i))"

definition reliable :: "'db bbolt \<Rightarrow> blob \<Rightarrow> bool" where
  "reliable B data \<longleftrightarrow> roomy B \<and> (\<forall>d. bb_Commit B d = None) \<and> (\<forall>e. data = JsonEnvelope e \<longrightarrow> command_fits B e)"

definition wf_command :: "blob \<Rightarrow> bool" where
  "wf_command data \<longleftrightarrow> (\<forall>e op l. data = JsonEnvelope e \<longrightarrow> env_PosixMeta e = Some op \<longrightarrow>
     op_NewChunkList op = Some l \<longrightarrow> length l < 2 ^ 64)"

context bbolt_api
begin

lemma put_sim:
  assumes r: "repr B d a" and b: "b \<in> set requiredBuckets" and f: "full \<Longrightarrow> fits B k" and w: "wf_afs a'"
    and c: "\<And>b' k'. contents a' b' k' = (if b' = b \<and> k' = k then Some v else contents a b' k')"
  shows "sim B full (bb_Put B b k v d) (Inr a')"
proof (cases "bb_Put B b k v d")
  case (Inl e)
  have "bb_Bucket B b d" using r b unfolding repr_def by blast
  with put_ok [of b d k v] Inl f show ?thesis by (auto simp: sim_def fits_def)
next
  case (Inr d')
  have "bb_Bucket B b' d' \<and> (\<forall>k'. bb_Get B b' k' d' = contents a' b' k')" if "b' \<in> set requiredBuckets" for b'
  proof -
    have "bb_Bucket B b' d" "\<forall>k'. bb_Get B b' k' d = contents a b' k'" using r that unfolding repr_def by blast+
    then show ?thesis using put [OF Inr, of b'] by (simp add: c)
  qed
  then have "repr B d' a'" using w by (intro reprI)
  then show ?thesis using Inr by (simp add: sim_def)
qed

lemma delete_sim:
  assumes r: "repr B d a" and b: "b \<in> set requiredBuckets" and w: "wf_afs a'"
    and c: "\<And>b' k'. contents a' b' k' = (if b' = b \<and> k' = k then None else contents a b' k')"
  shows "sim B full (bb_Delete B b k d) (Inr a')"
proof -
  have "bb_Bucket B b d" using r b unfolding repr_def by blast
  then obtain d' where d': "bb_Delete B b k d = Inr d'" using delete_ok by blast
  have "bb_Bucket B b' d' \<and> (\<forall>k'. bb_Get B b' k' d' = contents a' b' k')" if "b' \<in> set requiredBuckets" for b'
  proof -
    have "bb_Bucket B b' d" "\<forall>k'. bb_Get B b' k' d = contents a b' k'" using r that unfolding repr_def by blast+
    then show ?thesis using delete [OF d', of b'] by (simp add: c)
  qed
  then have "repr B d' a'" using w by (intro reprI)
  then show ?thesis using d' by (simp add: sim_def)
qed

lemma create_sim:
  assumes r: "repr B d a" and b: "b \<in> set requiredBuckets"
  shows "sim B full (bb_Create B b d) (Inr a)"
proof -
  obtain d' where d': "bb_Create B b d = Inr d'" using create_ok requiredBuckets_ok [OF b] by blast
  have "bb_Bucket B b' d' \<and> (\<forall>k'. bb_Get B b' k' d' = contents a b' k')" if "b' \<in> set requiredBuckets" for b'
  proof -
    have "bb_Bucket B b' d" "\<forall>k'. bb_Get B b' k' d = contents a b' k'" using r that unfolding repr_def by blast+
    then show ?thesis using create [OF d', of b'] by simp
  qed
  then have "repr B d' a" using repr_wf [OF r] by (intro reprI)
  then show ?thesis using d' by (simp add: sim_def)
qed

lemma put_inode_sim:
  assumes "repr B d a" and "stored_as n i" and "full \<Longrightarrow> roomy B"
  shows "sim B full (put_inode B (encodeUint64BE n) i d) (Inr (a\<lparr>a_inodes := (a_inodes a)(n \<mapsto> i)\<rparr>))"
proof -
  have n: "n < 2 ^ 64" "storableInode i = i" using assms(2) by (simp_all add: stored_as_def)
  show ?thesis unfolding put_inode_def n(2)
    using assms by (intro put_sim [OF assms(1)])
      (simp_all add: fits_keys wf_afs_updates repr_wf contents_update_inode [OF n(1)])
qed

lemma delete_inode_sim:
  assumes "repr B d a" and "n < 2 ^ 64"
  shows "sim B full (bb_Delete B inodesBucket (encodeUint64BE n) d) (Inr (a\<lparr>a_inodes := (a_inodes a)(n := None)\<rparr>))"
  using assms by (intro delete_sim [OF assms(1)])
    (simp_all add: wf_afs_updates repr_wf contents_update_inode [OF assms(2)])

lemma put_dent_sim:
  assumes "repr B d a" and "p < 2 ^ 64" and "c < 2 ^ 64" and "full \<Longrightarrow> length x + 8 \<le> MaxKeySize \<and> roomy B"
  shows "sim B full (bb_Put B dentriesBucket (encodeDentryKey (encodeUint64BE p) x) (Raw (encodeUint64BE c)) d)
     (Inr (a\<lparr>a_dents := (a_dents a)(p := (a_dents a p)(x \<mapsto> c))\<rparr>))"
  using assms by (intro put_sim [OF assms(1)])
    (simp_all add: fits_keys wf_afs_updates repr_wf contents_update_dent [OF assms(2)])

lemma delete_dent_sim:
  assumes "repr B d a" and "p < 2 ^ 64"
  shows "sim B full (bb_Delete B dentriesBucket (encodeDentryKey (encodeUint64BE p) x) d)
     (Inr (a\<lparr>a_dents := (a_dents a)(p := (a_dents a p)(x := None))\<rparr>))"
  using assms by (intro delete_sim [OF assms(1)])
    (simp_all add: wf_afs_updates repr_wf contents_update_dent [OF assms(2)])

lemma put_index_sim:
  assumes "repr B d a" and "ix < 2 ^ 64" and "full \<Longrightarrow> roomy B"
  shows "sim B full (put_index B ix d) (Inr (a\<lparr>a_index := Some ix\<rparr>))"
  unfolding put_index_def using assms by (intro sim_wrap put_sim [OF assms(1)])
    (simp_all add: fits_keys wf_afs_updates repr_wf contents_update_index)

lemma put_index_last:
  assumes "repr B d a" and "n = Inr (a\<lparr>a_index := Some ix\<rparr>)" and "ix < 2 ^ 64" and "full \<Longrightarrow> roomy B"
  shows "sim B full (put_index B ix d) n"
  unfolding assms(2) by (rule put_index_sim [OF assms(1,3,4)])

lemma put_intent_sim:
  assumes "repr B d a" and "full \<Longrightarrow> fits B t"
  shows "sim B full (bb_Put B chunkIntentsBkt t (JsonIntent x) d) (Inr (a\<lparr>a_intents := (a_intents a)(t \<mapsto> x)\<rparr>))"
  using assms by (intro put_sim [OF assms(1)]) (simp_all add: wf_afs_updates repr_wf contents_update_intent)

lemma put_place_sim:
  assumes "repr B d a" and "full \<Longrightarrow> fits B c"
  shows "sim B full (bb_Put B chunkPlacementsBkt c (JsonStrings x) d) (Inr (a\<lparr>a_places := (a_places a)(c \<mapsto> x)\<rparr>))"
  using assms by (intro put_sim [OF assms(1)]) (simp_all add: wf_afs_updates repr_wf contents_update_place)

text \<open>Deleting a list of chunk keys, and storing a chunk list.\<close>

lemma deleteKeys_get:
  "bb_Bucket B chunkMapBucket d \<Longrightarrow> \<exists>d'. deleteKeys B ks d = Inr d' \<and> (\<forall>b. bb_Bucket B b d' = bb_Bucket B b d)
     \<and> (\<forall>b k. bb_Get B b k d' = (if b = chunkMapBucket \<and> k \<in> set ks then None else bb_Get B b k d))"
proof (induction ks arbitrary: d)
  case (Cons k ks)
  obtain d1 where d1: "bb_Delete B chunkMapBucket k d = Inr d1" using delete_ok [OF Cons.prems] by blast
  then obtain d' where "deleteKeys B ks d1 = Inr d'" "\<forall>b. bb_Bucket B b d' = bb_Bucket B b d1"
    "\<forall>b k. bb_Get B b k d' = (if b = chunkMapBucket \<and> k \<in> set ks then None else bb_Get B b k d1)"
    using Cons.IH [of d1] Cons.prems by auto
  then show ?case using d1 by (auto simp: get_delete)
qed simp

lemma chunk_key_iff:
  assumes "length key = 8" and "idx < 2 ^ 64"
  shows "k = encodeChunkMapKey key idx \<longleftrightarrow> has_prefix k key \<and> length k = 16 \<and> BigEndian_Uint64 (drop 8 k) = idx"
proof
  assume k: "k = encodeChunkMapKey key idx"
  then have "drop 8 k = encodeUint64BE idx" using assms(1) by (simp add: encodeChunkMapKey_def)
  then show "has_prefix k key \<and> length k = 16 \<and> BigEndian_Uint64 (drop 8 k) = idx"
    using k assms by (simp add: encodeChunkMapKey_def)
next
  assume r: "has_prefix k key \<and> length k = 16 \<and> BigEndian_Uint64 (drop 8 k) = idx"
  then have "k = key @ drop 8 k" using assms(1) by (auto simp: has_prefix_iff)
  moreover have "drop 8 k = encodeUint64BE idx" using r encode_BigEndian [of "drop 8 k"] by simp
  ultimately show "k = encodeChunkMapKey key idx" by (simp add: encodeChunkMapKey_def)
qed

lemma putChunks_get:
  assumes "length key = 8" and "idx + length cs < 2 ^ 64" and "putChunks B key idx cs d = Inr d'"
  shows "(\<forall>b. bb_Bucket B b d' = bb_Bucket B b d) \<and> (\<forall>b k. bb_Get B b k d' =
      (if b = chunkMapBucket \<and> has_prefix k key \<and> length k = 16
          \<and> idx \<le> BigEndian_Uint64 (drop 8 k) \<and> BigEndian_Uint64 (drop 8 k) < idx + length cs
       then Some (GobChunkDescriptor (cs ! (BigEndian_Uint64 (drop 8 k) - idx))) else bb_Get B b k d))"
  using assms
proof (induction cs arbitrary: idx d)
  case (Cons c cs)
  obtain d1 where d1: "bb_Put B chunkMapBucket (encodeChunkMapKey key idx) (GobChunkDescriptor c) d = Inr d1"
    and r: "putChunks B key (idx + 1) cs d1 = Inr d'"
    using Cons.prems(3) by (auto simp: result_simps)
  have k: "k = encodeChunkMapKey key idx \<longleftrightarrow> has_prefix k key \<and> length k = 16 \<and> BigEndian_Uint64 (drop 8 k) = idx" for k
    using Cons.prems(1,2) by (intro chunk_key_iff) auto
  show ?case using Cons.IH [OF Cons.prems(1) _ r] Cons.prems(2) d1 
    by (auto simp: get_put k nth_Cons' not_less_eq_eq)
qed auto

lemma putChunks_ok:
  assumes "length key = 8" and "roomy B" and "bb_Bucket B chunkMapBucket d"
  shows "\<exists>d'. putChunks B key idx cs d = Inr d'"
  using assms(3)
proof (induction cs arbitrary: idx d)
  case (Cons c cs)
  have "length (encodeChunkMapKey key idx) = 16" using assms(1) by (simp add: encodeChunkMapKey_def)
  moreover from this have "encodeChunkMapKey key idx \<noteq> []" by auto
  ultimately obtain d1 where "bb_Put B chunkMapBucket (encodeChunkMapKey key idx) (GobChunkDescriptor c) d = Inr d1"
    using put_ok [OF Cons.prems, of "encodeChunkMapKey key idx" "GobChunkDescriptor c"] assms(2)
    by (auto simp: roomy_def MaxKeySize_def)
  with Cons.IH [of d1 "idx + 1"] Cons.prems show ?case by auto
qed simp

end

lemma svc_Update_sim:
  assumes "db s = Some d" and "isOpen s" and "sim B full (f d) n" and "full \<Longrightarrow> \<forall>d. bb_Commit B d = None"
  shows "svc_sim B full s (svc_Update B f s) n"
proof (cases "f d")
  case (Inl e)
  then show ?thesis using assms by (auto simp: svc_Update_def svc_sim_def db_Update_def sim_def Let_def)
next
  case (Inr d')
  then obtain a' where "n = Inr a'" "repr B d' a'" using assms(3) by (auto simp: sim_def)
  then show ?thesis using assms(1,2,4) Inr
    by (cases "bb_Commit B d'") (auto simp: svc_Update_def svc_sim_def db_Update_def Let_def)
qed

context bbolt_sweep
begin

lemma deleteChunkList_get:
  assumes "bb_Bucket B chunkMapBucket d"
  shows "\<exists>d'. deleteChunkList B key d = Inr d' \<and> (\<forall>b. bb_Bucket B b d' = bb_Bucket B b d)
     \<and> (\<forall>b k. bb_Get B b k d' = (if b = chunkMapBucket \<and> has_prefix k key then None else bb_Get B b k d))"
proof -
  let ?ks = "takeWhile (\<lambda>k. has_prefix k key) (bb_Sweep B chunkMapBucket key d)"
  have "?ks = map fst (prefix_scan B chunkMapBucket key d)"
    by (simp add: sweep prefix_scan_def takeWhile_map o_def)
  then have "set ?ks = {k. has_prefix k key \<and> bb_Get B chunkMapBucket k d \<noteq> None}"
    using scan_keys [of chunkMapBucket key d] by simp
  then show ?thesis using deleteKeys_get [OF assms, of ?ks] assms
    by (fastforce simp: deleteChunkList_def)
qed

lemma replaceChunkList_sim:
  assumes r: "repr B d a" and n: "n < 2 ^ 64" and l: "length l < 2 ^ 64" and f: "full \<Longrightarrow> roomy B"
  shows "sim B full (replaceChunkList B (encodeUint64BE n) l d) (Inr (a\<lparr>a_chunks := (a_chunks a)(n := l)\<rparr>))"
proof -
  obtain d1 where d1: "deleteChunkList B (encodeUint64BE n) d = Inr d1" "\<forall>b. bb_Bucket B b d1 = bb_Bucket B b d"
    "\<forall>b k. bb_Get B b k d1 = (if b = chunkMapBucket \<and> has_prefix k (encodeUint64BE n) then None else bb_Get B b k d)"
    using deleteChunkList_get [of d "encodeUint64BE n"] r by auto
  show ?thesis
  proof (cases "putChunks B (encodeUint64BE n) 0 l d1")
    case (Inl e)
    moreover have "\<not> full" using putChunks_ok [of "encodeUint64BE n" d1 0 l] f d1(2) r Inl by auto
    ultimately show ?thesis using d1(1) by (simp add: replaceChunkList_def sim_def)
  next
    case (Inr d')
    have d': "bb_Bucket B b d' = bb_Bucket B b d"
      "bb_Get B b k d' = (if b = chunkMapBucket \<and> has_prefix k (encodeUint64BE n)
        then (if length k = 16 \<and> BigEndian_Uint64 (drop 8 k) < length l
              then Some (GobChunkDescriptor (l ! BigEndian_Uint64 (drop 8 k))) else None)
        else bb_Get B b k d)" for b k
      using putChunks_get [OF _ _ Inr] l d1(2,3) by auto
    have "repr B d' (a\<lparr>a_chunks := (a_chunks a)(n := l)\<rparr>)"
    proof (rule reprI)
      show "wf_afs (a\<lparr>a_chunks := (a_chunks a)(n := l)\<rparr>)" using repr_wf [OF r] n l by (simp add: wf_afs_updates)
      fix b assume "b \<in> set requiredBuckets"
      then have "bb_Bucket B b d" "\<forall>k. bb_Get B b k d = contents a b k" using r unfolding repr_def by blast+
      then show "bb_Bucket B b d' \<and> (\<forall>k. bb_Get B b k d' = contents (a\<lparr>a_chunks := (a_chunks a)(n := l)\<rparr>) b k)"
        by (simp add: d' contents_update_chunks [OF n])
    qed
    then show ?thesis using d1(1) Inr by (simp add: replaceChunkList_def sim_def)
  qed
qed

section \<open>The transactions refine the abstract operations\<close>

lemma createTx_sim:
  assumes r: "repr B d a" and p: "inode_number (op_ParentID op) = Inr p" and c: "inode_number (op_InodeID op) = Inr c"
    and ix: "ix < 2 ^ 64" and f0: "full \<Longrightarrow> length (op_Name op) + 8 \<le> MaxKeySize \<and> roomy B"
  shows "sim B full (createTx B op ix (encodeUint64BE p) (encodeUint64BE c) d) (spec_create op ix a)"
proof -
  have f: "full \<Longrightarrow> roomy B" using f0 by simp
  have p': "p < 2 ^ 64" and c': "c < 2 ^ 64" using p c by (auto dest: inode_number_bound)
  show ?thesis
  proof (cases "a_inodes a p")
    case None
    then show ?thesis using r p' by (simp add: createTx_def spec_create_def p c)
  next
    case (Some parent)
    then have sp: "stored_as p parent" using r by (blast dest: repr_wf wf_afs_inode)
    show ?thesis
    proof (cases "i_Type parent \<noteq> TypeDirectory \<or> a_dents a p (op_Name op) \<noteq> None")
      case True
      then show ?thesis using r p' Some by (auto simp: createTx_def spec_create_def p c)
    next
      case False
      have "sim B full
        (rbind (wrap ''store child inode'' (put_inode B (encodeUint64BE c) (newInode op) d)) (\<lambda>d.
         rbind (wrap ''store dentry'' (bb_Put B dentriesBucket (encodeDentryKey (encodeUint64BE p) (op_Name op)) (Raw (encodeUint64BE c)) d)) (\<lambda>d.
         rbind (wrap ''update parent inode'' (put_inode B (encodeUint64BE p) (touched (op_Timestamp op) parent') d)) (\<lambda>d.
         put_index B ix d))))
        (Inr (a\<lparr>a_inodes := (a_inodes a)(c \<mapsto> newInode op, p \<mapsto> touched (op_Timestamp op) parent'),
                 a_dents := (a_dents a)(p := (a_dents a p)(op_Name op \<mapsto> c)), a_index := Some ix\<rparr>))"
        if "stored_as p parent'" for parent'
        apply (rule sim_rbind_wrap [OF put_inode_sim [OF r stored_as_new [OF c]]], erule f)
        apply (rule sim_rbind_wrap [OF put_dent_sim [OF _ p' c']], assumption, erule f0)
        apply (rule sim_rbind_wrap [OF put_inode_sim [OF _ stored_as_simps(1) [OF that]]], assumption, erule f)
        apply (erule put_index_last [OF _ _ ix], simp, erule f)
        done
      from this [of "if op_FileType op = TypeDirectory then parent\<lparr>i_LinkCount := int64 (i_LinkCount parent + 1)\<rparr> else parent"]
      show ?thesis using r p' Some False sp by (simp add: createTx_def spec_create_def p c Let_def)
    qed
  qed
qed

lemma overwrite_sim:
  assumes r: "repr B d a" and q: "q < 2 ^ 64"
  shows "sim B full
     (case bb_Get B dentriesBucket (encodeDentryKey (encodeUint64BE q) x) d of
        None \<Rightarrow> Inr d
      | Some ck \<Rightarrow> wrap ''delete overwritten inode'' (bb_Delete B inodesBucket (key_of ck) d))
     (Inr (a\<lparr>a_inodes := (case a_dents a q x of None \<Rightarrow> a_inodes a | Some o' \<Rightarrow> (a_inodes a)(o' := None))\<rparr>))"
proof (cases "a_dents a q x")
  case None
  then show ?thesis using r q by (simp add: sim_InrI)
next
  case (Some o')
  then have "o' < 2 ^ 64" using repr_wf [OF r] unfolding wf_afs_def by blast
  then show ?thesis using Some q r by (simp add: sim_wrap delete_inode_sim)
qed

lemma renameTx_sim:
  assumes r: "repr B d a" and p: "inode_number (op_ParentID op) = Inr p" and q: "inode_number (op_DstParentID op) = Inr q"
    and ix: "ix < 2 ^ 64" and f0: "full \<Longrightarrow> length (op_DstName op) + 8 \<le> MaxKeySize \<and> roomy B"
  shows "sim B full (renameTx B op ix (encodeUint64BE p) (encodeUint64BE q) d) (spec_rename op ix a)"
proof -
  have f: "full \<Longrightarrow> roomy B" using f0 by simp
  have p': "p < 2 ^ 64" and q': "q < 2 ^ 64" using p q by (auto dest: inode_number_bound)
  show ?thesis
  proof (cases "a_inodes a p = None \<or> a_inodes a q = None \<or> a_dents a p (op_Name op) = None")
    case True
    then show ?thesis using r p' q'
      by (cases "a_inodes a p"; cases "a_inodes a q") (auto simp: renameTx_def spec_rename_def p q Let_def)
  next
    case False
    then obtain sp dp c where s: "a_inodes a p = Some sp" "a_inodes a q = Some dp" "a_dents a p (op_Name op) = Some c"
      by auto
    then have st: "stored_as p sp" "stored_as q dp" using r by (blast dest: repr_wf wf_afs_inode)+
    have c: "c < 2 ^ 64" using repr_wf [OF r] s(3) unfolding wf_afs_def by blast
    define a1 where "a1 = a\<lparr>a_dents := (a_dents a)(p := (a_dents a p)(op_Name op := None))\<rparr>"
    define a2 where "a2 = a1\<lparr>a_inodes := (case a_dents a1 q (op_DstName op) of None \<Rightarrow> a_inodes a1 | Some o' \<Rightarrow> (a_inodes a1)(o' := None))\<rparr>"
    define a3 where "a3 = a2\<lparr>a_dents := (a_dents a2)(q := (a_dents a2 q)(op_DstName op \<mapsto> c))\<rparr>"
    define a4 where "a4 = a3\<lparr>a_inodes := (a_inodes a3)(p \<mapsto> touched (op_Timestamp op) sp)\<rparr>"
    define a5 where "a5 = a4\<lparr>a_inodes := (a_inodes a4)(q \<mapsto> touched (op_Timestamp op) dp)\<rparr>"
    have spec: "spec_rename op ix a = Inr (a5\<lparr>a_index := Some ix\<rparr>)"
      by (simp add: spec_rename_def p q s a1_def a2_def a3_def a4_def a5_def Let_def
          del: fun_upd_apply cong: option.case_cong)
    show ?thesis
      using r p' q' s unfolding spec
      apply (simp add: renameTx_def Let_def)
      apply (rule sim_rbind_wrap [OF delete_dent_sim [OF r p', where x = "op_Name op", folded a1_def]])
      apply (rule sim_rbind [OF overwrite_sim [OF _ q', where a = a1 and x = "op_DstName op", folded a2_def]], assumption)
      apply (rule sim_rbind_wrap [OF put_dent_sim [OF _ q' c, where a = a2 and x = "op_DstName op", folded a3_def]], assumption, erule f0)
      apply (rule sim_rbind_wrap [OF put_inode_sim [OF _ stored_as_simps(1) [OF st(1), of "op_Timestamp op"], where a = a3, folded a4_def]], assumption, erule f)
      apply (rule sim_rbind_wrap [OF put_inode_sim [OF _ stored_as_simps(1) [OF st(2), of "op_Timestamp op"], where a = a4, folded a5_def]], assumption, erule f)
      apply (erule put_index_sim [OF _ ix], erule f)
      done
  qed
qed

lemma removeTx_sim:
  assumes r: "repr B d a" and p: "inode_number (op_ParentID op) = Inr p"
    and ix: "ix < 2 ^ 64" and f: "full \<Longrightarrow> roomy B"
  shows "sim B full (removeTx B op ix (encodeUint64BE p) d) (spec_remove op ix a)"
proof -
  have p': "p < 2 ^ 64" using p by (rule inode_number_bound)
  show ?thesis
  proof (cases "a_dents a p (op_Name op)")
    case None
    then show ?thesis using r p' by (simp add: removeTx_def spec_remove_def p Let_def)
  next
    case (Some c)
    have c: "c < 2 ^ 64" using repr_wf [OF r] Some unfolding wf_afs_def by blast
    show ?thesis
    proof (cases "a_inodes a p = None \<or> a_inodes a c = None")
      case True
      then show ?thesis using r p' c Some
        by (cases "a_inodes a p") (auto simp: removeTx_def spec_remove_def p Let_def)
    next
      case False
      then obtain pi ci where s: "a_inodes a p = Some pi" "a_inodes a c = Some ci" by auto
      then have st: "stored_as p pi" using r by (blast dest: repr_wf wf_afs_inode)
      have "sim B full
        (rbind (wrap ''delete dentry'' (bb_Delete B dentriesBucket (encodeDentryKey (encodeUint64BE p) (op_Name op)) d)) (\<lambda>d.
         rbind (wrap ''delete child inode'' (bb_Delete B inodesBucket (encodeUint64BE c) d)) (\<lambda>d.
         rbind (wrap ''update parent inode'' (put_inode B (encodeUint64BE p) (touched (op_Timestamp op) parent') d)) (\<lambda>d.
         put_index B ix d))))
        (Inr (a\<lparr>a_inodes := ((a_inodes a)(c := None))(p \<mapsto> touched (op_Timestamp op) parent'),
                 a_dents := (a_dents a)(p := (a_dents a p)(op_Name op := None)), a_index := Some ix\<rparr>))"
        if "stored_as p parent'" for parent'
        apply (rule sim_rbind_wrap [OF delete_dent_sim [OF r p']])
        apply (rule sim_rbind_wrap [OF delete_inode_sim [OF _ c]], assumption)
        apply (rule sim_rbind_wrap [OF put_inode_sim [OF _ stored_as_simps(1) [OF that]]], assumption, erule f)
        apply (erule put_index_last [OF _ _ ix], simp, erule f)
        done
      from this [of "if i_Type ci = TypeDirectory then pi\<lparr>i_LinkCount := int64 (i_LinkCount pi - 1)\<rparr> else pi"]
      show ?thesis using r p' c s Some st by (simp add: removeTx_def spec_remove_def p Let_def)
    qed
  qed
qed

lemma setAttrTx_sim:
  assumes r: "repr B d a" and n: "inode_number (op_InodeID op) = Inr n"
    and ix: "ix < 2 ^ 64" and f: "full \<Longrightarrow> roomy B"
  shows "sim B full (setAttrTx B op ix (encodeUint64BE n) d) (spec_setattr op ix a)"
proof (cases "a_inodes a n")
  case None
  then show ?thesis using r inode_number_bound [OF n] by (simp add: setAttrTx_def spec_setattr_def n)
next
  case (Some i)
  then have st: "stored_as n i" using r by (blast dest: repr_wf wf_afs_inode)
  show ?thesis
    using r inode_number_bound [OF n] Some
    apply (simp add: setAttrTx_def spec_setattr_def n)
    apply (rule sim_rbind_wrap [OF put_inode_sim [OF _ stored_as_simps(2) [OF st]]], assumption, erule f)
    apply (erule put_index_last [OF _ _ ix], simp, erule f)
    done
qed

lemma updateChunks_sim:
  assumes "repr B d a" and "n < 2 ^ 64" and "\<forall>l. op_NewChunkList op = Some l \<longrightarrow> length l < 2 ^ 64" and "full \<Longrightarrow> roomy B"
  shows "sim B full (updateChunks B op (encodeUint64BE n) d) (Inr (spec_chunks op n a))"
  using assms by (cases "op_NewChunkList op") (simp_all add: updateChunks_def spec_chunks_def sim_InrI sim_wrap replaceChunkList_sim)

lemma updateInodeTx_sim:
  assumes r: "repr B d a" and n: "inode_number (op_InodeID op) = Inr n" and l: "\<forall>l. op_NewChunkList op = Some l \<longrightarrow> length l < 2 ^ 64"
    and ix: "ix < 2 ^ 64" and f: "full \<Longrightarrow> roomy B"
  shows "sim B full (updateInodeTx B op ix (encodeUint64BE n) d) (spec_update op ix a)"
proof (cases "a_inodes a n")
  case None
  then show ?thesis using r inode_number_bound [OF n] by (simp add: updateInodeTx_def spec_update_def n)
next
  case (Some i)
  then have st: "stored_as n i" using r by (blast dest: repr_wf wf_afs_inode)
  show ?thesis
    using r inode_number_bound [OF n] Some
    apply (simp add: updateInodeTx_def spec_update_def n)
    apply (rule sim_rbind_wrap [OF put_inode_sim [OF _ stored_as_simps(3) [OF st]]], assumption, erule f)
    apply (rule sim_rbind [OF updateChunks_sim [OF _ inode_number_bound [OF n] l]], assumption, erule f)
    apply (erule put_index_last [OF _ _ ix], simp, erule f)
    done
qed

lemma spec_chunks_inodes [simp]: "a_inodes (spec_chunks op n a) = a_inodes a"
  by (simp add: spec_chunks_def split: option.split)

lemma intentMetaTx_sim:
  assumes r: "repr B d a" and l: "\<forall>l. op_NewChunkList op = Some l \<longrightarrow> length l < 2 ^ 64" and f: "full \<Longrightarrow> roomy B"
  shows "sim B full (intentMetaTx B now op d) (spec_intent_meta now op a)"
proof (cases "inode_number (op_InodeID op)")
  case (Inl e)
  then show ?thesis using r by (simp add: intentMetaTx_def spec_intent_meta_def encodeInodeKey_number)
next
  case (Inr n)
  show ?thesis
  proof (cases "a_inodes a n")
    case None
    then show ?thesis using r inode_number_bound [OF Inr]
      by (simp add: intentMetaTx_def spec_intent_meta_def encodeInodeKey_number Inr)
  next
    case (Some i)
    then have st: "stored_as n i" using r by (blast dest: repr_wf wf_afs_inode)
    have last: "sim B full (wrap ''update inode'' (put_inode B (encodeUint64BE n) (commitFields now op i) d1))
        (Inr ((spec_chunks op n a)\<lparr>a_inodes := (a_inodes a)(n \<mapsto> commitFields now op i)\<rparr>))"
      if "repr B d1 (spec_chunks op n a)" for d1
      using sim_wrap [OF put_inode_sim [OF that stored_as_simps(4) [OF st] f]] by simp
    show ?thesis
      using r inode_number_bound [OF Inr] Some
      apply (simp add: intentMetaTx_def spec_intent_meta_def encodeInodeKey_number Inr)
      apply (rule sim_rbind [OF updateChunks_sim [OF _ inode_number_bound [OF Inr] l]], assumption, erule f)
      apply (erule last)
      done
  qed
qed

lemma intentTx_sim:
  assumes r: "repr B d a" and ix: "ix < 2 ^ 64"
    and l: "\<forall>op l. mop = Some op \<longrightarrow> op_NewChunkList op = Some l \<longrightarrow> length l < 2 ^ 64"
    and f0: "full \<Longrightarrow> fits B (ci_TxnID intent) \<and> fits B (ci_ChunkID intent) \<and> roomy B"
  shows "sim B full (intentTx B now intent mop ix d) (spec_intent now intent mop ix a)"
proof -
  have last: "sim B full (put_index B ix d1) (Inr (a1\<lparr>a_index := Some ix\<rparr>))" if "repr B d1 a1" for d1 a1
    using put_index_sim [OF that ix] f0 by blast
  show ?thesis
    unfolding intentTx_def spec_intent_def Let_def
    apply (rule sim_rbind [OF create_sim [OF r]], simp)
    apply (rule sim_rbind [OF put_intent_sim], assumption, drule f0, simp)
    apply (rule sim_rbind [OF create_sim], assumption, simp)
    apply (rule sim_rbind [OF put_place_sim], assumption, drule f0, simp)
    apply (rule sim_rbind2)
     apply (cases mop; simp add: sim_InrI)
     apply (intro conjI impI)
      apply (rule intentMetaTx_sim, assumption, use l in simp, drule f0, simp)
    apply simp
    apply (erule last)
    done
qed

section \<open>Applying a command\<close>

lemma next_index_bound: "next_index a < 2 ^ 64"
  by (simp add: next_index_def inc64_def)

lemma nextConsistentIndex_repr:
  assumes "svc_repr B s a"
  shows "nextConsistentIndex B s = Inr (next_index a)"
proof -
  obtain d where d: "db s = Some d" "isOpen s" "repr B d a" using assms by (auto simp: svc_repr_def)
  have "a_index a = Some i \<Longrightarrow> i < 2 ^ 64" for i using repr_wf [OF d(3)] unfolding wf_afs_def by blast
  then show ?thesis using d
    by (cases "a_index a") (auto simp: nextConsistentIndex_def initialized_def svc_View_def repr_get contents_simps
        decodeIndex_def next_index_def)
qed

lemma ApplyCreate_sim:
  assumes r: "svc_repr B s a" and ix: "ix < 2 ^ 64" and c: "full \<Longrightarrow> \<forall>d. bb_Commit B d = None"
    and f: "full \<Longrightarrow> length (op_Name op) + 8 \<le> MaxKeySize \<and> roomy B"
  shows "svc_sim B full s (ApplyCreate B op ix s) (spec_create op ix a)"
proof -
  obtain d where d: "db s = Some d" "isOpen s" "repr B d a" using r by (auto simp: svc_repr_def)
  show ?thesis
  proof (cases "inode_number (op_ParentID op)"; cases "inode_number (op_InodeID op)")
    fix p q assume k: "inode_number (op_ParentID op) = Inr p" "inode_number (op_InodeID op) = Inr q"
    have "svc_sim B full s (svc_Update B (createTx B op ix (encodeUint64BE p) (encodeUint64BE q)) s) (spec_create op ix a)"
      by (rule svc_Update_sim [OF d(1,2)], rule createTx_sim [OF d(3) k ix f], assumption, erule c)
    with k d show ?thesis
      by (simp add: ApplyCreate_def guarded_def initialized_def encodeInodeKey_number)
  qed (use d in \<open>simp_all add: ApplyCreate_def spec_create_def guarded_def initialized_def encodeInodeKey_number svc_sim_def\<close>)
qed

lemma ApplyRename_sim:
  assumes r: "svc_repr B s a" and ix: "ix < 2 ^ 64" and c: "full \<Longrightarrow> \<forall>d. bb_Commit B d = None"
    and f: "full \<Longrightarrow> length (op_DstName op) + 8 \<le> MaxKeySize \<and> roomy B"
  shows "svc_sim B full s (ApplyRename B op ix s) (spec_rename op ix a)"
proof -
  obtain d where d: "db s = Some d" "isOpen s" "repr B d a" using r by (auto simp: svc_repr_def)
  show ?thesis
  proof (cases "inode_number (op_ParentID op)"; cases "inode_number (op_DstParentID op)")
    fix p q assume k: "inode_number (op_ParentID op) = Inr p" "inode_number (op_DstParentID op) = Inr q"
    have "svc_sim B full s (svc_Update B (renameTx B op ix (encodeUint64BE p) (encodeUint64BE q)) s) (spec_rename op ix a)"
      by (rule svc_Update_sim [OF d(1,2)], rule renameTx_sim [OF d(3) k ix f], assumption, erule c)
    with k d show ?thesis
      by (simp add: ApplyRename_def guarded_def initialized_def encodeInodeKey_number)
  qed (use d in \<open>simp_all add: ApplyRename_def spec_rename_def guarded_def initialized_def encodeInodeKey_number svc_sim_def\<close>)
qed

lemma ApplyRemove_sim:
  assumes r: "svc_repr B s a" and ix: "ix < 2 ^ 64" and c: "full \<Longrightarrow> \<forall>d. bb_Commit B d = None" and f: "full \<Longrightarrow> roomy B"
  shows "svc_sim B full s (ApplyRemove B op ix s) (spec_remove op ix a)"
proof -
  obtain d where d: "db s = Some d" "isOpen s" "repr B d a" using r by (auto simp: svc_repr_def)
  show ?thesis
  proof (cases "inode_number (op_ParentID op)")
    case (Inr p)
    have "svc_sim B full s (svc_Update B (removeTx B op ix (encodeUint64BE p)) s) (spec_remove op ix a)"
      by (rule svc_Update_sim [OF d(1,2)], rule removeTx_sim [OF d(3) Inr ix f], assumption, erule c)
    with Inr d show ?thesis
      by (simp add: ApplyRemove_def guarded_def initialized_def encodeInodeKey_number)
  qed (use d in \<open>simp_all add: ApplyRemove_def spec_remove_def guarded_def initialized_def encodeInodeKey_number svc_sim_def\<close>)
qed

lemma ApplySetAttr_sim:
  assumes r: "svc_repr B s a" and ix: "ix < 2 ^ 64" and c: "full \<Longrightarrow> \<forall>d. bb_Commit B d = None" and f: "full \<Longrightarrow> roomy B"
  shows "svc_sim B full s (ApplySetAttr B op ix s) (spec_setattr op ix a)"
proof -
  obtain d where d: "db s = Some d" "isOpen s" "repr B d a" using r by (auto simp: svc_repr_def)
  show ?thesis
  proof (cases "inode_number (op_InodeID op)")
    case (Inr n)
    have "svc_sim B full s (svc_Update B (setAttrTx B op ix (encodeUint64BE n)) s) (spec_setattr op ix a)"
      by (rule svc_Update_sim [OF d(1,2)], rule setAttrTx_sim [OF d(3) Inr ix f], assumption, erule c)
    with Inr d show ?thesis
      by (simp add: ApplySetAttr_def guarded_def initialized_def encodeInodeKey_number)
  qed (use d in \<open>simp_all add: ApplySetAttr_def spec_setattr_def guarded_def initialized_def encodeInodeKey_number svc_sim_def\<close>)
qed

lemma ApplyUpdateInode_sim:
  assumes r: "svc_repr B s a" and ix: "ix < 2 ^ 64" and c: "full \<Longrightarrow> \<forall>d. bb_Commit B d = None" and f: "full \<Longrightarrow> roomy B"
    and l: "\<forall>l. op_NewChunkList op = Some l \<longrightarrow> length l < 2 ^ 64"
  shows "svc_sim B full s (ApplyUpdateInode B op ix s) (spec_update op ix a)"
proof -
  obtain d where d: "db s = Some d" "isOpen s" "repr B d a" using r by (auto simp: svc_repr_def)
  show ?thesis
  proof (cases "inode_number (op_InodeID op)")
    case (Inr n)
    have "svc_sim B full s (svc_Update B (updateInodeTx B op ix (encodeUint64BE n)) s) (spec_update op ix a)"
      by (rule svc_Update_sim [OF d(1,2)], rule updateInodeTx_sim [OF d(3) Inr l ix f], assumption, erule c)
    with Inr d show ?thesis
      by (simp add: ApplyUpdateInode_def guarded_def initialized_def encodeInodeKey_number)
  qed (use d in \<open>simp_all add: ApplyUpdateInode_def spec_update_def guarded_def initialized_def encodeInodeKey_number svc_sim_def\<close>)
qed

lemma applyStandardMetadata_sim:
  assumes r: "svc_repr B s a" and c: "full \<Longrightarrow> \<forall>d. bb_Commit B d = None"
    and f: "full \<Longrightarrow> length (op_Name op) + 8 \<le> MaxKeySize \<and> length (op_DstName op) + 8 \<le> MaxKeySize \<and> roomy B"
    and l: "\<forall>l. op_NewChunkList op = Some l \<longrightarrow> length l < 2 ^ 64"
  shows "svc_sim B full s (applyStandardMetadata B (Some op) s) (spec_meta op (next_index a) a)"
proof -
  note nx = nextConsistentIndex_repr [OF r] and nb = next_index_bound [of a]
  have f': "full \<Longrightarrow> roomy B" "full \<Longrightarrow> length (op_Name op) + 8 \<le> MaxKeySize \<and> roomy B"
    "full \<Longrightarrow> length (op_DstName op) + 8 \<le> MaxKeySize \<and> roomy B" using f by simp_all
  note sims = ApplyCreate_sim [OF r nb c f'(2)] ApplyRename_sim [OF r nb c f'(3)] ApplyRemove_sim [OF r nb c f'(1)]
    ApplySetAttr_sim [OF r nb c f'(1)] ApplyUpdateInode_sim [OF r nb c f'(1) l]
  show ?thesis
    by (cases "op_Type op") (simp_all add: applyStandardMetadata_def spec_meta_def guarded_def nx sims svc_sim_def [of _ _ _ "(Some _, _)"])
qed

lemma applyChunkIntentAtomic_sim:
  assumes r: "svc_repr B s a" and c: "full \<Longrightarrow> \<forall>d. bb_Commit B d = None"
    and f: "full \<Longrightarrow> fits B (ci_TxnID i) \<and> fits B (ci_ChunkID i) \<and> roomy B"
    and l: "\<forall>op l. mop = Some op \<longrightarrow> op_NewChunkList op = Some l \<longrightarrow> length l < 2 ^ 64"
  shows "svc_sim B full s (applyChunkIntentAtomic B now (Some i) mop s) (spec_intent now i mop (next_index a) a)"
proof -
  obtain d where d: "db s = Some d" "isOpen s" "repr B d a" using r by (auto simp: svc_repr_def)
  have "svc_sim B full s (svc_Update B (intentTx B now i mop (next_index a)) s) (spec_intent now i mop (next_index a) a)"
    by (rule svc_Update_sim [OF d(1,2)], rule intentTx_sim [OF d(3) next_index_bound l f], assumption, erule c)
  with d(1) show ?thesis
    by (simp add: applyChunkIntentAtomic_def guarded_def initialized_def nextConsistentIndex_repr [OF r])
qed

lemma ApplyTransaction_sim:
  assumes r: "svc_repr B s a" and w: "wf_command data"
  shows "svc_sim B (reliable B data) s (ApplyTransaction B now data s) (spec_apply now data a)"
proof (cases "json_Unmarshal_RaftCommandEnvelope data")
  case (Inl e)
  then show ?thesis by (simp add: ApplyTransaction_def spec_apply_def guarded_def svc_sim_def)
next
  case (Inr e)
  have data: "data = JsonEnvelope e" using Inr by (cases data) auto
  have c: "reliable B data \<Longrightarrow> \<forall>d. bb_Commit B d = None" by (simp add: reliable_def)
  have ini: "initialized s = Inr ()" using r by (auto simp: initialized_def svc_repr_def)
  show ?thesis
  proof (cases "env_Type e")
    case PayloadPosixMeta
    show ?thesis
    proof (cases "env_PosixMeta e")
      case None
      then show ?thesis using PayloadPosixMeta
        by (simp add: ApplyTransaction_def spec_apply_def data guarded_def svc_sim_def applyStandardMetadata_def)
    next
      case (Some op)
      have f: "reliable B data \<Longrightarrow> length (op_Name op) + 8 \<le> MaxKeySize \<and> length (op_DstName op) + 8 \<le> MaxKeySize \<and> roomy B"
        using Some by (auto simp: reliable_def data command_fits_def)
      have l: "\<forall>l. op_NewChunkList op = Some l \<longrightarrow> length l < 2 ^ 64" using w Some unfolding wf_command_def data by blast
      show ?thesis using applyStandardMetadata_sim [OF r c f l] Some PayloadPosixMeta
        by (simp add: ApplyTransaction_def spec_apply_def data guarded_def)
    qed
  next
    case PayloadChunkIntent
    show ?thesis
    proof (cases "env_ChunkIntent e")
      case None
      then show ?thesis using PayloadChunkIntent ini
        by (simp add: ApplyTransaction_def spec_apply_def data guarded_def svc_sim_def applyChunkIntentAtomic_def)
    next
      case (Some i)
      have f: "reliable B data \<Longrightarrow> fits B (ci_TxnID i) \<and> fits B (ci_ChunkID i) \<and> roomy B"
        using Some by (auto simp: reliable_def data command_fits_def)
      have l: "\<forall>op l. env_PosixMeta e = Some op \<longrightarrow> op_NewChunkList op = Some l \<longrightarrow> length l < 2 ^ 64"
        using w unfolding wf_command_def data by blast
      show ?thesis using applyChunkIntentAtomic_sim [OF r c f l] Some PayloadChunkIntent
        by (simp add: ApplyTransaction_def spec_apply_def data guarded_def)
    qed
  next
    case (PayloadOther x)
    then show ?thesis by (simp add: ApplyTransaction_def spec_apply_def data guarded_def svc_sim_def)
  qed
qed

end

end
