(* ===== verification/BoltQuery.thy ===== *)
theory BoltQuery
  imports BoltSpec
begin

text \<open>
  The queries of the metadata service on a database that represents an abstract state (\<open>repr\<close> of
  \<open>BoltSpec\<close>): each returns what the abstract state says, on every branch.  The scans of the chunk map
  and of the directory entries return exactly one inode's keys, in index respectively name order.
\<close>

definition live :: "ctxt \<Rightarrow> bool" where
  "live ctx \<longleftrightarrow> (\<forall>i. ctx i = None)"

text \<open>The walk of a path through the abstract tree.\<close>

definition path_parts :: "string \<Rightarrow> string list" where
  "path_parts path = strings_Split (CHR ''/'') (strings_Trim (CHR ''/'') path)"

fun walk :: "afs \<Rightarrow> nat \<Rightarrow> string list \<Rightarrow> nat result" where
  "walk a n [] = Inr n"
| "walk a n (x # xs) =
     (if x = [] \<or> x = ''.'' then walk a n xs
      else
        rbind (of_opt ErrNotFound (a_inodes a n)) (\<lambda>inode.
        if i_Type inode \<noteq> TypeDirectory then Inl ErrNotDir
        else rbind (of_opt ErrNotFound (a_dents a n x)) (\<lambda>c. walk a c xs)))"

text \<open>A directory's listing: one entry per name, in the byte order of the names.\<close>

definition dir_entry :: "afs \<Rightarrow> bytes \<times> blob \<Rightarrow> DirEntry" where
  "dir_entry a x =
     (let j = the (a_inodes a (BigEndian_Uint64 (key_of (snd x))))
      in \<lparr>de_Name = drop 8 (fst x), de_InodeID = i_InodeID j, de_Type = i_Type j\<rparr>)"

definition listing :: "afs \<Rightarrow> nat \<Rightarrow> DirEntry list \<Rightarrow> bool" where
  "listing a p es \<longleftrightarrow> sorted_wrt (<) (map de_Name es)
     \<and> (\<forall>e. e \<in> set es \<longleftrightarrow> (\<exists>c j. a_dents a p (de_Name e) = Some c \<and> a_inodes a c = Some j
           \<and> de_InodeID e = i_InodeID j \<and> de_Type e = i_Type j))"

section \<open>Chunk lists\<close>

lemma append_less_cancel [simp]: "p @ x < p @ y \<longleftrightarrow> x < (y :: bytes)"
  by (induction p) auto

lemma placeChunk_next: "i < length l \<Longrightarrow> placeChunk i (l ! i) (take i l) = take (Suc i) l"
  by (simp add: placeChunk_def take_Suc_conv_app_nth list_update_append)

lemma loadChunks_all:
  assumes "length l < 2 ^ 64" and "length key = 8"
  shows "i \<le> length l \<Longrightarrow> loadChunks 8
    (map (\<lambda>i. (key @ encodeUint64BE i, GobChunkDescriptor (l ! i))) [i..<length l]) (take i l) = Inr l"
proof (induction "length l - i" arbitrary: i)
  case (Suc m)
  then have i: "i < length l" by simp
  then have "i < 2 ^ 64" using assms(1) by linarith
  then show ?case using Suc.hyps(1) [of "Suc i"] Suc.hyps(2) i assms(2) placeChunk_next [OF i]
    by (simp add: upt_rec [of i])
qed simp

context bbolt_api
begin

lemma chunk_scan:
  assumes r: "repr B d a" and n: "n < 2 ^ 64"
  shows "prefix_scan B chunkMapBucket (encodeUint64BE n) d
    = map (\<lambda>i. (encodeUint64BE n @ encodeUint64BE i, GobChunkDescriptor (a_chunks a n ! i))) [0..<length (a_chunks a n)]"
    (is "?L = ?R")
proof (rule strict_sorted_pairs_eq [OF scan_sorted])
  have len: "length (a_chunks a n) < 2 ^ 64" using repr_wf [OF r] unfolding wf_afs_def by blast
  have less: "encodeUint64BE i < encodeUint64BE j"
    if "i < j" "j < length (a_chunks a n)" for i j
    using encodeUint64BE_less_iff [of i j] that len by simp
  show "sorted_wrt (<) (map fst ?R)"
    by (auto simp: sorted_wrt_iff_nth_less less)
  show "set ?L = set ?R"
  proof (rule set_eqI)
    fix x :: "bytes \<times> blob"
    obtain k v where x: "x = (k, v)" by fastforce
    have "x \<in> set ?L \<longleftrightarrow> has_prefix k (encodeUint64BE n) \<and> contents a chunkMapBucket k = Some v"
      by (simp add: x scan_set repr_get [OF r])
    also have "\<dots> \<longleftrightarrow> (\<exists>i < length (a_chunks a n). k = encodeChunkMapKey (encodeUint64BE n) i \<and> v = GobChunkDescriptor (a_chunks a n ! i))"
    proof
      assume k: "has_prefix k (encodeUint64BE n) \<and> contents a chunkMapBucket k = Some v"
      then have "BigEndian_Uint64 k = n" using n by (auto simp: has_prefix_iff)
      with k show "\<exists>i < length (a_chunks a n). k = encodeChunkMapKey (encodeUint64BE n) i \<and> v = GobChunkDescriptor (a_chunks a n ! i)"
        using chunk_key_iff [of "encodeUint64BE n" "BigEndian_Uint64 (drop 8 k)" k] BigEndian_bound
        by (auto simp: contents_simps Let_def split: if_splits)
    next
      assume "\<exists>i < length (a_chunks a n). k = encodeChunkMapKey (encodeUint64BE n) i \<and> v = GobChunkDescriptor (a_chunks a n ! i)"
      then obtain i where i: "i < length (a_chunks a n)" "k = encodeUint64BE n @ encodeUint64BE i" "v = GobChunkDescriptor (a_chunks a n ! i)"
        by (auto simp: encodeChunkMapKey_def)
      moreover have "i < 2 ^ 64" using i(1) len by linarith
      ultimately show "has_prefix k (encodeUint64BE n) \<and> contents a chunkMapBucket k = Some v"
        using n by (simp add: contents_simps)
    qed
    also have "\<dots> \<longleftrightarrow> x \<in> set ?R" by (auto simp: x encodeChunkMapKey_def)
    finally show "x \<in> set ?L \<longleftrightarrow> x \<in> set ?R" .
  qed
qed

lemma loadChunkList_repr:
  assumes "repr B d a" and "n < 2 ^ 64"
  shows "loadChunkList B (encodeUint64BE n) d = Inr (a_chunks a n)"
proof -
  have "length (a_chunks a n) < 2 ^ 64" using repr_wf [OF assms(1)] unfolding wf_afs_def by blast
  then show ?thesis using loadChunks_all [of "a_chunks a n" "encodeUint64BE n" 0] assms
    by (simp add: loadChunkList_def chunk_scan)
qed

section \<open>Single inodes and directory entries\<close>

lemma live_poll [simp]: "live ctx \<Longrightarrow> poll ctx i = Inr ()"
  by (simp add: live_def poll_def)

lemma live_polled [simp]: "live ctx \<Longrightarrow> live (polled k ctx)"
  by (simp add: live_def polled_def)

lemma svc_reprE:
  assumes "svc_repr B s a"
  obtains d where "db s = Some d" "isOpen s" "repr B d a"
  using assms by (auto simp: svc_repr_def)

lemma GetInode_repr:
  assumes "svc_repr B s a" and "live ctx"
  shows "GetInode B ctx i s = rbind (wrap ''encode inode id'' (inode_number i)) (\<lambda>n.
     rbind (of_opt ErrNotFound (a_inodes a n)) (\<lambda>inode. Inr (inode\<lparr>i_ChunkList := a_chunks a n\<rparr>)))"
proof (cases "inode_number i")
  case (Inl e)
  then show ?thesis using assms by (auto simp: GetInode_def encodeInodeKey_number initialized_def svc_repr_def)
next
  case (Inr n)
  then show ?thesis using assms inode_number_bound [OF Inr]
    by (cases "a_inodes a n")
      (auto simp: GetInode_def encodeInodeKey_number initialized_def svc_View_def loadChunkList_repr elim!: svc_reprE)
qed

lemma GetAttributes_repr:
  assumes "svc_repr B s a" and "live ctx"
  shows "GetAttributes B ctx i s = rbind (wrap ''encode inode id'' (inode_number i)) (\<lambda>n.
     rbind (of_opt ErrNotFound (a_inodes a n)) (\<lambda>inode. Inr (attributes_of inode)))"
proof (cases "inode_number i")
  case (Inl e)
  then show ?thesis using assms by (auto simp: GetAttributes_def encodeInodeKey_number initialized_def svc_repr_def)
next
  case (Inr n)
  then show ?thesis using assms inode_number_bound [OF Inr]
    by (cases "a_inodes a n")
      (auto simp: GetAttributes_def encodeInodeKey_number initialized_def svc_View_def elim!: svc_reprE)
qed

lemma dent_bound: "wf_afs a \<Longrightarrow> a_dents a p x = Some c \<Longrightarrow> p < 2 ^ 64 \<and> c < 2 ^ 64"
  unfolding wf_afs_def by blast

lemma Lookup_repr:
  assumes "svc_repr B s a" and "live ctx"
  shows "Lookup B ctx i x s = rbind (wrap ''encode parent inode id'' (inode_number i)) (\<lambda>p.
     rbind (of_opt ErrNotFound (a_inodes a p)) (\<lambda>parent.
     if i_Type parent \<noteq> TypeDirectory then Inl ErrNotDir
     else rbind (of_opt ErrNotFound (a_dents a p x)) (\<lambda>c. Inr (FormatUint c))))"
proof (cases "inode_number i")
  case (Inl e)
  then show ?thesis using assms by (auto simp: Lookup_def encodeInodeKey_number initialized_def svc_repr_def)
next
  case (Inr p)
  obtain d where d: "db s = Some d" "isOpen s" "repr B d a" using assms(1) by (rule svc_reprE)
  show ?thesis
  proof (cases "a_inodes a p")
    case None
    then show ?thesis using d Inr inode_number_bound [OF Inr] assms(2)
      by (simp add: Lookup_def encodeInodeKey_number initialized_def svc_View_def lookupView_def)
  next
    case (Some parent)
    then show ?thesis using d Inr inode_number_bound [OF Inr] assms(2) dent_bound [OF repr_wf [OF d(3)], of p x]
      by (cases "a_dents a p x")
        (auto simp: Lookup_def encodeInodeKey_number initialized_def svc_View_def lookupView_def decodeInodeID_def)
  qed
qed

section \<open>Paths\<close>

lemma lookupParts_repr:
  assumes r: "repr B d a" and "live ctx"
  shows "m < 2 ^ 64 \<Longrightarrow> lookupParts B ctx i d (FormatUint m) parts = rbind (walk a m parts) (\<lambda>n. Inr (FormatUint n))"
proof (induction parts arbitrary: i m)
  case (Cons x xs)
  show ?case
  proof (cases "x = [] \<or> x = ''.''")
    case False
    have m: "encodeInodeKey (FormatUint m) = Inr (encodeUint64BE m)"
      using Cons.prems by (simp add: encodeInodeKey_def ParseUint_FormatUint)
    show ?thesis
    proof (cases "a_inodes a m")
      case None
      then show ?thesis using False Cons.prems assms m by simp
    next
      case (Some inode)
      then show ?thesis using False Cons assms m dent_bound [OF repr_wf [OF r], of m x]
        by (cases "a_dents a m x") (auto simp: decodeInodeID_def)
    qed
  qed (use Cons in auto)
qed simp

lemma LookupPath_repr:
  assumes s: "svc_repr B s a" and l: "live ctx" and sb: "a_super a = Some sb" "sb_RootInodeID sb = FormatUint 0"
  shows "LookupPath B ctx path s = rbind (walk a 0 (path_parts path)) (\<lambda>n. Inr (FormatUint n))"
proof -
  obtain d where d: "db s = Some d" "isOpen s" "repr B d a" using s by (rule svc_reprE)
  have "loadSuperblock B d = Inr sb" using d(3) sb(1) by (simp add: loadSuperblock_def repr_get contents_simps)
  moreover have "walk a 0 (path_parts ''/'') = Inr 0" by (simp add: path_parts_def strings_Trim_def)
  ultimately show ?thesis using d l sb(2) lookupParts_repr [OF d(3) l, of 0]
    by (auto simp: LookupPath_def initialized_def svc_View_def path_parts_def)
qed

section \<open>Directories\<close>

lemma dentry_scan_set:
  assumes "repr B d a" and "p < 2 ^ 64"
  shows "(k, v) \<in> set (prefix_scan B dentriesBucket (encodeUint64BE p) d)
    \<longleftrightarrow> (\<exists>x c. k = encodeUint64BE p @ x \<and> a_dents a p x = Some c \<and> v = Raw (encodeUint64BE c))"
  using assms by (auto simp: scan_set has_prefix_iff repr_get contents_simps)

lemma directoryIsEmpty_repr:
  assumes "svc_repr B s a" and "live ctx"
  shows "directoryIsEmpty B ctx i s = rbind (wrap ''encode inode id'' (inode_number i)) (\<lambda>n.
     rbind (of_opt ErrNotFound (a_inodes a n)) (\<lambda>inode.
     if i_Type inode \<noteq> TypeDirectory then Inl ErrNotDir else Inr (\<forall>x. a_dents a n x = None)))"
proof (cases "inode_number i")
  case (Inl e)
  then show ?thesis using assms by (auto simp: directoryIsEmpty_def encodeInodeKey_number initialized_def svc_repr_def)
next
  case (Inr n)
  obtain d where d: "db s = Some d" "isOpen s" "repr B d a" using assms(1) by (rule svc_reprE)
  have n: "n < 2 ^ 64" using Inr by (rule inode_number_bound)
  have "(case bb_Cursor B dentriesBucket (encodeUint64BE n) d of [] \<Rightarrow> True | (k, _) # _ \<Rightarrow> \<not> has_prefix k (encodeUint64BE n))
      \<longleftrightarrow> prefix_scan B dentriesBucket (encodeUint64BE n) d = []"
    by (auto simp: prefix_scan_def split: list.split)
  also have "\<dots> \<longleftrightarrow> (\<forall>x. a_dents a n x = None)"
  proof -
    have "prefix_scan B dentriesBucket (encodeUint64BE n) d = [] \<longleftrightarrow> (\<forall>k v. (k, v) \<notin> set (prefix_scan B dentriesBucket (encodeUint64BE n) d))"
      by (metis list.set_intros(1) list.exhaust surj_pair set_empty2 empty_iff)
    also have "\<dots> \<longleftrightarrow> (\<forall>x. a_dents a n x = None)" unfolding dentry_scan_set [OF d(3) n]
      by (metis not_None_eq)
    finally show ?thesis .
  qed
  finally show ?thesis using d Inr n assms(2)
    by (cases "a_inodes a n") (simp_all add: directoryIsEmpty_def encodeInodeKey_number initialized_def svc_View_def)
qed

lemma readDirLoop_map:
  assumes r: "repr B d a" and l: "live ctx"
    and "\<forall>(k, v) \<in> set xs. \<exists>c. v = Raw (encodeUint64BE c) \<and> c < 2 ^ 64 \<and> a_inodes a c \<noteq> None"
  shows "readDirLoop B ctx i 8 d xs = Inr (map (dir_entry a) xs)"
  using assms(3)
proof (induction xs arbitrary: i)
  case (Cons x xs)
  then obtain k c j where x: "x = (k, Raw (encodeUint64BE c))" "c < 2 ^ 64" "a_inodes a c = Some j"
    by (cases x) auto
  then show ?case using Cons r l by (simp add: dir_entry_def Let_def)
qed simp

lemma readDirView_repr:
  assumes r: "repr B d a" and l: "live ctx" and p: "p < 2 ^ 64" and i: "a_inodes a p = Some parent" "i_Type parent = TypeDirectory"
    and ch: "\<forall>x c. a_dents a p x = Some c \<longrightarrow> a_inodes a c \<noteq> None"
  shows "\<exists>es. readDirView B ctx (encodeUint64BE p) d = Inr es \<and> listing a p es"
proof -
  let ?xs = "prefix_scan B dentriesBucket (encodeUint64BE p) d"
  have mem: "\<exists>x' c. k = encodeUint64BE p @ x' \<and> a_dents a p x' = Some c \<and> v = Raw (encodeUint64BE c) \<and> c < 2 ^ 64"
    if "(k, v) \<in> set ?xs" for k v
    using that dent_bound [OF repr_wf [OF r]] unfolding dentry_scan_set [OF r p] by blast
  have loop: "readDirLoop B ctx 1 8 d ?xs = Inr (map (dir_entry a) ?xs)"
    by (rule readDirLoop_map [OF r l]) (use mem ch in fastforce)
  have "sorted_wrt (<) (map de_Name (map (dir_entry a) ?xs))"
  proof -
    have "map fst ?xs = map (\<lambda>x. encodeUint64BE p @ x) (map de_Name (map (dir_entry a) ?xs))"
      by (auto simp: dir_entry_def Let_def dest!: mem)
    then have "sorted_wrt (<) (map (\<lambda>x. encodeUint64BE p @ x) (map de_Name (map (dir_entry a) ?xs)))"
      using scan_sorted by metis
    then show ?thesis by (simp only: sorted_wrt_map append_less_cancel)
  qed
  moreover have "e \<in> set (map (dir_entry a) ?xs) \<longleftrightarrow> (\<exists>c j. a_dents a p (de_Name e) = Some c \<and> a_inodes a c = Some j
      \<and> de_InodeID e = i_InodeID j \<and> de_Type e = i_Type j)" (is "?M \<longleftrightarrow> ?R") for e
  proof
    assume ?M
    then obtain k v where kv: "(k, v) \<in> set ?xs" "e = dir_entry a (k, v)" by auto
    obtain x c where x: "k = encodeUint64BE p @ x" "a_dents a p x = Some c" "v = Raw (encodeUint64BE c)" "c < 2 ^ 64"
      using mem [OF kv(1)] by blast
    with ch obtain j where "a_inodes a c = Some j" by blast
    then show ?R using kv(2) x by (auto simp: dir_entry_def Let_def)
  next
    assume ?R
    then obtain c j where c: "a_dents a p (de_Name e) = Some c" "a_inodes a c = Some j" "de_InodeID e = i_InodeID j" "de_Type e = i_Type j"
      by blast
    have "(encodeUint64BE p @ de_Name e, Raw (encodeUint64BE c)) \<in> set ?xs" using c(1) by (simp add: dentry_scan_set [OF r p])
    moreover have "dir_entry a (encodeUint64BE p @ de_Name e, Raw (encodeUint64BE c)) = e"
      using c dent_bound [OF repr_wf [OF r] c(1)] by (simp add: dir_entry_def Let_def)
    ultimately show ?M by (metis image_eqI image_set)
  qed
  ultimately show ?thesis using loop r p i by (simp add: readDirView_def listing_def)
qed

end

end
