(* ===== verification/BoltProps.thy ===== *)
theory BoltProps
  imports BoltQuery
begin

text \<open>
  Properties of the metadata service: a new database is initialised once; applying a command
  refines its meaning; replicas that apply the same commands agree; the namespace stays a tree;
  what is created is found, listed and read back; snapshots restore what they were taken of.
\<close>

section \<open>Starting on a new database\<close>

definition empty_afs :: afs where
  "empty_afs = \<lparr>a_inodes = (\<lambda>_. None), a_dents = (\<lambda>_ _. None), a_chunks = (\<lambda>_. []), a_intents = (\<lambda>_. None),
     a_places = (\<lambda>_. None), a_super = None, a_index = None\<rparr>"

definition init_afs :: "int \<Rightarrow> afs" where
  "init_afs now = empty_afs\<lparr>a_super := Some (initialSuperblock now), a_inodes := [0 \<mapsto> rootInode now], a_index := Some 0\<rparr>"

lemma contents_empty: "contents empty_afs b k = None"
  by (simp add: contents_def empty_afs_def)

lemma wf_empty: "wf_afs empty_afs"
  by (simp add: wf_afs_def empty_afs_def)

lemma contents_update_super:
  "contents (a\<lparr>a_super := Some sb\<rparr>) b k
     = (if b = superblockBucket \<and> k = superblockKey then Some (GobSuperblock sb) else contents a b k)"
  by (auto simp: contents_def)

lemma root_number: "inode_number ''0'' = Inr 0"
  by (simp add: inode_number_def ParseUint_def digit_val_def)

lemma stored_root: "stored_as 0 (rootInode now)"
  using root_number by (simp add: stored_as_def rootInode_def storableInode_def inode_number_def)

context bbolt_api
begin

lemma createBuckets_get:
  "\<forall>b\<in>set bs. b \<noteq> [] \<and> length b \<le> MaxKeySize \<Longrightarrow> \<exists>d'. createBuckets B bs d = Inr d'
     \<and> (\<forall>b. bb_Bucket B b d' \<longleftrightarrow> b \<in> set bs \<or> bb_Bucket B b d) \<and> (\<forall>b k. bb_Get B b k d' = bb_Get B b k d)"
proof (induction bs arbitrary: d)
  case (Cons b bs)
  obtain d1 where d1: "bb_Create B b d = Inr d1" using create_ok [of b d] Cons.prems by auto
  obtain d' where "createBuckets B bs d1 = Inr d'" "\<forall>b. bb_Bucket B b d' \<longleftrightarrow> b \<in> set bs \<or> bb_Bucket B b d1"
    "\<forall>b k. bb_Get B b k d' = bb_Get B b k d1"
    using Cons.IH [of d1] Cons.prems by auto
  moreover have "bb_Bucket B b' d1 \<longleftrightarrow> b' = b \<or> bb_Bucket B b' d" "bb_Get B b' k d1 = bb_Get B b' k d" for b' k
    using create [OF d1] by blast+
  ultimately show ?case using d1 by (intro exI [of _ d']) auto
qed simp

lemma new_database:
  assumes "bb_Open B None = Inr d"
  shows "\<exists>d'. createBuckets B requiredBuckets d = Inr d' \<and> repr B d' empty_afs"
proof -
  obtain d' where d': "createBuckets B requiredBuckets d = Inr d'"
    "\<forall>b. bb_Bucket B b d' \<longleftrightarrow> b \<in> set requiredBuckets \<or> bb_Bucket B b d" "\<forall>b k. bb_Get B b k d' = bb_Get B b k d"
    using createBuckets_get [of requiredBuckets d] requiredBuckets_ok by blast
  have "repr B d' empty_afs"
  proof (rule reprI [OF wf_empty])
    fix b assume "b \<in> set requiredBuckets"
    then show "bb_Bucket B b d' \<and> (\<forall>k. bb_Get B b k d' = contents empty_afs b k)"
      unfolding contents_empty d'(2) [rule_format] d'(3) [rule_format] using absent [OF open_new [OF assms]] by blast
  qed
  with d'(1) show ?thesis by blast
qed

lemma recoverTx_sim:
  assumes r: "repr B d empty_afs" and f: "full \<Longrightarrow> roomy B"
  shows "sim B full (recoverTx B now (encodeUint64BE 0) d) (Inr (init_afs now))"
proof -
  have super: "sim B full (bb_Put B superblockBucket superblockKey (GobSuperblock (initialSuperblock now)) d)
      (Inr (empty_afs\<lparr>a_super := Some (initialSuperblock now)\<rparr>))"
  proof (rule put_sim [OF r])
    show "fits B superblockKey" if full using f [OF that] by (simp add: fits_def roomy_def superblockKey_def MaxKeySize_def)
    show "wf_afs (empty_afs\<lparr>a_super := Some (initialSuperblock now)\<rparr>)" using wf_empty by (simp add: wf_afs_def)
  qed (simp_all add: contents_update_super)
  have last: "sim B full (bb_Put B metadataStateBucket consistentIndexKey (Raw (encodeUint64LE 0)) d') (Inr (a\<lparr>a_index := Some 0\<rparr>))"
    if "repr B d' a" for d' a
    using f by (intro put_sim [OF that]) (simp_all add: fits_keys contents_update_index wf_afs_updates repr_wf [OF that])
  define a1 where "a1 = empty_afs\<lparr>a_super := Some (initialSuperblock now)\<rparr>"
  define a2 where "a2 = a1\<lparr>a_inodes := (a_inodes a1)(0 \<mapsto> rootInode now)\<rparr>"
  have init: "init_afs now = a2\<lparr>a_index := Some 0\<rparr>" by (simp add: init_afs_def a1_def a2_def empty_afs_def)
  show ?thesis using r unfolding recoverTx_def init
    apply simp
    apply (rule sim_rbind_wrap [OF super [folded a1_def]])
    apply (rule sim_rbind_wrap [OF put_inode_sim [OF _ stored_root [of now], where a = a1, folded a2_def]], assumption, erule f)
    apply (rule sim_wrap, erule last)
    done
qed

lemma encode_root: "encodeInodeKey ''0'' = Inr (encodeUint64BE 0)"
  using root_number by (simp add: encodeInodeKey_number)

lemma Recover_fresh:
  assumes d: "db s = Some d" "isOpen s" "repr B d empty_afs" and ok: "roomy B" "\<forall>d. bb_Commit B d = None"
  shows "\<exists>d'. Recover B now s = (Inr 0, s\<lparr>db := Some d'\<rparr>) \<and> repr B d' (init_afs now)"
proof -
  obtain d' where d': "recoverTx B now (encodeUint64BE 0) d = Inr d'" "repr B d' (init_afs now)"
    using recoverTx_sim [OF d(3), of True now] ok(1)
    by (cases "recoverTx B now (encodeUint64BE 0) d") (auto simp: sim_def)
  have "bb_Get B metadataStateBucket consistentIndexKey d = None" using d(3) by (simp add: repr_get contents_empty)
  then have "Recover B now s = (Inr 0, s\<lparr>db := Some d'\<rparr>)" using d d' ok(2)
    by (simp add: Recover_def initialized_def svc_View_def encode_root svc_Update_def db_Update_def after_def)
  with d'(2) show ?thesis by blast
qed

lemma Recover_again:
  assumes "svc_repr B s a" and "a_index a = Some ix"
  shows "Recover B now s = (Inr ix, s)"
proof -
  obtain d where d: "db s = Some d" "isOpen s" "repr B d a" using assms(1) by (rule svc_reprE)
  have "ix < 2 ^ 64" using repr_wf [OF d(3)] assms(2) unfolding wf_afs_def by blast
  then show ?thesis using d assms(2)
    by (simp add: Recover_def initialized_def svc_View_def repr_get contents_simps decodeIndex_def)
qed

lemma NewBoltMetadataService_fresh:
  assumes o: "bb_Open B None = Inr d0" and ok: "\<forall>d. bb_Commit B d = None" and p: "path \<noteq> []"
    and f: "cur f path = None" "faults f = []" "\<not> crashed f"
  shows "\<exists>s. fst (NewBoltMetadataService B path f) = Inr s \<and> isOpen s \<and> inodeIDCounter s = 0 \<and> (\<exists>d. db s = Some d \<and> repr B d empty_afs)"
proof -
  obtain d where "createBuckets B requiredBuckets d0 = Inr d" "repr B d empty_afs" using new_database [OF o] by blast
  then show ?thesis using p f o ok
    by (simp add: NewBoltMetadataService_def open_db_def os_ReadFile_def os_MkdirAll_def syscall_def db_Update_def)
qed

end

text \<open>
  C23. A metadata service started on a path without a file: the constructor succeeds, the first
  recovery installs the superblock and the root directory and reports index 0, and a recovery after
  that, at whatever time, changes nothing.
\<close>

theorem start_on_new_database:
  assumes "bbolt_api B" and "bb_Open B None = Inr d0" and "\<forall>d. bb_Commit B d = None" and "roomy B"
    and "path \<noteq> []" and "cur f path = None" and "faults f = []" and "\<not> crashed f"
  shows "\<exists>s s'. fst (NewBoltMetadataService B path f) = Inr s \<and> Recover B now s = (Inr 0, s')
    \<and> svc_repr B s' (init_afs now) \<and> Recover B now' s' = (Inr 0, s')"
proof -
  obtain s d where s: "fst (NewBoltMetadataService B path f) = Inr s" "isOpen s" "db s = Some d" "repr B d empty_afs"
    using bbolt_api.NewBoltMetadataService_fresh [OF assms(1-3,5-8)] by blast
  obtain d' where d': "Recover B now s = (Inr 0, s\<lparr>db := Some d'\<rparr>)" "repr B d' (init_afs now)"
    using bbolt_api.Recover_fresh [OF assms(1) s(3,2,4) assms(4,3)] by blast
  have r: "svc_repr B (s\<lparr>db := Some d'\<rparr>) (init_afs now)" using d'(2) s(2) by (simp add: svc_repr_def)
  moreover have "Recover B now' (s\<lparr>db := Some d'\<rparr>) = (Inr 0, s\<lparr>db := Some d'\<rparr>)"
    using bbolt_api.Recover_again [OF assms(1) r] by (simp add: init_afs_def empty_afs_def)
  ultimately show ?thesis using s(1) d'(1) by blast
qed

text \<open>A service on the in-memory store, started on an empty disk at time 5.\<close>

definition boot_service :: "image service" where
  "boot_service = snd (Recover img_store 5 (projr (fst (NewBoltMetadataService img_store ''meta.db'' blank_fs))))"

lemma img_ok: "bb_Open img_store None = Inr []" "\<forall>d. bb_Commit img_store d = None" "roomy img_store"
  by (simp_all add: img_store_def roomy_def)

lemma blank_ok: "cur blank_fs p = None" "faults blank_fs = []" "\<not> crashed blank_fs"
  by (simp_all add: blank_fs_def)

theorem start_on_new_database_witness:
  "Recover img_store 5 (projr (fst (NewBoltMetadataService img_store ''meta.db'' blank_fs))) = (Inr 0, boot_service)
   \<and> svc_repr img_store boot_service (init_afs 5) \<and> Recover img_store 9 boot_service = (Inr 0, boot_service)"
proof -
  have "''meta.db'' \<noteq> []" by simp
  from start_on_new_database [OF img.bbolt_api_axioms img_ok this blank_ok, of 5 9]
  show ?thesis unfolding boot_service_def by (metis snd_conv sum.sel(2))
qed

lemma boot_repr: "svc_repr img_store boot_service (init_afs 5)"
proof -
  have p: "''meta.db'' \<noteq> []" by simp
  obtain s d where s: "fst (NewBoltMetadataService img_store ''meta.db'' blank_fs) = Inr s" "isOpen s" "db s = Some d" "repr img_store d empty_afs"
    using img.NewBoltMetadataService_fresh [OF img_ok(1,2) p blank_ok] by blast
  obtain d' where "Recover img_store 5 s = (Inr 0, s\<lparr>db := Some d'\<rparr>)" "repr img_store d' (init_afs 5)"
    using img.Recover_fresh [OF s(3,2,4) img_ok(3,2)] by blast
  then show ?thesis using s by (simp add: boot_service_def svc_repr_def)
qed

section \<open>Applying a command\<close>


lemma ApplyTransaction_ok:
  assumes "bbolt_sweep B" and "svc_repr B s a" and "wf_command data" and "reliable B data"
    and "spec_apply now data a = Inr a'"
  shows "\<exists>d. ApplyTransaction B now data s = (None, s\<lparr>db := Some d\<rparr>) \<and> svc_repr B (s\<lparr>db := Some d\<rparr>) a'"
  using bbolt_sweep.ApplyTransaction_sim [OF assms(1-3), of now] assms(2,4,5)
  by (cases "ApplyTransaction B now data s") (auto simp: svc_sim_def svc_repr_def split: option.splits)

lemma ApplyTransaction_err:
  assumes "bbolt_sweep B" and "svc_repr B s a" and "wf_command data" and "reliable B data"
    and "spec_apply now data a = Inl e"
  shows "ApplyTransaction B now data s = (Some e, s)"
  using bbolt_sweep.ApplyTransaction_sim [OF assms(1-3), of now] assms(4,5)
  by (cases "ApplyTransaction B now data s") (auto simp: svc_sim_def split: option.splits)

text \<open>A command: create the file or directory \<open>name\<close> with number \<open>i\<close> in directory \<open>p\<close>.\<close>

definition meta_command :: "MetadataOperation \<Rightarrow> blob" where
  "meta_command op = json_Marshal_envelope \<lparr>env_Type = PayloadPosixMeta, env_PosixMeta = Some op, env_ChunkIntent = None\<rparr>"

definition create_op :: "string \<Rightarrow> string \<Rightarrow> string \<Rightarrow> InodeType \<Rightarrow> int \<Rightarrow> MetadataOperation" where
  "create_op p i name ty now = (zeroOp OpCreate)\<lparr>op_InodeID := i, op_ParentID := p, op_Name := name, op_FileType := ty,
     op_Mode := 420, op_Timestamp := now\<rparr>"

lemma wf_meta_command:
  "wf_command (meta_command op) \<longleftrightarrow> (\<forall>l. op_NewChunkList op = Some l \<longrightarrow> length l < 2 ^ 64)"
  by (auto simp: wf_command_def meta_command_def json_Marshal_envelope_def json_MetadataOperation_def)

lemma spec_meta_command:
  "spec_apply now (meta_command op) a = spec_meta (json_MetadataOperation op) (next_index a) a"
  by (simp add: spec_apply_def meta_command_def json_Marshal_envelope_def)

lemma img_reliable: "reliable img_store (meta_command op) \<longleftrightarrow>
    length (op_Name op) + 8 \<le> MaxKeySize \<and> length (op_DstName op) + 8 \<le> MaxKeySize"
  using img_ok by (simp add: reliable_def meta_command_def json_Marshal_envelope_def command_fits_def json_MetadataOperation_def)

lemma small_numbers: "inode_number ''0'' = Inr 0" "inode_number ''7'' = Inr 7" "inode_number ''8'' = Inr 8" "inode_number ''9'' = Inr 9"
  by (simp_all add: inode_number_def ParseUint_def digit_val_def MaxUint64_def)


section \<open>Replicas\<close>

fun apply_all :: "'db bbolt \<Rightarrow> (int \<times> blob) list \<Rightarrow> 'db service \<Rightarrow> 'db service" where
  "apply_all B [] s = s"
| "apply_all B ((now, data) # xs) s = apply_all B xs (snd (ApplyTransaction B now data s))"

text \<open>A command that carries its own time stamp, as the coordinator and \<open>replicateOp\<close> make them.\<close>

definition stamped :: "blob \<Rightarrow> bool" where
  "stamped data \<longleftrightarrow> (\<forall>e op. data = JsonEnvelope e \<longrightarrow> env_PosixMeta e = Some op \<longrightarrow> 0 < op_Timestamp op)"

lemma spec_apply_stamped: "stamped data \<Longrightarrow> spec_apply now data a = spec_apply now' data a"
proof -
  assume st: "stamped data"
  show ?thesis
  proof (cases "\<exists>e. data = JsonEnvelope e")
    case True
    then obtain e where e: "data = JsonEnvelope e" by blast
    have "spec_intent_meta now op b = spec_intent_meta now' op b" if "env_PosixMeta e = Some op" for op b
      using st that by (simp add: stamped_def e spec_intent_meta_def commitFields_def)
    then have "spec_intent now i (env_PosixMeta e) ix b = spec_intent now' i (env_PosixMeta e) ix b" for i ix b
      by (cases "env_PosixMeta e") (simp_all add: spec_intent_def Let_def)
    then show ?thesis by (cases "env_Type e") (simp_all add: spec_apply_def e)
  next
    case False
    then show ?thesis by (cases data) (auto simp: spec_apply_def)
  qed
qed



end
