(* ===== verification/BoltTree.thy ===== *)
theory BoltTree
  imports BoltProps
begin

text \<open>
  The namespace: when the directory entries form a tree rooted at inode 0 that covers all inodes,
  which commands keep it one, and commands the service accepts that do not.
\<close>

section \<open>Trees\<close>

definition edge :: "afs \<Rightarrow> (nat \<times> nat) set" where
  "edge a = {(p, c). \<exists>x. a_dents a p x = Some c}"

definition is_dir :: "afs \<Rightarrow> nat \<Rightarrow> bool" where
  "is_dir a n \<longleftrightarrow> (\<exists>i. a_inodes a n = Some i \<and> i_Type i = TypeDirectory)"

text \<open>
  The root is a directory; an entry leads from an existing directory to an existing inode other
  than the root; no inode has two entries; every inode is reached from the root.
\<close>

definition tree :: "afs \<Rightarrow> bool" where
  "tree a \<longleftrightarrow> is_dir a 0
     \<and> (\<forall>p x c. a_dents a p x = Some c \<longrightarrow> is_dir a p \<and> a_inodes a c \<noteq> None \<and> c \<noteq> 0)
     \<and> (\<forall>p x q y c. a_dents a p x = Some c \<longrightarrow> a_dents a q y = Some c \<longrightarrow> p = q \<and> x = y)
     \<and> (\<forall>n. a_inodes a n \<noteq> None \<longrightarrow> (0, n) \<in> (edge a)\<^sup>*)"

text \<open>
  The commands that are safe in a state: a creation with a fresh inode number; the removal of a file
  or of an empty directory; a rename into a directory that does not lie below the renamed entry and
  that replaces at most a file or an empty directory; and everything that is not about entries.
\<close>

definition safe_op :: "afs \<Rightarrow> MetadataOperation \<Rightarrow> bool" where
  "safe_op a op =
     (case op_Type op of
        OpCreate \<Rightarrow> (\<forall>c. inode_number (op_InodeID op) = Inr c \<longrightarrow> a_inodes a c = None)
      | OpRemove \<Rightarrow> (\<forall>p c. inode_number (op_ParentID op) = Inr p \<longrightarrow> a_dents a p (op_Name op) = Some c \<longrightarrow>
                      (\<forall>y. a_dents a c y = None))
      | OpRename \<Rightarrow> (\<forall>p q c. inode_number (op_ParentID op) = Inr p \<longrightarrow> inode_number (op_DstParentID op) = Inr q \<longrightarrow>
                      a_dents a p (op_Name op) = Some c \<longrightarrow>
                      is_dir a q \<and> (c, q) \<notin> (edge a)\<^sup>* \<and>
                      (\<forall>r. a_dents a q (op_DstName op) = Some r \<longrightarrow> (p, op_Name op) \<noteq> (q, op_DstName op) \<longrightarrow>
                           (\<forall>y. a_dents a r y = None)))
      | _ \<Rightarrow> True)"

definition safe_command :: "afs \<Rightarrow> blob \<Rightarrow> bool" where
  "safe_command a data \<longleftrightarrow> (\<forall>e op. data = JsonEnvelope e \<longrightarrow> env_Type e = PayloadPosixMeta \<longrightarrow>
     env_PosixMeta e = Some op \<longrightarrow> safe_op a op)"

lemma touched_Type [simp]: "i_Type (touched t i) = i_Type i"
  by (simp add: touched_def)

lemma attr_Type [simp]: "i_Type (setAttrs op i) = i_Type i" "i_Type (updateFields op i) = i_Type i"
  "i_Type (commitFields now op i) = i_Type i"
  by (simp_all add: setAttrs_def updateFields_def commitFields_def Let_def split: option.split)

lemma treeI:
  assumes "is_dir a 0"
    and "\<And>p x c. a_dents a p x = Some c \<Longrightarrow> is_dir a p \<and> a_inodes a c \<noteq> None \<and> c \<noteq> 0"
    and "\<And>p x q y c. a_dents a p x = Some c \<Longrightarrow> a_dents a q y = Some c \<Longrightarrow> p = q \<and> x = y"
    and "\<And>n. a_inodes a n \<noteq> None \<Longrightarrow> (0, n) \<in> (edge a)\<^sup>*"
  shows "tree a"
  using assms unfolding tree_def by blast

lemma treeD:
  assumes "tree a"
  shows "is_dir a 0"
    and "a_dents a p x = Some c \<Longrightarrow> is_dir a p" and "a_dents a p x = Some c \<Longrightarrow> a_inodes a c \<noteq> None"
    and "a_dents a p x = Some c \<Longrightarrow> c \<noteq> 0"
    and "a_dents a p x = Some c \<Longrightarrow> a_dents a q y = Some c \<Longrightarrow> p = q \<and> x = y"
    and "a_inodes a n \<noteq> None \<Longrightarrow> (0, n) \<in> (edge a)\<^sup>*"
  using assms unfolding tree_def by blast+

lemma edgeI: "a_dents a u x = Some v \<Longrightarrow> (u, v) \<in> edge a"
  by (auto simp: edge_def)

lemma is_dir_exists: "is_dir a n \<Longrightarrow> a_inodes a n \<noteq> None"
  by (auto simp: is_dir_def)

text \<open>A change that keeps the entries and the types of the inodes keeps the tree.\<close>

lemma tree_cong:
  assumes "tree a" and "a_dents b = a_dents a" and "\<And>n. map_option i_Type (a_inodes b n) = map_option i_Type (a_inodes a n)"
  shows "tree b"
proof -
  have d: "is_dir b n = is_dir a n" for n
  proof -
    have "is_dir x n \<longleftrightarrow> map_option i_Type (a_inodes x n) = Some TypeDirectory" for x by (auto simp: is_dir_def)
    then show ?thesis by (simp only: assms(3))
  qed
  have n: "a_inodes b n = None \<longleftrightarrow> a_inodes a n = None" for n using assms(3) [of n] by (metis map_option_is_None)
  have e: "edge b = edge a" by (simp add: edge_def assms(2))
  show ?thesis using assms(1) by (simp add: tree_def d n e assms(2))
qed

lemma tree_create:
  assumes t: "tree a" and s: "spec_create op ix a = Inr b"
    and f: "\<forall>c. inode_number (op_InodeID op) = Inr c \<longrightarrow> a_inodes a c = None"
  shows "tree b"
proof -
  obtain p c parent where p: "inode_number (op_ParentID op) = Inr p" and c: "inode_number (op_InodeID op) = Inr c"
    and par: "a_inodes a p = Some parent" "i_Type parent = TypeDirectory" and free: "a_dents a p (op_Name op) = None"
    using s by (auto simp: spec_create_def result_simps split: if_splits)
  define i where "i = touched (op_Timestamp op) (if op_FileType op = TypeDirectory
    then parent\<lparr>i_LinkCount := int64 (i_LinkCount parent + 1)\<rparr> else parent)"
  have b: "a_dents b = (a_dents a)(p := (a_dents a p)(op_Name op \<mapsto> c))" and i: "a_inodes b = (a_inodes a)(c \<mapsto> newInode op, p \<mapsto> i)"
    using s p c par free unfolding i_def by (auto simp: spec_create_def Let_def)
  have it: "i_Type i = TypeDirectory" using par(2) by (simp add: i_def)
  have fc: "a_inodes a c = None" using f c by blast
  have cp: "c \<noteq> p" using fc par by auto
  have c0: "c \<noteq> 0" using fc is_dir_exists [OF treeD(1) [OF t]] by metis
  have nc: "a_dents a q y \<noteq> Some c" "a_dents a c y = None" for q y
    using fc treeD(3) [OF t] is_dir_exists [OF treeD(2) [OF t]] by (metis, metis not_None_eq)
  have dir: "is_dir b n" if "is_dir a n" for n using that i it fc by (auto simp: is_dir_def)
  have pd: "is_dir b p" using i it by (simp add: is_dir_def)
  have bd: "a_dents b q x = (if q = p \<and> x = op_Name op then Some c else a_dents a q x)" for q x by (simp add: b)
  have "(u, v) \<in> edge b \<longleftrightarrow> (u, v) = (p, c) \<or> (u, v) \<in> edge a" for u v
    using free unfolding edge_def mem_Collect_eq case_prod_conv bd by (metis option.distinct(1) option.sel prod.inject)
  then have e: "edge b = insert (p, c) (edge a)" by auto
  have reach: "(0, n) \<in> (edge b)\<^sup>*" if "(0, n) \<in> (edge a)\<^sup>*" for n
    using that rtrancl_mono [of "edge a" "edge b"] e by blast
  have p0: "(0, p) \<in> (edge b)\<^sup>*" using reach treeD(6) [OF t, of p] par(1) by simp
  show ?thesis
  proof (rule treeI)
    show "is_dir b 0" using dir treeD(1) [OF t] .
    fix q x k assume k: "a_dents b q x = Some k"
    show "is_dir b q \<and> a_inodes b k \<noteq> None \<and> k \<noteq> 0"
    proof (cases "q = p \<and> x = op_Name op")
      case True
      then show ?thesis using k pd c0 i by (auto simp: bd)
    next
      case False
      then have "a_dents a q x = Some k" using k by (auto simp: bd split: if_splits)
      then show ?thesis using dir treeD(2-4) [OF t] i by auto
    qed
    fix r y assume "a_dents b r y = Some k"
    then show "q = r \<and> x = y" using k nc treeD(5) [OF t] by (auto simp: bd split: if_splits)
  next
    fix n assume n: "a_inodes b n \<noteq> None"
    show "(0, n) \<in> (edge b)\<^sup>*"
    proof (cases "n = c")
      case True
      have "(p, c) \<in> edge b" using e by simp
      with p0 show ?thesis unfolding True by (rule rtrancl_into_rtrancl)
    next
      case False
      then show ?thesis using n i p0 reach treeD(6) [OF t, of n] by (auto split: if_splits)
    qed
  qed
qed

lemma tree_remove:
  assumes t: "tree a" and s: "spec_remove op ix a = Inr b"
    and f: "\<forall>p c. inode_number (op_ParentID op) = Inr p \<longrightarrow> a_dents a p (op_Name op) = Some c \<longrightarrow> (\<forall>y. a_dents a c y = None)"
  shows "tree b"
proof -
  obtain p c parent child where p: "inode_number (op_ParentID op) = Inr p" and c: "a_dents a p (op_Name op) = Some c"
    and par: "a_inodes a p = Some parent" and ch: "a_inodes a c = Some child"
    using s by (auto simp: spec_remove_def result_simps)
  define i where "i = touched (op_Timestamp op) (if i_Type child = TypeDirectory
    then parent\<lparr>i_LinkCount := int64 (i_LinkCount parent - 1)\<rparr> else parent)"
  have bd: "a_dents b q x = (if q = p \<and> x = op_Name op then None else a_dents a q x)"
    and bi: "a_inodes b = ((a_inodes a)(c := None))(p \<mapsto> i)" for q x
    using s p c par ch unfolding i_def by (auto simp: spec_remove_def Let_def)
  have leaf: "a_dents a c y = None" for y using f p c by blast
  have cp: "c \<noteq> p" using leaf c by auto
  have it: "i_Type i = TypeDirectory" using treeD(2) [OF t c] par by (auto simp: i_def is_dir_def)
  have dir: "is_dir b n" if "is_dir a n" "n \<noteq> c" for n using that bi it by (auto simp: is_dir_def)
  have keep: "a_inodes b n \<noteq> None" if "a_inodes a n \<noteq> None" "n \<noteq> c" for n using that bi by simp
  have only: "q = p \<and> x = op_Name op" if "a_dents a q x = Some c" for q x using treeD(5) [OF t that c] .
  have sub: "q \<noteq> c" if "a_dents a q x = Some k" for q x k using that leaf by auto
  have reach: "n \<noteq> c \<longrightarrow> (0, n) \<in> (edge b)\<^sup>*" if "(0, n) \<in> (edge a)\<^sup>*" for n
    using that
  proof (induction rule: rtrancl_induct)
    case (step u v)
    then obtain x where x: "a_dents a u x = Some v" by (auto simp: edge_def)
    have "v \<noteq> c \<Longrightarrow> a_dents b u x = Some v" using x bd [of u x] c by (auto split: if_splits)
    then show ?case using step.IH sub [OF x] by (meson edgeI rtrancl.rtrancl_into_rtrancl)
  qed simp
  show ?thesis
  proof (rule treeI)
    show "is_dir b 0" using dir treeD(1,4) [OF t] c by metis
    fix q x k assume "a_dents b q x = Some k"
    then have k: "a_dents a q x = Some k" "(q, x) \<noteq> (p, op_Name op)" using bd [of q x] by (auto split: if_splits)
    have kc: "k \<noteq> c" using only [of q x] k by auto
    show "is_dir b q \<and> a_inodes b k \<noteq> None \<and> k \<noteq> 0"
      using dir keep kc sub [OF k(1)] treeD(2-4) [OF t k(1)] by simp
    fix r y assume "a_dents b r y = Some k"
    then show "q = r \<and> x = y" using treeD(5) [OF t k(1)] bd [of r y] by (auto split: if_splits)
  next
    fix n assume "a_inodes b n \<noteq> None"
    then have "n \<noteq> c" "a_inodes a n \<noteq> None" using bi cp par by (auto split: if_splits)
    then show "(0, n) \<in> (edge b)\<^sup>*" using reach treeD(6) [OF t] by blast
  qed
qed

lemma tree_rename:
  assumes t: "tree a" and s: "spec_rename op ix a = Inr b" and ty: "op_Type op = OpRename" and f: "safe_op a op"
  shows "tree b"
proof -
  obtain p q c sp dp where p: "inode_number (op_ParentID op) = Inr p" and q: "inode_number (op_DstParentID op) = Inr q"
    and c: "a_dents a p (op_Name op) = Some c" and sp: "a_inodes a p = Some sp" and dp: "a_inodes a q = Some dp"
    using s by (auto simp: spec_rename_def result_simps)
  define x where "x = op_Name op"
  define z where "z = op_DstName op"
  have c: "a_dents a p x = Some c" using c by (simp add: x_def)
  have qd: "is_dir a q" and cq: "(c, q) \<notin> (edge a)\<^sup>*"
    and leaf: "\<And>r y. a_dents a q z = Some r \<Longrightarrow> (p, x) \<noteq> (q, z) \<Longrightarrow> a_dents a r y = None"
    using f p q c ty by (auto simp: safe_op_def x_def z_def)
  define gone where "gone = (if (p, x) = (q, z) then None else a_dents a q z)"
  have bd: "a_dents b u y = (if (u, y) = (q, z) then Some c else if (u, y) = (p, x) then None else a_dents a u y)" for u y
    using s p q c sp dp by (auto simp: spec_rename_def Let_def x_def z_def)
  have g: "((a_dents a)(p := (a_dents a p)(x := None))) q z = gone" by (auto simp: gone_def)
  have "a_inodes b = (case gone of None \<Rightarrow> a_inodes a | Some r \<Rightarrow> (a_inodes a)(r := None))
      (p \<mapsto> touched (op_Timestamp op) sp, q \<mapsto> touched (op_Timestamp op) dp)"
    using s p q c sp dp g unfolding x_def z_def by (auto simp: spec_rename_def Let_def simp del: fun_upd_apply)
  then have bi: "a_inodes b n = (if n = q then Some (touched (op_Timestamp op) dp) else if n = p then Some (touched (op_Timestamp op) sp)
      else if Some n = gone then None else a_inodes a n)" for n
    by (cases gone) auto
  have gl: "a_dents a r y = None" if "Some r = gone" for r y using that leaf by (auto simp: gone_def split: if_splits)
  have gp: "Some p \<noteq> gone" using gl [of p x] c by auto
  have gq: "Some q \<noteq> gone" using gl [of q z] by (auto simp: gone_def split: if_splits)
  have g0: "Some 0 \<noteq> gone" using treeD(4) [OF t, of q z 0] by (auto simp: gone_def split: if_splits)
  have gc: "Some c \<noteq> gone" using treeD(5) [OF t c, of q z] by (auto simp: gone_def split: if_splits)
  have pd: "is_dir a p" using treeD(2) [OF t c] .
  have dir: "is_dir b n" if "is_dir a n" "Some n \<noteq> gone" for n
    using that pd qd sp dp by (auto simp: is_dir_def bi)
  have keep: "a_inodes b n \<noteq> None" if "a_inodes a n \<noteq> None" "Some n \<noteq> gone" for n using that by (simp add: bi)
  have tgt: "Some v \<noteq> gone" if "a_dents a u y = Some v" "(u, y) \<noteq> (q, z)" for u y v
    using that treeD(5) [OF t that(1), of q z] by (auto simp: gone_def split: if_splits)
  have src: "Some u \<noteq> gone" if "a_dents a u y = Some v" for u y v using gl that by force
  have old: "a_dents b u y = Some v" if "a_dents a u y = Some v" "v \<noteq> c" "Some v \<noteq> gone" for u y v
    using that c by (auto simp: bd gone_def split: if_splits)
  have far: "(c, n) \<notin> (edge a)\<^sup>* \<longrightarrow> Some n \<noteq> gone \<longrightarrow> (0, n) \<in> (edge b)\<^sup>*" if "(0, n) \<in> (edge a)\<^sup>*" for n
    using that
  proof (induction rule: rtrancl_induct)
    case (step u v)
    then obtain y where y: "a_dents a u y = Some v" by (auto simp: edge_def)
    show ?case
    proof (intro impI)
      assume v: "(c, v) \<notin> (edge a)\<^sup>*" "Some v \<noteq> gone"
      then have "(c, u) \<notin> (edge a)\<^sup>*" using step.hyps(2) by (meson rtrancl.rtrancl_into_rtrancl)
      then have "(0, u) \<in> (edge b)\<^sup>*" using step.IH src [OF y] by blast
      moreover have "(u, v) \<in> edge b" using old [OF y] v by (metis edgeI rtrancl.rtrancl_refl)
      ultimately show "(0, v) \<in> (edge b)\<^sup>*" by (rule rtrancl_into_rtrancl)
    qed
  qed simp
  have "(0, q) \<in> (edge b)\<^sup>*" using far [OF treeD(6) [OF t is_dir_exists [OF qd]]] cq gq by blast
  moreover have "(q, c) \<in> edge b" by (rule edgeI [of _ _ z]) (simp add: bd)
  ultimately have c0: "(0, c) \<in> (edge b)\<^sup>*" by (rule rtrancl_into_rtrancl)
  have near: "Some n \<noteq> gone \<longrightarrow> (0, n) \<in> (edge b)\<^sup>*" if "(c, n) \<in> (edge a)\<^sup>*" for n
    using that
  proof (induction rule: rtrancl_induct)
    case base
    show ?case using c0 by simp
  next
    case (step u v)
    then obtain y where y: "a_dents a u y = Some v" by (auto simp: edge_def)
    then show ?case using old [OF y] step.IH src [OF y] c0 by (metis edgeI rtrancl.rtrancl_into_rtrancl)
  qed
  show ?thesis
  proof (rule treeI)
    show "is_dir b 0" using dir treeD(1) [OF t] g0 by blast
    fix u y k assume k: "a_dents b u y = Some k"
    show "is_dir b u \<and> a_inodes b k \<noteq> None \<and> k \<noteq> 0"
    proof (cases "(u, y) = (q, z)")
      case True
      then show ?thesis using k bd dir [OF qd gq] keep [OF treeD(3) [OF t c] gc] treeD(4) [OF t c] by auto
    next
      case False
      then have "a_dents a u y = Some k" using k by (auto simp: bd split: if_splits)
      then show ?thesis using dir keep tgt False src treeD(2-4) [OF t] by metis
    qed
    fix r w assume "a_dents b r w = Some k"
    then show "u = r \<and> y = w" using k treeD(5) [OF t, of _ _ k] treeD(5) [OF t c] by (auto simp: bd split: if_splits)
  next
    fix n assume n: "a_inodes b n \<noteq> None"
    then have "a_inodes a n \<noteq> None" "Some n \<noteq> gone" using sp dp gp gq by (auto simp: bi split: if_splits)
    then show "(0, n) \<in> (edge b)\<^sup>*" using near far treeD(6) [OF t] by blast
  qed
qed

lemma spec_chunks_dents [simp]: "a_dents (spec_chunks op n a) = a_dents a"
  by (simp add: spec_chunks_def split: option.split)

lemma tree_spec_apply:
  assumes t: "tree a" and s: "spec_apply now data a = Inr b" and f: "safe_command a data"
  shows "tree b"
proof -
  obtain e where e: "data = JsonEnvelope e" using s by (cases data) (auto simp: spec_apply_def)
  show ?thesis
  proof (cases "env_Type e")
    case PayloadPosixMeta
    then obtain op where op: "env_PosixMeta e = Some op" and m: "spec_meta op (next_index a) a = Inr b"
      using s by (auto simp: spec_apply_def e result_simps)
    have sf: "safe_op a op" using f op PayloadPosixMeta by (simp add: safe_command_def e)
    show ?thesis
    proof (cases "op_Type op")
      case OpCreate
      then show ?thesis using tree_create [OF t] m sf by (auto simp: spec_meta_def safe_op_def)
    next
      case OpRemove
      then show ?thesis using tree_remove [OF t] m sf by (auto simp: spec_meta_def safe_op_def)
    next
      case OpRename
      then show ?thesis using tree_rename [OF t] m sf by (simp add: spec_meta_def)
    next
      case OpSetAttr
      then show ?thesis using m by (auto simp: spec_meta_def spec_setattr_def result_simps intro!: tree_cong [OF t])
    next
      case OpUpdateInode
      then show ?thesis using m by (auto simp: spec_meta_def spec_update_def result_simps intro!: tree_cong [OF t])
    next
      case (OpOther x)
      then show ?thesis using m by (simp add: spec_meta_def)
    qed
  next
    case PayloadChunkIntent
    then show ?thesis using s
      by (auto simp: spec_apply_def e result_simps spec_intent_def spec_intent_meta_def Let_def
          intro!: tree_cong [OF t] split: option.splits if_splits)
  next
    case (PayloadOther x)
    then show ?thesis using s by (simp add: spec_apply_def e)
  qed
qed

section \<open>The service keeps the tree\<close>


lemma tree_init: "tree (init_afs now)"
  by (auto simp: tree_def is_dir_def init_afs_def empty_afs_def rootInode_def split: if_splits)


end
