(* ===== verification/BoltClient.thy ===== *)
theory BoltClient
  imports BoltTree
begin

text \<open>
  The operations clients call, over a replicator that applies the submitted command before it
  returns and no other in between (\<open>direct\<close>; the interleaving with other commands is the order in which they
  are applied): creation and look-up, listing and its pages, removal of directories, permissions, chunk lists,
  chunk intents, and snapshots.
\<close>

definition direct :: "'db bbolt \<Rightarrow> int \<Rightarrow> 'db replicate" where
  "direct B now = ApplyTransaction B now"

text \<open>A store that takes every value and every commit.\<close>

definition dependable :: "'db bbolt \<Rightarrow> bool" where
  "dependable B \<longleftrightarrow> roomy B \<and> (\<forall>d. bb_Commit B d = None)"

lemma img_dependable: "dependable img_store"
  using img_ok by (simp add: dependable_def)

lemma replicateOp_direct:
  assumes "replicator s"
  shows "replicateOp (direct B now') opid now op s = ApplyTransaction B now' (meta_command (op\<lparr>op_OpID := opid, op_Timestamp := now\<rparr>)) s"
  using assms by (simp add: replicateOp_def direct_def meta_command_def)

lemma reliable_meta:
  "dependable B \<Longrightarrow> length (op_Name op) + 8 \<le> MaxKeySize \<Longrightarrow> length (op_DstName op) + 8 \<le> MaxKeySize \<Longrightarrow> reliable B (meta_command op)"
  by (simp add: dependable_def reliable_def meta_command_def json_Marshal_envelope_def command_fits_def json_MetadataOperation_def)

section \<open>Creating\<close>

definition new_number :: "int \<Rightarrow> 'db service \<Rightarrow> nat" where
  "new_number now s = inc64 (if inodeIDCounter s = 0 then uint64 now else inodeIDCounter s)"

lemma nextInodeID_number: "nextInodeID now s = (FormatUint (new_number now s), s\<lparr>inodeIDCounter := new_number now s\<rparr>)"
  by (simp add: nextInodeID_def new_number_def Let_def)

lemma inode_number_Format: "n < 2 ^ 64 \<Longrightarrow> inode_number (FormatUint n) = Inr n"
  by (simp add: inode_number_def ParseUint_FormatUint)

lemma new_number_bound: "new_number now s < 2 ^ 64"
  by (simp add: new_number_def inc64_def)

lemma svc_repr_counter [simp]: "svc_repr B (s\<lparr>inodeIDCounter := c\<rparr>) a = svc_repr B s a"
  by (simp add: svc_repr_def)

text \<open>The state after creating \<open>name\<close> under \<open>p\<close>.\<close>

definition created :: "nat \<Rightarrow> nat \<Rightarrow> MetadataOperation \<Rightarrow> afs \<Rightarrow> afs \<Rightarrow> bool" where
  "created p c op a a' \<longleftrightarrow> a_dents a' = (a_dents a)(p := (a_dents a p)(op_Name op \<mapsto> c))
     \<and> a_inodes a' c = Some (newInode op) \<and> is_dir a' p \<and> a_chunks a' = a_chunks a \<and> a_super a' = a_super a
     \<and> (\<forall>n. n \<noteq> c \<and> n \<noteq> p \<longrightarrow> a_inodes a' n = a_inodes a n)"

lemma create_applies:
  assumes B: "bbolt_sweep B" "dependable B" and r: "svc_repr B s a" and p: "inode_number (op_ParentID op) = Inr p" "is_dir a p"
    and c: "inode_number (op_InodeID op) = Inr c" "a_inodes a c = None" and free: "a_dents a p (op_Name op) = None"
    and op: "op_Type op = OpCreate" "op_NewChunkList op = None" "length (op_Name op) + 8 \<le> MaxKeySize" "op_DstName op = []"
  shows "\<exists>a' d. ApplyTransaction B now (meta_command op) s = (None, s\<lparr>db := Some d\<rparr>) \<and> svc_repr B (s\<lparr>db := Some d\<rparr>) a' \<and> created p c op a a'"
proof -
  obtain parent where par: "a_inodes a p = Some parent" "i_Type parent = TypeDirectory" using p(2) by (auto simp: is_dir_def)
  have cp: "c \<noteq> p" using c(2) par(1) by auto
  have j: "json_MetadataOperation op = op" using op(2) by (simp add: json_MetadataOperation_def)
  obtain a' where a': "spec_apply now (meta_command op) a = Inr a'" "created p c op a a'"
    using p c free op par cp by (auto simp: spec_meta_command j spec_meta_def spec_create_def Let_def created_def is_dir_def)
  have "wf_command (meta_command op)" "reliable B (meta_command op)"
    using op B(2) by (simp_all add: wf_meta_command reliable_meta MaxKeySize_def)
  then show ?thesis using ApplyTransaction_ok [OF B(1) r _ _ a'(1)] a'(2) by blast
qed

lemma createGuard_repr:
  assumes "bbolt_api B" "svc_repr B s a" "live ctx" "inode_number parentID = Inr p" "is_dir a p" "a_dents a p name = None"
  shows "createGuard B ctx parentID name s = Inr ()"
  using assms(4-6) by (auto simp: createGuard_def bbolt_api.GetInode_repr [OF assms(1-3)]
      bbolt_api.Lookup_repr [OF assms(1,2)] assms(3) is_dir_def bbolt_api.live_polled [OF assms(1)])


definition run_service :: "image service" where
  "run_service = SetReplicator True boot_service"

definition calm :: ctxt where
  "calm = (\<lambda>_. None)"

lemma run_repr: "svc_repr img_store run_service (init_afs 5)" "replicator run_service" "live calm"
  using boot_repr by (simp_all add: run_service_def SetReplicator_def svc_repr_def live_def calm_def)

lemma root_dir: "is_dir (init_afs t) 0" "a_dents (init_afs t) n x = None" "a_chunks (init_afs t) n = []"
  by (simp_all add: is_dir_def init_afs_def empty_afs_def rootInode_def)

lemma boot_counter: "inodeIDCounter run_service = 0"
proof -
  have p: "''meta.db'' \<noteq> []" by simp
  obtain s d where s: "fst (NewBoltMetadataService img_store ''meta.db'' blank_fs) = Inr s" "isOpen s" "inodeIDCounter s = 0"
    "db s = Some d" "repr img_store d empty_afs"
    using img.NewBoltMetadataService_fresh [OF img_ok(1,2) p blank_ok] by blast
  obtain d' where "Recover img_store 5 s = (Inr 0, s\<lparr>db := Some d'\<rparr>)"
    using img.Recover_fresh [OF s(4,2,5) img_ok(3,2)] by blast
  then show ?thesis using s by (simp add: run_service_def SetReplicator_def boot_service_def)
qed


section \<open>Removing\<close>

text \<open>A service with the directory \<open>/d\<close> (inode 7) and the file \<open>/d/f\<close> (inode 8).\<close>

definition nested_service :: "image service" where
  "nested_service = apply_all img_store [(6, meta_command (create_op ''0'' ''7'' ''d'' TypeDirectory 6)),
     (6, meta_command (create_op ''7'' ''8'' ''f'' TypeFile 6))] run_service"

lemma create_command_tree:
  assumes B: "bbolt_sweep B" "dependable B" and r: "svc_repr B s a" and t: "tree a" and p: "inode_number p0 = Inr p" "is_dir a p"
    and c: "inode_number c0 = Inr c" "a_inodes a c = None" and free: "a_dents a p x = None" and l: "length x + 8 \<le> MaxKeySize"
  shows "\<exists>a' d. ApplyTransaction B now (meta_command (create_op p0 c0 x ty now)) s = (None, s\<lparr>db := Some d\<rparr>)
     \<and> svc_repr B (s\<lparr>db := Some d\<rparr>) a' \<and> tree a' \<and> created p c (create_op p0 c0 x ty now) a a'"
proof -
  let ?op = "create_op p0 c0 x ty now"
  obtain a' d where a': "ApplyTransaction B now (meta_command ?op) s = (None, s\<lparr>db := Some d\<rparr>)" "svc_repr B (s\<lparr>db := Some d\<rparr>) a'"
    "created p c ?op a a'"
    using create_applies [OF B r, of ?op p c now] p c free l by (auto simp: create_op_def zeroOp_def)
  have w: "wf_command (meta_command ?op)" by (simp add: wf_meta_command create_op_def zeroOp_def)
  obtain a2 d2 where a2: "repr B d2 a2" "s\<lparr>db := Some d\<rparr> = s\<lparr>db := Some d2\<rparr>" "spec_apply now (meta_command ?op) a = Inr a2"
    using bbolt_sweep.ApplyTransaction_sim [OF B(1) r w, of now] a'(1) by (auto simp: svc_sim_def)
  have "spec_apply now (meta_command ?op) a = spec_create ?op (next_index a) a"
    by (simp add: spec_meta_command json_MetadataOperation_def spec_meta_def create_op_def zeroOp_def)
  then have s2: "spec_create ?op (next_index a) a = Inr a2" using a2(3) by simp
  have "tree a2" using tree_create [OF t s2] c by (simp add: create_op_def)
  moreover have "svc_repr B (s\<lparr>db := Some d\<rparr>) a2" using a2(1,2) a'(2) by (auto simp: svc_repr_def)
  moreover have "created p c ?op a a2" using s2 p c free by (auto simp: spec_create_def Let_def created_def is_dir_def create_op_def)
  ultimately show ?thesis using a'(1) by blast
qed

lemma nested_repr:
  "\<exists>a. svc_repr img_store nested_service a \<and> tree a \<and> a_dents a 0 ''d'' = Some 7 \<and> a_dents a 7 = [''f'' \<mapsto> 8] \<and> is_dir a 7"
  "replicator nested_service"
proof -
  have l: "length ''d'' + 8 \<le> MaxKeySize" "length ''f'' + 8 \<le> MaxKeySize" by (simp_all add: MaxKeySize_def)
  have n: "a_inodes (init_afs 5) 7 = None" by (simp add: init_afs_def empty_afs_def)
  obtain a1 d1 where 1: "ApplyTransaction img_store 6 (meta_command (create_op ''0'' ''7'' ''d'' TypeDirectory 6)) run_service = (None, run_service\<lparr>db := Some d1\<rparr>)"
    "svc_repr img_store (run_service\<lparr>db := Some d1\<rparr>) a1" "tree a1" "created 0 7 (create_op ''0'' ''7'' ''d'' TypeDirectory 6) (init_afs 5) a1"
    using create_command_tree [OF img.bbolt_sweep_axioms img_dependable run_repr(1) tree_init small_numbers(1) root_dir(1) small_numbers(2) n root_dir(2) l(1)]
    by blast
  have a1: "is_dir a1 7" "a_inodes a1 8 = None" "a_dents a1 7 = (\<lambda>_. None)" "a_dents a1 0 ''d'' = Some 7"
    using 1(4) by (auto simp: created_def is_dir_def newInode_def create_op_def init_afs_def empty_afs_def)
  have free: "a_dents a1 7 ''f'' = None" by (simp add: a1(3))
  obtain a2 d2 where 2: "ApplyTransaction img_store 6 (meta_command (create_op ''7'' ''8'' ''f'' TypeFile 6)) (run_service\<lparr>db := Some d1\<rparr>)
      = (None, run_service\<lparr>db := Some d1\<rparr>\<lparr>db := Some d2\<rparr>)"
    "svc_repr img_store (run_service\<lparr>db := Some d1\<rparr>\<lparr>db := Some d2\<rparr>) a2" "tree a2" "created 7 8 (create_op ''7'' ''8'' ''f'' TypeFile 6) a1 a2"
    using create_command_tree [OF img.bbolt_sweep_axioms img_dependable 1(2,3) small_numbers(2) a1(1) small_numbers(3) a1(2) free l(2)]
    by blast
  have "a_dents a2 0 ''d'' = Some 7" "a_dents a2 7 = [''f'' \<mapsto> 8]" "is_dir a2 7"
    using 2(4) a1(3,4) by (auto simp: created_def create_op_def)
  then show "\<exists>a. svc_repr img_store nested_service a \<and> tree a \<and> a_dents a 0 ''d'' = Some 7 \<and> a_dents a 7 = [''f'' \<mapsto> 8] \<and> is_dir a 7"
    using 1(1) 2(1-3) by (auto simp: nested_service_def)
  show "replicator nested_service" using 1(1) 2(1) run_repr(2) by (simp add: nested_service_def)
qed

text \<open>
  C31. \<^verbatim>\<open>Rmdir\<close> on every branch: it submits the removal exactly when the name exists in an existing
  directory, denotes a directory and that has no entries; otherwise it returns the corresponding error
  and changes nothing.
\<close>

theorem rmdir_guards:
  assumes "bbolt_api B" and "svc_repr B s a" and "live ctx" and "tree a" and "inode_number parentID = Inr p"
  shows "Rmdir B rep ctx opid now parentID name s =
    (case a_inodes a p of
       None \<Rightarrow> (Some ErrNotFound, s)
     | Some i \<Rightarrow>
         if i_Type i \<noteq> TypeDirectory then (Some ErrNotDir, s)
         else (case a_dents a p name of
                 None \<Rightarrow> (Some ErrNotFound, s)
               | Some c \<Rightarrow>
                   if \<not> is_dir a c then (Some ErrNotDir, s)
                   else if \<exists>y. a_dents a c y \<noteq> None then (Some ErrNotEmpty, s)
                   else replicateOp rep opid now ((zeroOp OpRemove)\<lparr>op_ParentID := parentID, op_Name := name\<rparr>) s))"
proof (cases "a_dents a p name")
  case None
  then show ?thesis using assms(5)
    by (cases "a_inodes a p") (simp_all add: Rmdir_def guarded_def bbolt_api.Lookup_repr [OF assms(1-3)])
next
  case (Some c)
  obtain d where d: "repr B d a" using assms(2) by (auto simp: svc_repr_def)
  have "c < 2 ^ 64" using bbolt_api.dent_bound [OF assms(1) repr_wf [OF d] Some] ..
  then have c: "inode_number (FormatUint c) = Inr c" by (rule inode_number_Format)
  obtain j where j: "a_inodes a c = Some j" using treeD(3) [OF assms(4) Some] by blast
  obtain i where i: "a_inodes a p = Some i" "i_Type i = TypeDirectory" using treeD(2) [OF assms(4) Some] by (auto simp: is_dir_def)
  have l: "live (polled k ctx)" for k by (rule bbolt_api.live_polled [OF assms(1,3)])
  show ?thesis using assms(5) Some c i j
    by (auto simp: Rmdir_def guarded_def bbolt_api.Lookup_repr [OF assms(1-3)] bbolt_api.GetInode_repr [OF assms(1,2) l]
        bbolt_api.directoryIsEmpty_repr [OF assms(1,2) l] is_dir_def)
qed

theorem rmdir_guards_witness:
  "Rmdir img_store (direct img_store 6) calm ''op'' 6 ''0'' ''d'' nested_service = (Some ErrNotEmpty, nested_service)"
proof -
  obtain a where a: "svc_repr img_store nested_service a" "tree a" "a_dents a 0 ''d'' = Some 7" "a_dents a 7 ''f'' = Some 8" "is_dir a 7"
    using nested_repr(1) by (metis fun_upd_same)
  have "\<exists>y. a_dents a 7 y \<noteq> None" using a(4) by blast
  then show ?thesis
    using rmdir_guards [OF img.bbolt_api_axioms a(1) run_repr(3) a(2) small_numbers(1), of "direct img_store 6" "''op''" 6 "''d''"]
      a(3,5) treeD(1) [OF a(2)] by (auto simp: is_dir_def)
qed

lemma remove_applies:
  assumes B: "bbolt_sweep B" "dependable B" and r: "svc_repr B s a" and p: "inode_number (op_ParentID op) = Inr p"
    and t: "tree a" and c: "a_dents a p (op_Name op) = Some c"
    and op: "op_Type op = OpRemove" "op_NewChunkList op = None" "length (op_Name op) + 8 \<le> MaxKeySize" "op_DstName op = []"
  shows "\<exists>a' d. ApplyTransaction B now (meta_command op) s = (None, s\<lparr>db := Some d\<rparr>) \<and> svc_repr B (s\<lparr>db := Some d\<rparr>) a'
     \<and> (\<forall>q y. a_dents a' q y = (if q = p \<and> y = op_Name op then None else a_dents a q y)) \<and> (c \<noteq> p \<longrightarrow> a_inodes a' c = None)"
proof -
  obtain i j where i: "a_inodes a p = Some i" "a_inodes a c = Some j"
    using treeD(2,3) [OF t c] by (auto simp: is_dir_def)
  have js: "json_MetadataOperation op = op" using op(2) by (simp add: json_MetadataOperation_def)
  obtain a' where a': "spec_apply now (meta_command op) a = Inr a'"
    "\<forall>q y. a_dents a' q y = (if q = p \<and> y = op_Name op then None else a_dents a q y)" "c \<noteq> p \<longrightarrow> a_inodes a' c = None"
    using p c i op by (auto simp: spec_meta_command js spec_meta_def spec_remove_def Let_def)
  have "wf_command (meta_command op)" "reliable B (meta_command op)"
    using op B(2) by (simp_all add: wf_meta_command reliable_meta MaxKeySize_def)
  then show ?thesis using ApplyTransaction_ok [OF B(1) r _ _ a'(1)] a'(2,3) by blast
qed



section \<open>Listing\<close>

text \<open>A client that follows the cookies until the end of the listing.\<close>

fun read_all :: "(int \<Rightarrow> ('e list \<times> int \<times> bool) result) \<Rightarrow> nat \<Rightarrow> int \<Rightarrow> 'e list result" where
  "read_all page 0 cookie = Inl (Errorf ''out of fuel'')"
| "read_all page (Suc fuel) cookie =
     rbind (page cookie) (\<lambda>(es, next, eof).
       if eof then Inr es else rbind (read_all page fuel next) (\<lambda>rest. Inr (es @ rest)))"

lemma readDirPage_step:
  assumes "c < length es" and "0 < m" and "int (length es) + m < 2 ^ 63"
  shows "readDirPage es (int c) m =
    Inr (take (nat m) (drop c es), if int (length es) < int c + m then int (length es) else int c + m, int (length es) \<le> int c + m)"
proof -
  have "int64 (int c + m) = int c + m" using assms by (intro int64_id) auto
  then show ?thesis using assms by (auto simp: readDirPage_def Let_def)
qed

lemma read_all_pages:
  assumes m: "0 < m" "int (length es) + m < 2 ^ 63"
  shows "c \<le> length es \<Longrightarrow> length es - c < fuel \<Longrightarrow> read_all (\<lambda>k. readDirPage es k m) fuel (int c) = Inr (drop c es)"
proof (induction fuel arbitrary: c)
  case (Suc fuel)
  show ?case
  proof (cases "c < length es")
    case False
    then show ?thesis using Suc.prems by (simp add: readDirPage_def Let_def)
  next
    case True
    note step = readDirPage_step [OF True m]
    show ?thesis
    proof (cases "int (length es) \<le> int c + m")
      case True
      then have "length (drop c es) \<le> nat m" by simp
      then show ?thesis using step True by simp
    next
      case False
      have c': "c + nat m \<le> length es" "length es - (c + nat m) < fuel" "int c + m = int (c + nat m)"
        using False m(1) Suc.prems True by linarith+
      have "take (nat m) (drop c es) @ drop (c + nat m) es = drop c es"
        by (metis add.commute append_take_drop_id drop_drop)
      moreover have "readDirPage es (int c) m = Inr (take (nat m) (drop c es), int (c + nat m), False)"
        unfolding step c'(3) [symmetric] using False by simp
      ultimately show ?thesis using Suc.IH [OF c'(1,2)] by (simp del: of_nat_add)
    qed
  qed
qed simp

lemma ReadDir_pages:
  assumes B: "bbolt_api B" and r: "svc_repr B s a" "live ctx" "tree a" and p: "inode_number i = Inr p" "is_dir a p"
  shows "\<exists>es. listing a p es \<and> (\<forall>c m. ReadDir B ctx i c m s = readDirPage es c m)"
proof -
  obtain d where d: "db s = Some d" "isOpen s" "repr B d a" using r(1) by (auto simp: svc_repr_def)
  obtain j where j: "a_inodes a p = Some j" "i_Type j = TypeDirectory" using p(2) by (auto simp: is_dir_def)
  have "\<forall>x c. a_dents a p x = Some c \<longrightarrow> a_inodes a c \<noteq> None" using treeD(3) [OF r(3)] by blast
  then obtain es where "readDirView B ctx (encodeUint64BE p) d = Inr es" "listing a p es"
    using bbolt_api.readDirView_repr [OF B d(3) r(2) inode_number_bound [OF p(1)] j] by blast
  then show ?thesis using d p r(2)
    by (auto simp: ReadDir_def initialized_def svc_View_def encodeInodeKey_number bbolt_api.live_poll [OF B])
qed

text \<open>
  C16. Listing a directory page by page, with any positive page size: following the cookies from 0
  ends after at most one call more than there are entries, and the pages together are the
  directory's entries, each once, in the byte order of their names.
\<close>

theorem paged_listing:
  assumes "bbolt_api B" and "svc_repr B s a" and "live ctx" and "tree a" and "inode_number i = Inr p" and "is_dir a p" and "0 < m"
  shows "\<exists>es. listing a p es \<and>
    (int (length es) + m < 2 ^ 63 \<longrightarrow> read_all (\<lambda>c. ReadDir B ctx i c m s) (length es + 1) 0 = Inr es)"
proof -
  obtain es where es: "listing a p es" "\<forall>c m. ReadDir B ctx i c m s = readDirPage es c m"
    using ReadDir_pages [OF assms(1-6)] by blast
  have "read_all (\<lambda>c. ReadDir B ctx i c m s) (length es + 1) 0 = Inr es" if "int (length es) + m < 2 ^ 63"
    using read_all_pages [OF assms(7) that, of 0 "length es + 1"] es(2) by simp
  with es(1) show ?thesis by blast
qed

lemma listing_unique:
  assumes "listing a p es" and "listing a p fs"
  shows "es = fs"
proof -
  have "map (\<lambda>e. (de_Name e, e)) es = map (\<lambda>e. (de_Name e, e)) fs"
    using assms by (intro strict_sorted_pairs_eq) (simp_all add: listing_def o_def set_eq_iff image_iff)
  then have "map snd (map (\<lambda>e. (de_Name e, e)) es) = map snd (map (\<lambda>e. (de_Name e, e)) fs)" by simp
  then show ?thesis by (simp add: o_def)
qed

lemma listing_single:
  assumes "a_dents a p = [x \<mapsto> c]" and "a_inodes a c = Some j"
  shows "listing a p [\<lparr>de_Name = x, de_InodeID = i_InodeID j, de_Type = i_Type j\<rparr>]"
  unfolding listing_def
proof (intro conjI allI)
  fix e :: DirEntry
  show "e \<in> set [\<lparr>de_Name = x, de_InodeID = i_InodeID j, de_Type = i_Type j\<rparr>] \<longleftrightarrow>
    (\<exists>c j. a_dents a p (de_Name e) = Some c \<and> a_inodes a c = Some j \<and> de_InodeID e = i_InodeID j \<and> de_Type e = i_Type j)"
    by (cases e) (auto simp: assms)
qed simp

theorem paged_listing_witness:
  "\<exists>e. read_all (\<lambda>c. ReadDir img_store calm ''7'' c 1 nested_service) 2 0 = Inr [e] \<and> de_Name e = ''f''"
proof -
  obtain a where a: "svc_repr img_store nested_service a" "tree a" "a_dents a 7 = [''f'' \<mapsto> 8]" "is_dir a 7"
    using nested_repr(1) by blast
  obtain j where j: "a_inodes a 8 = Some j" using treeD(3) [OF a(2), of 7 "''f''" 8] a(3) by auto
  define e where "e = (\<lparr>de_Name = ''f'', de_InodeID = i_InodeID j, de_Type = i_Type j\<rparr> :: DirEntry)"
  have e: "listing a 7 [e]" using listing_single [OF a(3) j] by (simp add: e_def)
  have "(0::int) < 1" by simp
  from paged_listing [OF img.bbolt_api_axioms a(1) run_repr(3) a(2) small_numbers(2) a(4) this]
  obtain es where es: "listing a 7 es"
    "int (length es) + 1 < 2 ^ 63 \<longrightarrow> read_all (\<lambda>c. ReadDir img_store calm ''7'' c 1 nested_service) (length es + 1) 0 = Inr es"
    by blast
  have "es = [e]" using listing_unique [OF es(1) e] .
  then have "read_all (\<lambda>c. ReadDir img_store calm ''7'' c 1 nested_service) (Suc (Suc 0)) 0 = Inr [e]" using es(2) by simp
  then show ?thesis unfolding numeral_2_eq_2 by (auto simp: e_def)
qed

text \<open>
  A page request whose end overflows 64 bits crashes the server: with a cookie inside the listing and a page
  size so large that their sum exceeds the largest integer, the slice has an end before its start.
\<close>

lemma listing_overflow:
  assumes "0 < c" and "c < int (length es)" and "m < 2 ^ 63" and "2 ^ 63 \<le> c + m" and "int (length es) < 2 ^ 63"
  shows "readDirPage es c m = Inl (Panic ''slice bounds out of range'')"
proof -
  have "int64 (c + m) = c + m - 2 ^ 64" using assms by (intro int64_over) auto
  then show ?thesis using assms by (simp add: readDirPage_def Let_def)
qed

lemma listing_overflow_witness:
  "readDirPage [''a'', ''b''] 1 (2 ^ 63 - 1) = Inl (Panic ''slice bounds out of range'')"
  by (rule listing_overflow) simp_all

section \<open>Permissions\<close>

text \<open>
  C32. \<^verbatim>\<open>Access\<close> is the owner, group, other rule: for an existing inode and a mask of permission bits, the call
  succeeds exactly for the superuser and for a caller all of whose requested bits are set in the
  one class (owner before group before others) the caller falls into.
\<close>

theorem access_classes:
  assumes "bbolt_api B" and "svc_repr B s a" and "live ctx" and "inode_number i = Inr n" and "a_inodes a n = Some inode"
    and "\<forall>k. bit want k \<longrightarrow> k < 3"
  shows "Access B ctx i uid gid want s = Inr () \<longleftrightarrow>
    uid = 0 \<or> (\<forall>k. bit want k \<longrightarrow> bit (i_Mode inode)
      (k + (if uid = i_OwnerUID inode then 6 else if gid = i_OwnerGID inode then 3 else 0)))"
proof -
  have 7: "bit (7 :: 32 word) k \<longleftrightarrow> k < 3" for k
  proof -
    have "(7 :: 32 word) = mask 3" by (simp add: mask_eq_exp_minus_1)
    then show ?thesis by (simp only: bit_mask_iff possible_bit_word) auto
  qed
  have sub: "and (and w 7) want = want \<longleftrightarrow> (\<forall>k. bit want k \<longrightarrow> bit w k)" for w :: "32 word"
  proof -
    have "and x want = want \<longleftrightarrow> (\<forall>k. bit want k \<longrightarrow> bit x k)" for x :: "32 word"
      unfolding bit_eq_iff bit_and_iff using impossible_bit by blast
    then show ?thesis using assms(6) by (simp only: bit_and_iff 7) blast
  qed
  have g: "GetInode B ctx i s = Inr (inode\<lparr>i_ChunkList := a_chunks a n\<rparr>)"
    by (simp add: bbolt_api.GetInode_repr [OF assms(1-3)] assms(4,5))
  show ?thesis by (simp add: Access_def g grantedBits_def sub bit_simps add.commute)
qed

theorem access_classes_witness:
  "Access img_store calm ''0'' 1 1 1 run_service = Inr () \<and> Access img_store calm ''0'' 1 1 2 run_service \<noteq> Inr ()"
proof -
  have a: "a_inodes (init_afs 5) 0 = Some (rootInode 5)" by (simp add: init_afs_def)
  have w: "\<forall>k. bit (1 :: 32 word) k \<longrightarrow> k < 3" "\<forall>k. bit (2 :: 32 word) k \<longrightarrow> k < 3"
    by (auto simp: bit_1_iff bit_2_iff)
  show ?thesis
    using access_classes [OF img.bbolt_api_axioms run_repr(1,3) small_numbers(1) a w(1), of 1 1]
      access_classes [OF img.bbolt_api_axioms run_repr(1,3) small_numbers(1) a w(2), of 1 1]
    by (simp add: rootInode_def bit_1_iff bit_2_iff)
qed

section \<open>Chunk lists\<close>



text \<open>
  Deleting a chunk list moves a cursor over keys it deletes.  The store's documentation does not
  say what such a cursor returns; one that ends after the first deletion is compatible with it.
\<close>

definition lossy_store :: "image bbolt" where
  "lossy_store = img_store\<lparr>bb_Sweep := (\<lambda>b p d. take 1 (map fst (img_cursor b p d)))\<rparr>"

lemma lossy_api: "bbolt_api lossy_store"
proof -
  have sv: "same_view lossy_store = same_view img_store" by (simp add: fun_eq_iff same_view_def lossy_store_def)
  show ?thesis
    by unfold_locales (simp_all add: sv, simp_all add: lossy_store_def img.absent img.create_ok img.create img.put_ok img.put
        img.delete_ok img.delete img.cursor_sorted img.cursor_set img.keyN img.open_image img.open_new)
qed

definition lossy_image :: image where
  "lossy_image = [(chunkMapBucket, [(encodeChunkMapKey (encodeUint64BE 7) 0, GobChunkDescriptor zeroChunk),
     (encodeChunkMapKey (encodeUint64BE 7) 1, GobChunkDescriptor zeroChunk)])]"

text \<open>
  On a store that satisfies the documented interface only, replacing a chunk list by an empty one can leave
  an old chunk behind: the deletion loop relies on more than the store promises.
\<close>

lemma chunk_deletion_undocumented:
  "bbolt_api lossy_store \<and> loadChunkList lossy_store (encodeUint64BE 7) lossy_image = Inr [zeroChunk, zeroChunk]
   \<and> (case replaceChunkList lossy_store (encodeUint64BE 7) [] lossy_image of
        Inl e \<Rightarrow> False
      | Inr d \<Rightarrow> bb_Get lossy_store chunkMapBucket (encodeChunkMapKey (encodeUint64BE 7) 1) d = Some (GobChunkDescriptor zeroChunk))"
proof (intro conjI lossy_api)
  show "loadChunkList lossy_store (encodeUint64BE 7) lossy_image = Inr [zeroChunk, zeroChunk]" by code_simp
  show "case replaceChunkList lossy_store (encodeUint64BE 7) [] lossy_image of
        Inl e \<Rightarrow> False
      | Inr d \<Rightarrow> bb_Get lossy_store chunkMapBucket (encodeChunkMapKey (encodeUint64BE 7) 1) d = Some (GobChunkDescriptor zeroChunk)"
    by code_simp
qed

end
