(* ===== verification/BoltRestore.thy ===== *)
theory BoltRestore
  imports BoltClient
begin

text \<open>
  Snapshots, chunk intents and the log: what a serialised database restores, what a crash after a
  restore may leave, the state of a chunk transaction, and what applying commands twice does.
\<close>

section \<open>Snapshots\<close>

lemma os_WriteFile_ok: "os_WriteFile p x f = (None, f1) \<Longrightarrow> cur f1 p = Some x \<and> \<not> synced f1 p"
proof -
  assume w: "os_WriteFile p x f = (None, f1)"
  obtain a f2 where 1: "os_OpenTrunc p f = (a, f2)" by fastforce
  obtain b f3 where 2: "f_Write p x f2 = (b, f3)" by fastforce
  obtain c f4 where 3: "f_Close f3 = (c, f4)" by fastforce
  have "a = None" "b = None" "f1 = f4" using w 1 2 3 by (auto simp: os_WriteFile_def split: option.splits if_splits)
  then have "cur f3 p = Some x" "\<not> synced f3 p" "cur f1 = cur f3" "synced f1 = synced f3" using 2 3
    by (auto simp: f_Write_def f_Close_def dest!: syscall_files split: prod.splits fault.splits)
  then show ?thesis by simp
qed

lemma swapDb_ok:
  assumes "swapDb B path s f = (None, s', f')" and "cur f (tmpPath path) = Some x"
  shows "\<exists>d. bb_Open B (Some x) = Inr d \<and> db s' = Some d \<and> isOpen s'"
proof -
  obtain ce s1 where c: "Close B s = (ce, s1)" by fastforce
  obtain re f1 where rn: "os_Rename (tmpPath path) path f = (re, f1)" by fastforce
  obtain o' f2 where op: "open_db B path f1 = (o', f2)" by fastforce
  have ce: "ce = None" "re = None" "\<exists>d. o' = Inr d" "\<forall>d. o' = Inr d \<longrightarrow> s' = s1\<lparr>db := Some d, isOpen := True\<rparr>"
    using assms(1) c rn op by (cases ce; cases re; cases o'; auto simp: swapDb_def Let_def)+
  then have "cur f1 path = Some x" using rn assms(2)
    by (auto simp: os_Rename_def dest!: syscall_files split: prod.splits fault.splits option.splits)
  then have "o' = bb_Open B (Some x)" using op ce(3)
    by (auto simp: open_db_def os_ReadFile_def dest!: syscall_files split: prod.splits fault.splits sum.splits if_splits)
  with ce show ?thesis by auto
qed

lemma swapDb_unsynced:
  assumes "swapDb B path s f = (None, s', f')" and "\<not> synced f (tmpPath path)"
  shows "poss f' path = UNIV"
proof -
  obtain ce s1 where c: "Close B s = (ce, s1)" by fastforce
  obtain re f1 where rn: "os_Rename (tmpPath path) path f = (re, f1)" by fastforce
  obtain o' f2 where op: "open_db B path f1 = (o', f2)" by fastforce
  have re: "re = None" "f' = f2"
    using assms(1) c rn op by (cases ce; cases re; cases o'; auto simp: swapDb_def Let_def)+
  then have "poss f1 path = UNIV" using rn assms(2)
    by (auto simp: os_Rename_def dest!: syscall_files split: prod.splits fault.splits option.splits)
  moreover have "poss f2 = poss f1" using op
    by (auto simp: open_db_def os_ReadFile_def dest!: syscall_files split: prod.splits fault.splits sum.splits if_splits)
  ultimately show ?thesis using re by simp
qed

lemma swapDb_error:
  assumes "swapDb B path s f = (Some e, s', f')"
  shows "db s' = None \<or> \<not> isOpen s'"
  using assms
  by (auto simp: swapDb_def Close_def Let_def split: option.splits sum.splits prod.splits if_splits)

text \<open>
  C11. A snapshot restores what it was taken of: when restoring a serialised snapshot on any service
  reports success, that service represents the state of the one the snapshot was taken of.  When it
  reports an error, the service is as before or has no open database any more.
\<close>

theorem snapshot_restores:
  assumes "bbolt_api B" and "svc_repr B s a" and "SerializeSnapshot B s = Inr x" and "RestoreSnapshot B path x s2 f = (e, s3, f')"
  shows "if e = None then svc_repr B s3 a else s3 = s2 \<or> db s3 = None \<or> \<not> isOpen s3"
proof (cases "db s2 = None")
  case True
  then show ?thesis using assms(4) by (auto simp: RestoreSnapshot_def)
next
  case False
  obtain d0 where d0: "db s = Some d0" "isOpen s" "repr B d0 a" using assms(2) by (auto simp: svc_repr_def)
  then have x: "bb_WriteTo B d0 = Inr x" using assms(3) by (simp add: SerializeSnapshot_def initialized_def svc_View_def)
  obtain we f1 where w: "os_WriteFile (tmpPath path) x f = (we, f1)" by fastforce
  show ?thesis
  proof (cases we)
    case (Some y)
    then show ?thesis using assms(4) False w by (auto simp: RestoreSnapshot_def)
  next
    case None
    have t: "cur f1 (tmpPath path) = Some x" using os_WriteFile_ok w None by blast
    obtain e2 s4 f2 where sw: "swapDb B path s2 f1 = (e2, s4, f2)" by (cases "swapDb B path s2 f1") auto
    then have r: "e = e2" "s3 = s4" using assms(4) False w None by (auto simp: RestoreSnapshot_def)
    show ?thesis
    proof (cases e2)
      case None
      then obtain d where d: "bb_Open B (Some x) = Inr d" "db s4 = Some d" "isOpen s4"
        using swapDb_ok [OF sw [unfolded None] t] by blast
      have "same_view B d0 d" using bbolt_api.open_image [OF assms(1) x d(1)] .
      then have "repr B d a" using d0(3) unfolding repr_def same_view_def by simp
      then show ?thesis using d r None by (simp add: svc_repr_def)
    next
      case (Some y)
      then show ?thesis using swapDb_error [OF sw [unfolded Some]] r by simp
    qed
  qed
qed

lemma SerializeSnapshot_img: "db s = Some d \<Longrightarrow> isOpen s \<Longrightarrow> SerializeSnapshot img_store s = Inr (BoltImage d)"
  by (simp add: SerializeSnapshot_def initialized_def svc_View_def img_store_def)

lemma RestoreSnapshot_img:
  assumes "db s = Some d0" and "isOpen s" and "faults f = []" and "\<not> crashed f"
  shows "fst (RestoreSnapshot img_store path (BoltImage d) s f) = None"
  using assms
  by (simp add: RestoreSnapshot_def os_WriteFile_def os_OpenTrunc_def f_Write_def f_Close_def syscall_def swapDb_def
      Close_def os_Rename_def open_db_def os_ReadFile_def img_store_def Let_def)

theorem snapshot_restores_witness:
  "\<exists>x s3 f' a. SerializeSnapshot img_store nested_service = Inr x
     \<and> RestoreSnapshot img_store ''meta.db'' x boot_service blank_fs = (None, s3, f')
     \<and> svc_repr img_store nested_service a \<and> svc_repr img_store s3 a"
proof -
  obtain a where a: "svc_repr img_store nested_service a" using nested_repr(1) by blast
  then obtain d where d: "db nested_service = Some d" "isOpen nested_service" by (auto simp: svc_repr_def)
  obtain d0 where d0: "db boot_service = Some d0" "isOpen boot_service" using boot_repr by (auto simp: svc_repr_def)
  note x = SerializeSnapshot_img [OF d]
  obtain s3 f' where r: "RestoreSnapshot img_store ''meta.db'' (BoltImage d) boot_service blank_fs = (None, s3, f')"
    using RestoreSnapshot_img [OF d0 blank_ok(2,3), of "''meta.db''" d] by (metis prod.collapse)
  show ?thesis using snapshot_restores [OF img.bbolt_api_axioms a x r] x r a by auto
qed

text \<open>
  Restoring a snapshot is not durable: the new database file is renamed into place without having been
  fsynced, so that after a restore that reported success a crash may leave any content at the
  database's path.
\<close>

lemma restore_not_durable:
  assumes "RestoreSnapshot B path x s f = (None, s', f')"
  shows "poss f' path = UNIV"
proof -
  obtain f1 f2 where w: "os_WriteFile (tmpPath path) x f = (None, f1)" and sw: "swapDb B path s f1 = (None, s', f2)"
    and f': "f' = snd (os_Remove (tmpPath path) f2)"
    using assms by (auto simp: RestoreSnapshot_def Let_def split: if_splits option.splits prod.splits)
  have "poss f2 path = UNIV" using swapDb_unsynced [OF sw] os_WriteFile_ok [OF w] by blast
  then show ?thesis unfolding f' by (auto simp: os_Remove_def tmpPath_def dest!: syscall_files split: prod.splits fault.splits)
qed

lemma restore_not_durable_witness:
  "\<exists>d s' f'. RestoreSnapshot img_store ''meta.db'' (BoltImage d) boot_service blank_fs = (None, s', f') \<and> poss f' ''meta.db'' = UNIV"
proof -
  obtain d0 where d0: "db boot_service = Some d0" "isOpen boot_service" using boot_repr by (auto simp: svc_repr_def)
  obtain s' f' where r: "RestoreSnapshot img_store ''meta.db'' (BoltImage d0) boot_service blank_fs = (None, s', f')"
    using RestoreSnapshot_img [OF d0 blank_ok(2,3), of "''meta.db''" d0] by (metis prod.collapse)
  from r restore_not_durable [OF r] show ?thesis by blast
qed

section \<open>Chunk intents\<close>

lemma GetIntentState_repr:
  assumes "bbolt_api B" and "svc_repr B s a" and "live ctx"
  shows "GetIntentState B ctx t s =
     Inr (case a_intents a t of None \<Rightarrow> StateUnknown | Some i \<Rightarrow> toMetadataIntentState (ci_State i))"
proof -
  obtain d where d: "db s = Some d" "isOpen s" "repr B d a" using assms(2) by (auto simp: svc_repr_def)
  then show ?thesis using assms(3)
    by (auto simp: GetIntentState_def initialized_def svc_View_def repr_get contents_simps split: option.splits)
qed

lemma SetIntentState_sim:
  assumes "bbolt_api B" and "svc_repr B s a" and "live ctx"
    and f: "full \<Longrightarrow> fits B t" and c: "full \<Longrightarrow> \<forall>d. bb_Commit B d = None"
  shows "\<exists>i. ci_State i = toRaftIntentState st
     \<and> svc_sim B full s (SetIntentState B ctx now t st s) (Inr (a\<lparr>a_intents := (a_intents a)(t \<mapsto> i)\<rparr>))"
proof -
  obtain d where d: "db s = Some d" "isOpen s" "repr B d a" using assms(2) by (auto simp: svc_repr_def)
  define i where "i = (case a_intents a t of
      None \<Rightarrow> \<lparr>ci_TxnID = t, ci_ChunkID = [], ci_NodeIDs = [], ci_State = toRaftIntentState st, ci_Timestamp = now\<rparr>
    | Some i \<Rightarrow> i\<lparr>ci_State := toRaftIntentState st, ci_Timestamp := now\<rparr>)"
  let ?put = "\<lambda>d. rbind (case bb_Get B chunkIntentsBkt t d of
        None \<Rightarrow> Inr \<lparr>ci_TxnID = t, ci_ChunkID = [], ci_NodeIDs = [], ci_State = toRaftIntentState st, ci_Timestamp = now\<rparr>
      | Some existing \<Rightarrow> rbind (wrap ''unmarshal existing chunk intent'' (json_Unmarshal_intent existing))
          (\<lambda>intent. Inr (intent\<lparr>ci_State := toRaftIntentState st, ci_Timestamp := now\<rparr>)))
      (\<lambda>intent. bb_Put B chunkIntentsBkt t (JsonIntent intent) d)"
  have "?put d' = bb_Put B chunkIntentsBkt t (JsonIntent i) d'" if "repr B d' a" for d'
    using that by (simp add: repr_get contents_simps i_def split: option.split)
  then have put: "sim B full (?put d') (Inr (a\<lparr>a_intents := (a_intents a)(t \<mapsto> i)\<rparr>))" if "repr B d' a" for d'
    using bbolt_api.put_intent_sim [OF assms(1) that f] that by simp
  have "sim B full (rbind (bb_Create B chunkIntentsBkt d) ?put) (Inr (a\<lparr>a_intents := (a_intents a)(t \<mapsto> i)\<rparr>))"
    by (rule sim_rbind [OF bbolt_api.create_sim [OF assms(1) d(3)] put]) simp_all
  from svc_Update_sim [where f = "\<lambda>d. rbind (bb_Create B chunkIntentsBkt d) ?put", OF d(1,2) this c]
  have "svc_sim B full s (SetIntentState B ctx now t st s) (Inr (a\<lparr>a_intents := (a_intents a)(t \<mapsto> i)\<rparr>))"
    using d assms(3) by (simp add: SetIntentState_def guarded_def initialized_def)
  moreover have "ci_State i = toRaftIntentState st" by (simp add: i_def split: option.split)
  ultimately show ?thesis by blast
qed

lemma SetIntentState_repr:
  assumes "bbolt_api B" and "svc_repr B s a" and "live ctx" and "SetIntentState B ctx now t st s = (None, s')"
  shows "\<exists>i. ci_State i = toRaftIntentState st \<and> svc_repr B s' (a\<lparr>a_intents := (a_intents a)(t \<mapsto> i)\<rparr>)"
  using SetIntentState_sim [OF assms(1-3), of False t st now] assms(2,4) by (auto simp: svc_sim_def svc_repr_def)

lemma SetIntentState_img:
  assumes "svc_repr img_store s a" and "live ctx" and "t \<noteq> []" and "length t \<le> MaxKeySize"
  shows "\<exists>s'. SetIntentState img_store ctx now t st s = (None, s')"
proof -
  have "fits img_store t" using assms(3,4) img_ok by (simp add: fits_def roomy_def)
  then show ?thesis using SetIntentState_sim [OF img.bbolt_api_axioms assms(1,2), of True t st now] img_ok(2)
    by (cases "SetIntentState img_store ctx now t st s") (auto simp: svc_sim_def split: option.splits)
qed

text \<open>
  Recording the state of a chunk transaction: when \<^verbatim>\<open>SetIntentState\<close> succeeds, \<^verbatim>\<open>GetIntentState\<close> returns
  that state (an unknown code reads as unknown), every other transaction's state is as before, and
  nothing else in the file system has changed.
\<close>

lemma intent_state_reads_back:
  assumes "bbolt_api B" and "svc_repr B s a" and "live ctx" and "SetIntentState B ctx now t st s = (None, s')"
  shows "GetIntentState B ctx t s' = Inr (toMetadataIntentState st)
     \<and> (\<forall>u. u \<noteq> t \<longrightarrow> GetIntentState B ctx u s' = GetIntentState B ctx u s)
     \<and> (\<exists>m. svc_repr B s' (a\<lparr>a_intents := m\<rparr>))"
proof -
  obtain i where i: "ci_State i = toRaftIntentState st" "svc_repr B s' (a\<lparr>a_intents := (a_intents a)(t \<mapsto> i)\<rparr>)"
    using SetIntentState_repr [OF assms] by blast
  note get = GetIntentState_repr [OF assms(1) i(2) assms(3)] GetIntentState_repr [OF assms(1,2,3)]
  have "toMetadataIntentState (toRaftIntentState st) = toMetadataIntentState st"
    by (simp add: toMetadataIntentState_def toRaftIntentState_def split: IntentState.split)
  with i show ?thesis by (auto simp: get)
qed

lemma intent_state_reads_back_witness:
  "\<exists>s'. SetIntentState img_store calm 9 ''t'' StateCommitted boot_service = (None, s')
     \<and> GetIntentState img_store calm ''t'' s' = Inr StateCommitted
     \<and> GetIntentState img_store calm ''u'' s' = GetIntentState img_store calm ''u'' boot_service"
proof -
  obtain s' where r: "SetIntentState img_store calm 9 ''t'' StateCommitted boot_service = (None, s')"
    using SetIntentState_img [OF boot_repr run_repr(3), of "''t''" 9 StateCommitted] by (auto simp: MaxKeySize_def)
  from intent_state_reads_back [OF img.bbolt_api_axioms boot_repr run_repr(3) r] r
  show ?thesis by (auto simp: toMetadataIntentState_def)
qed

section \<open>Replaying the log\<close>

fun spec_all :: "(int \<times> blob) list \<Rightarrow> afs \<Rightarrow> afs result" where
  "spec_all [] a = Inr a"
| "spec_all ((now, data) # xs) a = rbind (spec_apply now data a) (spec_all xs)"

lemma apply_all_spec:
  assumes "bbolt_sweep B"
  shows "svc_repr B s a \<Longrightarrow> spec_all xs a = Inr a' \<Longrightarrow> \<forall>x\<in>set xs. wf_command (snd x) \<and> reliable B (snd x) \<Longrightarrow>
     svc_repr B (apply_all B xs s) a'"
proof (induction xs arbitrary: s a)
  case (Cons x xs)
  obtain now c where x: "x = (now, c)" by fastforce
  obtain a1 where a1: "spec_apply now c a = Inr a1" "spec_all xs a1 = Inr a'"
    using Cons.prems(2) by (cases "spec_apply now c a") (auto simp: x)
  have c: "wf_command c" "reliable B c" using Cons.prems(3) x by auto
  obtain d where "ApplyTransaction B now c s = (None, s\<lparr>db := Some d\<rparr>)" "svc_repr B (s\<lparr>db := Some d\<rparr>) a1"
    using ApplyTransaction_ok [OF assms Cons.prems(1) c a1(1)] by blast
  then show ?case using Cons.IH [OF _ a1(2)] Cons.prems(3) x by simp
qed auto

lemma apply_all_append: "apply_all B (xs @ ys) s = apply_all B ys (apply_all B xs s)"
  by (induction xs arbitrary: s) auto

definition rename_op :: "string \<Rightarrow> string \<Rightarrow> string \<Rightarrow> string \<Rightarrow> int \<Rightarrow> MetadataOperation" where
  "rename_op p x q y now = (zeroOp OpRename)\<lparr>op_ParentID := p, op_Name := x, op_DstParentID := q, op_DstName := y, op_Timestamp := now\<rparr>"

text \<open>Creating \<open>/a\<close> with inode number 7, and renaming it to \<open>/b\<close>.\<close>

definition create_rename :: "(int \<times> blob) list" where
  "create_rename = [(6, meta_command (create_op ''0'' ''7'' ''a'' TypeFile 6)), (6, meta_command (rename_op ''0'' ''a'' ''0'' ''b'' 6))]"

lemma create_rename_ok: "\<forall>x\<in>set create_rename. wf_command (snd x) \<and> reliable img_store (snd x)"
  by (simp add: create_rename_def wf_meta_command img_reliable create_op_def rename_op_def zeroOp_def MaxKeySize_def)

lemmas eval_commands = spec_meta_command json_MetadataOperation_def create_op_def rename_op_def zeroOp_def spec_meta_def
  spec_create_def spec_rename_def small_numbers Let_def

lemma create_rename_once:
  assumes "a_inodes a 0 = Some r" and "i_Type r = TypeDirectory" and "a_dents a 0 ''a'' = None"
  shows "\<exists>a'. spec_all create_rename a = Inr a' \<and> a_dents a' 0 = (a_dents a 0)(''b'' \<mapsto> 7) \<and> is_dir a' 0
     \<and> (if a_dents a 0 ''b'' = Some 7 then a_inodes a' 7 = None else a_inodes a' 7 \<noteq> None)"
  using assms by (auto simp: create_rename_def eval_commands touched_def is_dir_def fun_upd_twist split: option.split)


end
