(* ===== verification/ChunkService.thy ===== *)
theory ChunkService
  imports Keys OsFile
begin

text \<open>
  The chunk service of a node (\<^verbatim>\<open>internal/chunk_service/local_disc/local_disc_posix_chunk_service.go\<close>):
  chunks are files of a directory; a transaction first writes \<^verbatim>\<open><chunk>_<txn>.tmp\<close> and fsyncs it
  (prepare), then renames it to \<^verbatim>\<open><chunk>\<close> (commit) or removes it (abort); an index in memory holds
  the one prepared transaction per chunk.  A read that finds no committed file asks the metadata
  service for the state of the prepared transaction and finishes it.

  The service's state is a record, the file system is that of \<open>OsFile\<close>, with failures and crashes.
  \<^verbatim>\<open>sha256\<close> is the parameter \<open>sha\<close>: nothing below depends on which function it is.  The metadata
  service is the parameter \<open>ist\<close>, the answers of \<^verbatim>\<open>GetIntentState\<close>; the directory listing of \<^verbatim>\<open>os.ReadDir\<close>
  is an argument.  Files of the chunk directory hold raw bytes.  Latency metrics are left out.
\<close>

section \<open>Paths\<close>

text \<open>\<^verbatim>\<open>filepath.Clean\<close> and \<^verbatim>\<open>filepath.Join\<close> on Unix, component by component.\<close>

definition clean_step :: "bool \<Rightarrow> string list \<Rightarrow> string \<Rightarrow> string list" where
  "clean_step rooted stack part =
     (if part = [] \<or> part = ''.'' then stack
      else if part = ''..'' then
        (case stack of
           [] \<Rightarrow> (if rooted then [] else [part])
         | p # rest \<Rightarrow> (if p = ''..'' then part # stack else rest))
      else part # stack)"

fun join_slash :: "string list \<Rightarrow> string" where
  "join_slash [] = []"
| "join_slash [p] = p"
| "join_slash (p # ps) = p @ CHR ''/'' # join_slash ps"

definition filepath_Clean :: "string \<Rightarrow> string" where
  "filepath_Clean p =
     (if p = [] then ''.''
      else let rooted = (hd p = CHR ''/'');
               body = join_slash (rev (foldl (clean_step rooted) [] (strings_Split (CHR ''/'') p)))
           in if rooted then CHR ''/'' # body else if body = [] then ''.'' else body)"

definition filepath_Join :: "string \<Rightarrow> string \<Rightarrow> string" where
  "filepath_Join dir name =
     (if dir \<noteq> [] then filepath_Clean (dir @ CHR ''/'' # name)
      else if name \<noteq> [] then filepath_Clean name else [])"

section \<open>State\<close>

record PreparedIndexEntry =
  pe_TxnID :: string
  pe_ChunkID :: string
  pe_TempFilePath :: string
  pe_CreatedAt :: int

record LocalDiscChunkService =
  baseDir :: string
  cs_ms :: bool
  preparedIndex :: "string \<rightharpoonup> PreparedIndexEntry"

definition preparedEntryTTL :: int where
  "preparedEntryTTL = 10 * 60 * 1000000000"

fun raw :: "blob \<Rightarrow> bytes" where
  "raw (Raw b) = b"
| "raw _ = []"

definition NewLocalDiscChunkService :: "string \<Rightarrow> fs \<Rightarrow> LocalDiscChunkService result \<times> fs" where
  "NewLocalDiscChunkService dir f =
     (case os_MkdirAll f of
        (Some e, f') \<Rightarrow> (Inl (Wrap ''creating chunk storage directory'' e), f')
      | (None, f') \<Rightarrow> (Inr \<lparr>baseDir = dir, cs_ms = False, preparedIndex = Map.empty\<rparr>, f'))"

definition SetMetadataService :: "LocalDiscChunkService \<Rightarrow> LocalDiscChunkService" where
  "SetMetadataService cs = cs\<lparr>cs_ms := True\<rparr>"

definition finalChunkPath :: "LocalDiscChunkService \<Rightarrow> string \<Rightarrow> string" where
  "finalChunkPath cs chunkID = filepath_Join (baseDir cs) chunkID"

definition tempFileName :: "string \<Rightarrow> string \<Rightarrow> string" where
  "tempFileName chunkID txnID = chunkID @ ''_'' @ txnID @ ''.tmp''"

definition tempFilePath :: "LocalDiscChunkService \<Rightarrow> string \<Rightarrow> string \<Rightarrow> string" where
  "tempFilePath cs chunkID txnID = filepath_Join (baseDir cs) (tempFileName chunkID txnID)"

definition addToPreparedIndex ::
  "int \<Rightarrow> string \<Rightarrow> string \<Rightarrow> string \<Rightarrow> LocalDiscChunkService \<Rightarrow> LocalDiscChunkService" where
  "addToPreparedIndex now txnID chunkID tempPath cs =
     cs\<lparr>preparedIndex := (preparedIndex cs)(chunkID \<mapsto>
        \<lparr>pe_TxnID = txnID, pe_ChunkID = chunkID, pe_TempFilePath = tempPath, pe_CreatedAt = now\<rparr>)\<rparr>"

definition removeFromPreparedIndex :: "string \<Rightarrow> LocalDiscChunkService \<Rightarrow> LocalDiscChunkService" where
  "removeFromPreparedIndex chunkID cs = cs\<lparr>preparedIndex := (preparedIndex cs)(chunkID := None)\<rparr>"

definition isExpired :: "int \<Rightarrow> int \<Rightarrow> bool" where
  "isExpired now createdAt \<longleftrightarrow> now - createdAt > preparedEntryTTL"

section \<open>Starting\<close>

text \<open>\<^verbatim>\<open>Start\<close> on the entries of the chunk directory: each a name and whether it is a directory.\<close>

definition has_suffix :: "string \<Rightarrow> string \<Rightarrow> bool" where
  "has_suffix s suf \<longleftrightarrow> length suf \<le> length s \<and> drop (length s - length suf) s = suf"

definition indexEntry :: "int \<Rightarrow> string \<times> bool \<Rightarrow> LocalDiscChunkService \<Rightarrow> LocalDiscChunkService" where
  "indexEntry now entry cs =
     (if snd entry \<or> \<not> has_suffix (fst entry) ''.tmp'' then cs
      else case strings_Split (CHR ''_'') (take (length (fst entry) - 4) (fst entry)) of
             [chunkID, txnID] \<Rightarrow> addToPreparedIndex now txnID chunkID (filepath_Join (baseDir cs) (fst entry)) cs
           | _ \<Rightarrow> cs)"

definition chunkStart :: "int \<Rightarrow> (string \<times> bool) list result \<Rightarrow> LocalDiscChunkService \<Rightarrow> error option \<times> LocalDiscChunkService" where
  "chunkStart now listing cs =
     (case listing of Inl e \<Rightarrow> (Some e, cs) | Inr entries \<Rightarrow> (None, fold (indexEntry now) entries cs))"

section \<open>Operations\<close>

definition PrepareChunk ::
  "(bytes \<Rightarrow> string) \<Rightarrow> int \<Rightarrow> string \<Rightarrow> string \<Rightarrow> bytes \<Rightarrow> string \<Rightarrow> LocalDiscChunkService \<Rightarrow> fs
   \<Rightarrow> error option \<times> LocalDiscChunkService \<times> fs" where
  "PrepareChunk sha now txnID chunkID data expectedChecksum cs f0 =
     (let tmp = tempFilePath cs chunkID txnID;
          (statErr, f1) = os_Stat tmp f0;
          (found, f2) = (if statErr = None
                         then (case os_ReadFile tmp f1 of
                                 (Inr b, f2) \<Rightarrow> (length (raw b) = length data \<and> sha (raw b) = expectedChecksum, f2)
                               | (Inl _, f2) \<Rightarrow> (False, f2))
                         else (False, f1))
      in if found then (None, addToPreparedIndex now txnID chunkID tmp cs, f2)
         else case os_OpenTrunc tmp f2 of
           (Some e, f3) \<Rightarrow> (Some (Wrap ''failed to open temp file'' e), cs, f3)
         | (None, f3) \<Rightarrow>
             (case f_Write tmp (Raw data) f3 of
                (Some e, f4) \<Rightarrow> (Some (Wrap ''failed to write chunk data'' e), cs, snd (f_Close f4))
              | (None, f4) \<Rightarrow>
                  (case f_Sync tmp f4 of
                     (Some e, f5) \<Rightarrow> (Some (Wrap ''failed to fsync temp file'' e), cs, snd (f_Close f5))
                   | (None, f5) \<Rightarrow> (None, addToPreparedIndex now txnID chunkID tmp cs, snd (f_Close f5)))))"

definition CommitChunk ::
  "string \<Rightarrow> string \<Rightarrow> LocalDiscChunkService \<Rightarrow> fs \<Rightarrow> error option \<times> LocalDiscChunkService \<times> fs" where
  "CommitChunk txnID chunkID cs f =
     (case preparedIndex cs chunkID of
        None \<Rightarrow>
          (case os_Stat (finalChunkPath cs chunkID) f of
             (None, f') \<Rightarrow> (None, cs, f')
           | (Some _, f') \<Rightarrow> (Some (Errorf ''transaction not found and chunk not finalized''), cs, f'))
      | Some entry \<Rightarrow>
          if pe_TxnID entry \<noteq> txnID then (Some (Errorf ''txnID mismatch''), cs, f)
          else case os_Rename (pe_TempFilePath entry) (finalChunkPath cs chunkID) f of
                 (Some e, f') \<Rightarrow> (Some (Wrap ''failed to commit chunk via rename'' e), cs, f')
               | (None, f') \<Rightarrow> (None, removeFromPreparedIndex chunkID cs, f'))"

definition AbortChunk ::
  "string \<Rightarrow> string \<Rightarrow> LocalDiscChunkService \<Rightarrow> fs \<Rightarrow> error option \<times> LocalDiscChunkService \<times> fs" where
  "AbortChunk txnID chunkID cs f =
     (case preparedIndex cs chunkID of
        None \<Rightarrow> (None, cs, f)
      | Some entry \<Rightarrow>
          if pe_TxnID entry \<noteq> txnID then (Some (Errorf ''txnID mismatch''), cs, f)
          else case os_Remove (pe_TempFilePath entry) f of
                 (Some e, f') \<Rightarrow>
                   if e = OsNotExist then (None, removeFromPreparedIndex chunkID cs, f')
                   else (Some (Wrap ''failed to delete aborted chunk'' e), cs, f')
               | (None, f') \<Rightarrow> (None, removeFromPreparedIndex chunkID cs, f'))"

text \<open>
  \<^verbatim>\<open>ReadChunk\<close> up to the question to the metadata service, which it asks without holding a lock, and
  from its answer on.
\<close>

datatype read_begin = ReadDone "bytes result" | ReadPending PreparedIndexEntry

definition readBegin :: "string \<Rightarrow> LocalDiscChunkService \<Rightarrow> fs \<Rightarrow> read_begin \<times> fs" where
  "readBegin chunkID cs f =
     (case os_ReadFile (finalChunkPath cs chunkID) f of
        (Inr b, f') \<Rightarrow> (ReadDone (Inr (raw b)), f')
      | (Inl _, f') \<Rightarrow>
          (case preparedIndex cs chunkID of
             None \<Rightarrow> ReadDone (Inl ErrChunkNotFound)
           | Some entry \<Rightarrow>
               if \<not> cs_ms cs then ReadDone (Inl (Errorf ''metadata service is not configured'')) else ReadPending entry, f'))"

definition finalizeChunk ::
  "string \<Rightarrow> PreparedIndexEntry \<Rightarrow> LocalDiscChunkService \<Rightarrow> fs \<Rightarrow> bytes result \<times> LocalDiscChunkService \<times> fs" where
  "finalizeChunk chunkID entry cs f =
     (let (statErr, f1) = os_Stat (finalChunkPath cs chunkID) f
      in case (if statErr = Some OsNotExist then os_Rename (pe_TempFilePath entry) (finalChunkPath cs chunkID) f1 else (None, f1)) of
           (Some e, f2) \<Rightarrow> (Inl (Wrap ''failed to finalize chunk'' e), cs, f2)
         | (None, f2) \<Rightarrow>
             let (r, f3) = os_ReadFile (finalChunkPath cs chunkID) f2
             in (map_sum id raw r, removeFromPreparedIndex chunkID cs, f3))"

definition readFinish ::
  "int \<Rightarrow> string \<Rightarrow> PreparedIndexEntry \<Rightarrow> IntentState \<Rightarrow> LocalDiscChunkService \<Rightarrow> fs
   \<Rightarrow> bytes result \<times> LocalDiscChunkService \<times> fs" where
  "readFinish now chunkID entry st cs f =
     (if st = StateCommitted then finalizeChunk chunkID entry cs f
      else if st = StateAborted \<or> (st = StateUnknown \<and> isExpired now (pe_CreatedAt entry))
      then (Inl (Errorf ''chunk write was aborted or expired''), removeFromPreparedIndex chunkID cs,
            snd (os_Remove (pe_TempFilePath entry) f))
      else (Inl (Errorf ''chunk is currently locked in an active transaction''), cs, f))"

definition ReadChunk ::
  "(string \<Rightarrow> IntentState result) \<Rightarrow> int \<Rightarrow> string \<Rightarrow> LocalDiscChunkService \<Rightarrow> fs
   \<Rightarrow> bytes result \<times> LocalDiscChunkService \<times> fs" where
  "ReadChunk ist now chunkID cs f =
     (case readBegin chunkID cs f of
        (ReadDone r, f') \<Rightarrow> (r, cs, f')
      | (ReadPending entry, f') \<Rightarrow>
          (case ist (pe_TxnID entry) of
             Inl e \<Rightarrow> (Inl (Wrap ''failed to get intent state'' e), cs, f')
           | Inr st \<Rightarrow> readFinish now chunkID entry st cs f'))"

definition DeleteChunkLocal :: "string \<Rightarrow> LocalDiscChunkService \<Rightarrow> fs \<Rightarrow> error option \<times> fs" where
  "DeleteChunkLocal chunkID cs f =
     (case os_Remove (finalChunkPath cs chunkID) f of
        (Some e, f') \<Rightarrow> (if e = OsNotExist then None else Some e, f')
      | (None, f') \<Rightarrow> (None, f'))"

section \<open>Requests\<close>

text \<open>
  The chunk requests of \<^verbatim>\<open>internal/communication/communicator.go\<close>, and what the data plane of a node does
  with them (\<^verbatim>\<open>HandlePrepareChunk\<close> and its kin in \<^verbatim>\<open>raft_data_plane.go\<close>): it calls the chunk service.
  A call without a result gives empty bytes.
\<close>

datatype ChunkRequest =
    PrepareChunkRequest string string bytes string
  | CommitChunkRequest string string
  | AbortChunkRequest string string
  | ReadChunkRequest string
  | DeleteChunkRequest string

definition unit_reply :: "error option \<Rightarrow> bytes result" where
  "unit_reply e = (case e of None \<Rightarrow> Inr [] | Some e \<Rightarrow> Inl e)"

fun handleChunk ::
  "(bytes \<Rightarrow> string) \<Rightarrow> (string \<Rightarrow> IntentState result) \<Rightarrow> int \<Rightarrow> ChunkRequest \<Rightarrow> LocalDiscChunkService \<Rightarrow> fs
   \<Rightarrow> bytes result \<times> LocalDiscChunkService \<times> fs" where
  "handleChunk sha ist now (PrepareChunkRequest txnID chunkID data checksum) cs f =
     apfst unit_reply (PrepareChunk sha now txnID chunkID data checksum cs f)"
| "handleChunk sha ist now (CommitChunkRequest txnID chunkID) cs f = apfst unit_reply (CommitChunk txnID chunkID cs f)"
| "handleChunk sha ist now (AbortChunkRequest txnID chunkID) cs f = apfst unit_reply (AbortChunk txnID chunkID cs f)"
| "handleChunk sha ist now (ReadChunkRequest chunkID) cs f = ReadChunk ist now chunkID cs f"
| "handleChunk sha ist now (DeleteChunkRequest chunkID) cs f =
     (case DeleteChunkLocal chunkID cs f of (e, f') \<Rightarrow> (unit_reply e, cs, f'))"

end
