(* ===== verification/DataPlane.thy ===== *)
theory DataPlane
  imports ChunkService "HOL-Library.Signed_Division" "HOL-Library.Multiset"
begin

text \<open>
  The data plane (\<^verbatim>\<open>internal/orchestrators/raft_data_plane.go\<close>) with the cluster view it resolves
  addresses in (\<^verbatim>\<open>cluster_endpoint_resolver.go\<close>), the choice of replicas (\<^verbatim>\<open>cluster_placement.go\<close>) and
  the messages between nodes (\<^verbatim>\<open>internal/communication/communicator.go\<close>).

  The nodes of the cluster are a map from addresses to node states; what a node does with a chunk
  request is the parameter \<open>serve\<close>.  The network is scripted: each message consumes one element of
  \<open>script\<close> (none left means delivered), so that a statement about every script is one about every
  loss of a request or of a reply.  The cluster view is the pair of answers the cluster service
  gives.  Go's \<^verbatim>\<open>int\<close> and \<^verbatim>\<open>int64\<close> are the 64-bit integers; division and remainder truncate.
\<close>

section \<open>Messages\<close>

datatype SandCode = CodeOK | CodeBadRequest | CodeNotFound | CodeAlreadyExists | CodeNotLeader | CodeInternal | CodeUnavailable
  | CodeOther string

record chunk_response =
  cr_Code :: SandCode
  cr_Body :: bytes

text \<open>The code \<^verbatim>\<open>respond\<close> gives an error, and a node's answer to a chunk request; the text of an error is not kept.\<close>

definition code_of_error :: "error \<Rightarrow> SandCode" where
  "code_of_error e =
     (if errors_Is e ErrAlreadyExists then CodeAlreadyExists
      else if errors_Is e ErrNotFound then CodeNotFound else CodeInternal)"

definition chunkResponse :: "bytes result \<Rightarrow> chunk_response" where
  "chunkResponse r = (case r of Inl e \<Rightarrow> \<lparr>cr_Code = code_of_error e, cr_Body = []\<rparr> | Inr d \<Rightarrow> \<lparr>cr_Code = CodeOK, cr_Body = d\<rparr>)"

datatype delivery = Delivered | RequestLost | ReplyLost

record 's world =
  w_nodes :: "string \<rightharpoonup> 's"
  w_script :: "delivery list"

type_synonym 's chunk_server = "string \<Rightarrow> ChunkRequest \<Rightarrow> 's \<Rightarrow> bytes result \<times> 's"

definition ErrMessageSendFailed :: error where
  "ErrMessageSendFailed = Errorf ''failed to send message''"

definition next_delivery :: "'s world \<Rightarrow> delivery \<times> 's world" where
  "next_delivery w = (case w_script w of [] \<Rightarrow> (Delivered, w) | d # ds \<Rightarrow> (d, w\<lparr>w_script := ds\<rparr>))"

definition Send :: "'s chunk_server \<Rightarrow> string \<Rightarrow> ChunkRequest \<Rightarrow> 's world \<Rightarrow> chunk_response result \<times> 's world" where
  "Send serve addr req w0 =
     (let (dl, w) = next_delivery w0
      in case w_nodes w addr of
           None \<Rightarrow> (Inl ErrMessageSendFailed, w)
         | Some s \<Rightarrow>
             if dl = RequestLost then (Inl ErrMessageSendFailed, w)
             else let (r, s') = serve addr req s;
                      w' = w\<lparr>w_nodes := (w_nodes w)(addr \<mapsto> s')\<rparr>
                  in (if dl = ReplyLost then Inl ErrMessageSendFailed else Inr (chunkResponse r), w'))"

section \<open>The cluster view\<close>

record cluster_view =
  allNodes :: "Node list result"
  healthyNodes :: "Node list result"

definition clusterNodes :: "cluster_view \<Rightarrow> Node list result" where
  "clusterNodes v = (case allNodes v of Inr (n # ns) \<Rightarrow> Inr (n # ns) | _ \<Rightarrow> healthyNodes v)"

definition ResolveEndpoint :: "cluster_view \<Rightarrow> string \<Rightarrow> string result" where
  "ResolveEndpoint v logicalAlias =
     rbind (clusterNodes v) (\<lambda>nodes.
     case find (\<lambda>n. node_ID n = logicalAlias) nodes of
       Some n \<Rightarrow> Inr (node_Address n)
     | None \<Rightarrow> Inl (Errorf ''node not found in cluster view''))"

definition defaultReplicaCount :: int where
  "defaultReplicaCount = 3"

definition NewSortedPlacementStrategy :: "int \<Rightarrow> int" where
  "NewSortedPlacementStrategy replicaCount = (if replicaCount \<le> 0 then defaultReplicaCount else replicaCount)"

definition location :: "Node \<Rightarrow> ChunkLocation" where
  "location n = \<lparr>LogicalNodeAlias = node_ID n, PhysicalEndpoint = node_Address n\<rparr>"

text \<open>
  \<open>own\<close> is the strategy's replica count, \<open>replicaCount\<close> the one of the call.  \<^verbatim>\<open>sort.Slice\<close> leaves open how it orders
  nodes of the same name; here they keep their order.  The property below is about distinct names.
\<close>

definition SelectTargets :: "cluster_view \<Rightarrow> int \<Rightarrow> int \<Rightarrow> ChunkLocation list result" where
  "SelectTargets v own replicaCount0 =
     (let r1 = (if replicaCount0 \<le> 0 then own else replicaCount0);
          replicaCount = (if r1 \<le> 0 then defaultReplicaCount else r1)
      in rbind (clusterNodes v) (\<lambda>nodes.
           let filtered = filter (\<lambda>n. node_ID n \<noteq> [] \<and> node_Address n \<noteq> []) nodes
           in if int (length filtered) < replicaCount
              then Inl (Errorf ''insufficient nodes for prepare'')
              else Inr (map location (take (nat replicaCount) (sort_key node_ID filtered)))))"

section \<open>The data plane\<close>

record data_plane =
  dp_chunkSize :: int
  dp_resolver :: bool
  dp_view :: cluster_view

definition resolveEndpoint :: "data_plane \<Rightarrow> ChunkLocation \<Rightarrow> string result" where
  "resolveEndpoint d target =
     (if \<not> dp_resolver d then Inr (PhysicalEndpoint target) else ResolveEndpoint (dp_view d) (LogicalNodeAlias target))"

definition sendReadRPC :: "'s chunk_server \<Rightarrow> data_plane \<Rightarrow> ChunkLocation \<Rightarrow> string \<Rightarrow> 's world \<Rightarrow> bytes result \<times> 's world" where
  "sendReadRPC serve d target chunkID w =
     (case resolveEndpoint d target of
        Inl e \<Rightarrow> (Inl e, w)
      | Inr addr \<Rightarrow>
          (case Send serve addr (ReadChunkRequest chunkID) w of
             (Inl e, w') \<Rightarrow> (Inl e, w')
           | (Inr resp, w') \<Rightarrow>
               (if cr_Code resp \<noteq> CodeOK then Inl (Errorf ''read from node returned'') else Inr (cr_Body resp), w')))"

fun ExecuteRead :: "'s chunk_server \<Rightarrow> data_plane \<Rightarrow> string \<Rightarrow> ChunkLocation list \<Rightarrow> 's world \<Rightarrow> bytes result \<times> 's world" where
  "ExecuteRead serve d chunkID [] w = (Inl (Errorf ''all replicas failed to serve chunk''), w)"
| "ExecuteRead serve d chunkID (target # targets) w =
     (case sendReadRPC serve d target chunkID w of
        (Inr data, w') \<Rightarrow> (Inr data, w')
      | (Inl _, w') \<Rightarrow> ExecuteRead serve d chunkID targets w')"

text \<open>\<^verbatim>\<open>copy(dst[off:], src)\<close> for \<open>off \<le> len(dst)\<close>: as many bytes as fit.\<close>

definition copy_at :: "nat \<Rightarrow> bytes \<Rightarrow> bytes \<Rightarrow> bytes" where
  "copy_at off src dst = take off dst @ take (length dst - off) src @ drop (off + length src) dst"

definition zeros :: "nat \<Rightarrow> bytes" where
  "zeros n = replicate n (CHR 0x00)"

definition prepareWritePayload ::
  "'s chunk_server \<Rightarrow> data_plane \<Rightarrow> string \<Rightarrow> int \<Rightarrow> bytes \<Rightarrow> ChunkLocation list \<Rightarrow> bool \<Rightarrow> 's world \<Rightarrow> bytes result \<times> 's world" where
  "prepareWritePayload serve d chunkID offset data targets isNewChunk w =
     (if dp_chunkSize d = 0 then (Inl (Panic ''integer divide by zero''), w)
      else
        let writeOffset = offset smod dp_chunkSize d;
            requiredLen = int64 (writeOffset + int (length data));
            isFullOverwrite = (writeOffset = 0 \<and> int (length data) = dp_chunkSize d)
        in if isNewChunk then
             (if writeOffset < 0 \<or> requiredLen < 0 then (Inl (Panic ''slice bounds out of range''), w)
              else (Inr (copy_at (nat writeOffset) data (zeros (nat requiredLen))), w))
           else if isFullOverwrite then (Inr (copy_at 0 data (zeros (length data))), w)
           else
             case ExecuteRead serve d chunkID targets w of
               (Inl e, w') \<Rightarrow> (Inl e, w')
             | (Inr existingData, w') \<Rightarrow>
                 let finalLen = (if requiredLen > int (length existingData) then requiredLen else int (length existingData))
                 in if writeOffset < 0 \<or> writeOffset > finalLen then (Inl (Panic ''slice bounds out of range''), w')
                    else (Inr (copy_at (nat writeOffset) data (copy_at 0 existingData (zeros (nat finalLen)))), w'))"

text \<open>
  The prepare messages.  The goroutines of \<^verbatim>\<open>ExecuteWrite\<close> touch different nodes; they are run in the order
  in which they finish, which is that of the errors in \<^verbatim>\<open>errCh\<close>.
\<close>

definition prepareOne :: "'s chunk_server \<Rightarrow> data_plane \<Rightarrow> ChunkRequest \<Rightarrow> ChunkLocation \<Rightarrow> 's world \<Rightarrow> error option \<times> 's world" where
  "prepareOne serve d req target w =
     (case resolveEndpoint d target of
        Inl e \<Rightarrow> (Some (Wrap ''resolve endpoint for node failed'' e), w)
      | Inr addr \<Rightarrow>
          (case Send serve addr req w of
             (Inl e, w') \<Rightarrow> (Some (Wrap ''prepare to node failed'' e), w')
           | (Inr resp, w') \<Rightarrow> (if cr_Code resp \<noteq> CodeOK then Some (Errorf ''prepare to node returned'') else None, w')))"

fun prepareAll ::
  "'s chunk_server \<Rightarrow> data_plane \<Rightarrow> ChunkRequest \<Rightarrow> ChunkLocation list \<Rightarrow> 's world \<Rightarrow> error list \<times> 's world" where
  "prepareAll serve d req [] w = ([], w)"
| "prepareAll serve d req (target # targets) w =
     (case prepareOne serve d req target w of
        (e, w') \<Rightarrow> apfst (\<lambda>es. case e of None \<Rightarrow> es | Some e \<Rightarrow> e # es) (prepareAll serve d req targets w'))"

definition ExecuteWrite ::
  "'s chunk_server \<Rightarrow> (bytes \<Rightarrow> string) \<Rightarrow> (ChunkLocation list \<Rightarrow> ChunkLocation list) \<Rightarrow> data_plane \<Rightarrow> string \<Rightarrow> string \<Rightarrow> int \<Rightarrow> bytes
   \<Rightarrow> ChunkLocation list \<Rightarrow> bool \<Rightarrow> 's world \<Rightarrow> error option \<times> 's world" where
  "ExecuteWrite serve sha sched d txnID chunkID offset data targets isNewChunk w =
     (case prepareWritePayload serve d chunkID offset data targets isNewChunk w of
        (Inl e, w') \<Rightarrow> (Some e, w')
      | (Inr finalData, w') \<Rightarrow>
          (case prepareAll serve d (PrepareChunkRequest txnID chunkID finalData (sha finalData)) (sched targets) w' of
             ([], w'') \<Rightarrow> (None, w'')
           | (firstErr # _, w'') \<Rightarrow> (Some (Wrap ''prepare RPCs failed'' firstErr), w'')))"

end
