(* ===== verification/ControlPlane.thy ===== *)
theory ControlPlane
  imports BoltMeta DataPlane
begin

text \<open>
  The control plane (\<^verbatim>\<open>internal/orchestrators/control_plane.go\<close>) with the transaction coordinator
  (\<^verbatim>\<open>raft_tx_coordinator.go\<close>): a write is prepared (which chunk, which nodes, which transaction),
  committed through the replicated log together with the file's new metadata, or aborted.

  The commit and abort notices of the coordinator are goroutines that nobody waits for: they are
  returned as a list of messages still to be delivered.  The names \<^verbatim>\<open>uuid.NewString()\<close> gives are arguments,
  as are the moments of \<^verbatim>\<open>time.Now()\<close>.  Division is Go's: it truncates, wraps and panics at zero.
  Latency metrics are left out.
\<close>

section \<open>State\<close>

record control_plane =
  cp_chunkSize :: int
  cp_replicaCount :: int
  cp_ownReplicas :: int
  cp_view :: cluster_view

type_synonym outbox = "(string \<times> ChunkRequest) list"

definition defaultChunkSize :: int where
  "defaultChunkSize = 8 * 1024 * 1024"

text \<open>\<open>own\<close> and \<open>v\<close> are the replica count and the cluster service of the placement strategy.\<close>

definition NewControlPlaneOrchestrator :: "int \<Rightarrow> cluster_view \<Rightarrow> int \<Rightarrow> int \<Rightarrow> control_plane" where
  "NewControlPlaneOrchestrator own v chunkSize replicaCount =
     \<lparr>cp_chunkSize = (if chunkSize \<le> 0 then defaultChunkSize else chunkSize),
      cp_replicaCount = (if replicaCount \<le> 0 then defaultReplicaCount else replicaCount),
      cp_ownReplicas = own, cp_view = v\<rparr>"

definition cpStart ::
  "'db bbolt \<Rightarrow> ('db service \<Rightarrow> error option \<times> 'db service) \<Rightarrow> int \<Rightarrow> control_plane \<Rightarrow> 'db service
   \<Rightarrow> error option \<times> control_plane \<times> 'db service" where
  "cpStart B rstart now c s =
     (case Start B rstart now s of
        (Some e, s') \<Rightarrow> (Some e, c, s')
      | (None, s') \<Rightarrow>
          if cp_chunkSize c \<le> 0
          then case GetFsInfo B (\<lambda>_. None) s' of
                 Inl e \<Rightarrow> (Some e, c, s')
               | Inr info \<Rightarrow> (None, c\<lparr>cp_chunkSize := fi_ChunkSize info\<rparr>, s')
          else (None, c, s'))"

definition cpStop :: "'db bbolt \<Rightarrow> error option \<Rightarrow> 'db service \<Rightarrow> error option \<times> 'db service" where
  "cpStop B rstop s = Stop B rstop s"

section \<open>The transaction coordinator\<close>

definition extractParticipantIDs :: "ChunkLocation list \<Rightarrow> string list" where
  "extractParticipantIDs participants = map LogicalNodeAlias participants"

definition broadcastCommitAsync :: "string \<Rightarrow> string \<Rightarrow> ChunkLocation list \<Rightarrow> outbox" where
  "broadcastCommitAsync txnID chunkID participants =
     map (\<lambda>p. (PhysicalEndpoint p, CommitChunkRequest txnID chunkID)) participants"

definition broadcastAbortAsync :: "string \<Rightarrow> string \<Rightarrow> ChunkLocation list \<Rightarrow> outbox" where
  "broadcastAbortAsync txnID chunkID participants =
     map (\<lambda>p. (PhysicalEndpoint p, AbortChunkRequest txnID chunkID)) participants"

definition txInit :: "string \<Rightarrow> string \<Rightarrow> ChunkLocation list \<Rightarrow> unit result" where
  "txInit txnID chunkID participants = Inr ()"

definition txCommit ::
  "'db replicate \<Rightarrow> int \<Rightarrow> string \<Rightarrow> string \<Rightarrow> MetadataOperation \<Rightarrow> ChunkLocation list \<Rightarrow> 'db service
   \<Rightarrow> error option \<times> outbox \<times> 'db service" where
  "txCommit rep now txnID chunkID metaUpdate participants s =
     (case rep (json_Marshal_envelope
             \<lparr>env_Type = PayloadChunkIntent, env_PosixMeta = Some metaUpdate,
              env_ChunkIntent = Some \<lparr>ci_TxnID = txnID, ci_ChunkID = chunkID, ci_NodeIDs = extractParticipantIDs participants,
                ci_State = StateCommitted, ci_Timestamp = now\<rparr>\<rparr>) s of
        (Some e, s') \<Rightarrow> (Some (Wrap ''consensus commit failed'' e), [], s')
      | (None, s') \<Rightarrow> (None, broadcastCommitAsync txnID chunkID participants, s'))"

definition txAbort :: "string \<Rightarrow> string \<Rightarrow> ChunkLocation list \<Rightarrow> error option \<times> outbox" where
  "txAbort txnID chunkID participants = (None, broadcastAbortAsync txnID chunkID participants)"

section \<open>Writing and reading\<close>

definition go_div :: "int \<Rightarrow> int \<Rightarrow> int result" where
  "go_div a b = (if b = 0 then Inl (Panic ''integer divide by zero'') else Inr (int64 (a sdiv b)))"

definition isWithinChunkBoundary :: "control_plane \<Rightarrow> int \<Rightarrow> int \<Rightarrow> bool result" where
  "isWithinChunkBoundary c offset len =
     (if len \<le> 0 then Inr True
      else rbind (go_div offset (cp_chunkSize c)) (\<lambda>startChunk.
           rbind (go_div (int64 (int64 (offset + len) - 1)) (cp_chunkSize c)) (\<lambda>endChunk.
           Inr (startChunk = endChunk))))"

text \<open>The chunk at an index of the list; Go panics on a negative one (the callers have ruled out one past the end).\<close>

definition chunk_at :: "ChunkDescriptor list \<Rightarrow> int \<Rightarrow> ChunkDescriptor result" where
  "chunk_at cs i = (if i < 0 \<or> int (length cs) \<le> i then Inl (Panic ''index out of range'') else Inr (cs ! nat i))"

definition PrepareFileWrite ::
  "'db bbolt \<Rightarrow> ctxt \<Rightarrow> control_plane \<Rightarrow> string \<Rightarrow> string \<Rightarrow> string \<Rightarrow> int \<Rightarrow> int \<Rightarrow> 'db service \<Rightarrow> WriteContext result" where
  "PrepareFileWrite B ctx c newChunkID txnID inodeID offset len s =
     (if len < 0 then Inl ErrInvalidLength
      else rbind (isWithinChunkBoundary c offset len) (\<lambda>within.
      if \<not> within then Inl ErrCrossChunkWrite
      else rbind (GetInode B ctx inodeID s) (\<lambda>inode.
      if i_Type inode \<noteq> TypeFile then Inl ErrIsDirectory
      else rbind (go_div offset (cp_chunkSize c)) (\<lambda>chunkIdx.
      let isNewChunk = (int (length (i_ChunkList inode)) \<le> chunkIdx)
      in rbind (if isNewChunk
                then rbind (SelectTargets (cp_view c) (cp_ownReplicas c) (cp_replicaCount c)) (\<lambda>targets. Inr (newChunkID, targets))
                else rbind (chunk_at (i_ChunkList inode) chunkIdx) (\<lambda>cd. Inr (cd_ChunkID cd, cd_Locations cd)))
         (\<lambda>(chunkID, targets).
         rbind (txInit txnID chunkID targets) (\<lambda>_.
         Inr \<lparr>wc_TxnID = txnID, wc_ChunkID = chunkID, wc_TargetNodes = targets, wc_IsNewChunk = isNewChunk\<rparr>))))))"

definition CommitFileWrite ::
  "'db bbolt \<Rightarrow> 'db replicate \<Rightarrow> ctxt \<Rightarrow> string \<Rightarrow> int \<Rightarrow> int \<Rightarrow> string \<Rightarrow> string \<Rightarrow> string \<Rightarrow> int \<Rightarrow> bool \<Rightarrow> ChunkLocation list
   \<Rightarrow> 'db service \<Rightarrow> error option \<times> outbox \<times> 'db service" where
  "CommitFileWrite B rep ctx opid mtime now txnID inodeID chunkID newEOF isNewChunk targets s =
     (case GetInode B ctx inodeID s of
        Inl e \<Rightarrow> (Some e, [], s)
      | Inr inode \<Rightarrow>
          let newChunkList = i_ChunkList inode @ (if isNewChunk then [\<lparr>cd_ChunkID = chunkID, cd_Locations = targets\<rparr>] else []);
              size = (if newEOF > i_FileSize inode then newEOF else i_FileSize inode)
          in txCommit rep now txnID chunkID
               ((zeroOp OpUpdateInode)\<lparr>op_InodeID := i_InodeID inode, op_NewSize := Some size,
                  op_NewChunkList := Some newChunkList, op_SetMTime := Some mtime, op_OpID := opid, op_Timestamp := mtime\<rparr>)
               targets s)"

definition AbortFileWrite :: "string \<Rightarrow> string \<Rightarrow> ChunkLocation list \<Rightarrow> error option \<times> outbox" where
  "AbortFileWrite txnID chunkID targets = txAbort txnID chunkID targets"

definition PrepareFileRead ::
  "'db bbolt \<Rightarrow> ctxt \<Rightarrow> control_plane \<Rightarrow> string \<Rightarrow> int \<Rightarrow> 'db service \<Rightarrow> ReadContext result" where
  "PrepareFileRead B ctx c inodeID offset s =
     rbind (GetInode B ctx inodeID s) (\<lambda>inode.
     if i_FileSize inode \<le> offset then Inr \<lparr>rc_ChunkID = [], rc_TargetNodes = []\<rparr>
     else rbind (go_div offset (cp_chunkSize c)) (\<lambda>chunkIdx.
     if int (length (i_ChunkList inode)) \<le> chunkIdx then Inr \<lparr>rc_ChunkID = [], rc_TargetNodes = []\<rparr>
     else rbind (chunk_at (i_ChunkList inode) chunkIdx) (\<lambda>cd.
     Inr \<lparr>rc_ChunkID = cd_ChunkID cd, rc_TargetNodes = cd_Locations cd\<rparr>)))"

section \<open>Metadata operations\<close>

text \<open>The remaining methods hand the call on to the metadata service.\<close>

definition cpGetAttr :: "'db bbolt \<Rightarrow> ctxt \<Rightarrow> string \<Rightarrow> 'db service \<Rightarrow> Attributes result" where
  "cpGetAttr B ctx inodeID s = GetAttributes B ctx inodeID s"

definition cpSetAttr ::
  "'db bbolt \<Rightarrow> 'db replicate \<Rightarrow> ctxt \<Rightarrow> string \<Rightarrow> int \<Rightarrow> string \<Rightarrow> 32 word option \<Rightarrow> 32 word option
   \<Rightarrow> 32 word option \<Rightarrow> int option \<Rightarrow> int option \<Rightarrow> 'db service \<Rightarrow> Attributes result \<times> 'db service" where
  "cpSetAttr B rep ctx opid now inodeID mode uid gid atime mtime s = SetAttributes B rep ctx opid now inodeID mode uid gid atime mtime s"

definition cpLookupPath :: "'db bbolt \<Rightarrow> ctxt \<Rightarrow> string \<Rightarrow> 'db service \<Rightarrow> string result" where
  "cpLookupPath B ctx path s = LookupPath B ctx path s"

definition cpLookup :: "'db bbolt \<Rightarrow> ctxt \<Rightarrow> string \<Rightarrow> string \<Rightarrow> 'db service \<Rightarrow> string result" where
  "cpLookup B ctx parentInodeID name s = Lookup B ctx parentInodeID name s"

definition cpAccess :: "'db bbolt \<Rightarrow> ctxt \<Rightarrow> string \<Rightarrow> 32 word \<Rightarrow> 32 word \<Rightarrow> 32 word \<Rightarrow> 'db service \<Rightarrow> unit result" where
  "cpAccess B ctx inodeID uid gid accessMask s = Access B ctx inodeID uid gid accessMask s"

definition cpCreate ::
  "'db bbolt \<Rightarrow> 'db replicate \<Rightarrow> ctxt \<Rightarrow> string \<Rightarrow> int \<Rightarrow> string \<Rightarrow> string \<Rightarrow> 32 word \<Rightarrow> 32 word \<Rightarrow> 32 word
   \<Rightarrow> 'db service \<Rightarrow> Inode result \<times> 'db service" where
  "cpCreate B rep ctx opid now parentInodeID name mode uid gid s = Create B rep ctx opid now parentInodeID name mode uid gid s"

definition cpMkdir ::
  "'db bbolt \<Rightarrow> 'db replicate \<Rightarrow> ctxt \<Rightarrow> string \<Rightarrow> int \<Rightarrow> string \<Rightarrow> string \<Rightarrow> 32 word \<Rightarrow> 32 word \<Rightarrow> 32 word
   \<Rightarrow> 'db service \<Rightarrow> Inode result \<times> 'db service" where
  "cpMkdir B rep ctx opid now parentInodeID name mode uid gid s = Mkdir B rep ctx opid now parentInodeID name mode uid gid s"

definition cpRemove ::
  "'db bbolt \<Rightarrow> 'db replicate \<Rightarrow> ctxt \<Rightarrow> string \<Rightarrow> int \<Rightarrow> string \<Rightarrow> string \<Rightarrow> 'db service \<Rightarrow> error option \<times> 'db service" where
  "cpRemove B rep ctx opid now parentInodeID name s = Remove B rep ctx opid now parentInodeID name s"

definition cpRmdir ::
  "'db bbolt \<Rightarrow> 'db replicate \<Rightarrow> ctxt \<Rightarrow> string \<Rightarrow> int \<Rightarrow> string \<Rightarrow> string \<Rightarrow> 'db service \<Rightarrow> error option \<times> 'db service" where
  "cpRmdir B rep ctx opid now parentInodeID name s = Rmdir B rep ctx opid now parentInodeID name s"

definition cpRename ::
  "'db bbolt \<Rightarrow> 'db replicate \<Rightarrow> ctxt \<Rightarrow> string \<Rightarrow> int \<Rightarrow> string \<Rightarrow> string \<Rightarrow> string \<Rightarrow> string
   \<Rightarrow> 'db service \<Rightarrow> error option \<times> 'db service" where
  "cpRename B rep ctx opid now srcParentID srcName dstParentID dstName s =
     Rename B rep ctx opid now srcParentID srcName dstParentID dstName s"

definition cpReadDir :: "'db bbolt \<Rightarrow> ctxt \<Rightarrow> string \<Rightarrow> int \<Rightarrow> int \<Rightarrow> 'db service \<Rightarrow> (DirEntry list \<times> int \<times> bool) result" where
  "cpReadDir B ctx inodeID cookie maxEntries s = ReadDir B ctx inodeID cookie maxEntries s"

definition cpReadDirPlus ::
  "'db bbolt \<Rightarrow> ctxt \<Rightarrow> ctxt \<Rightarrow> string \<Rightarrow> int \<Rightarrow> int \<Rightarrow> 'db service \<Rightarrow> (DirEntryPlus list \<times> int \<times> bool) result" where
  "cpReadDirPlus B ctx ctx' inodeID cookie maxEntries s = ReadDirPlus B ctx ctx' inodeID cookie maxEntries s"

definition cpGetFsStat :: "'db bbolt \<Rightarrow> ctxt \<Rightarrow> 'db service \<Rightarrow> FileSystemStats result" where
  "cpGetFsStat B ctx s = GetFsStat B ctx s"

definition cpGetFsInfo :: "'db bbolt \<Rightarrow> ctxt \<Rightarrow> 'db service \<Rightarrow> FileSystemInfo result" where
  "cpGetFsInfo B ctx s = GetFsInfo B ctx s"

end
