(* ===== verification/RaftStores.thy ===== *)
theory RaftStores
  imports OsFile "HOL-Library.Multiset"
begin

text \<open>
  The durable stores of the Raft node (\<^verbatim>\<open>internal/metadata_replicator/durable_raft/stores.go\<close>):
  \<^verbatim>\<open>FileStableStore\<close> (current term and vote), \<^verbatim>\<open>FileSnapshotStore\<close> and \<^verbatim>\<open>FileLogStore\<close>, the
  write-ahead log.  The checksum \<^verbatim>\<open>crc32.ChecksumIEEE\<close> is the parameter \<open>crc\<close>; nothing is assumed
  of it.  The Go map of log entries is an association list with distinct keys.
\<close>

section \<open>JSON containers\<close>

text \<open>
  \<^verbatim>\<open>json.Unmarshal\<close> ignores unknown fields and leaves missing ones at their zero value, so every
  JSON object can be read as an envelope; \<^verbatim>\<open>walEnvelope\<close> and \<^verbatim>\<open>stableEnvelope\<close> have the same fields.
\<close>

fun json_object :: "blob \<Rightarrow> bool" where
  "json_object (Raw _) = False"
| "json_object (GobInode _) = False"
| "json_object (GobSuperblock _) = False"
| "json_object (GobChunkDescriptor _) = False"
| "json_object (JsonStrings _) = False"
| "json_object (JsonEntries _) = False"
| "json_object _ = True"

fun json_Unmarshal_envelope :: "blob \<Rightarrow> (nat \<times> blob) option" where
  "json_Unmarshal_envelope (JsonStableEnvelope c p) = Some (c, p)"
| "json_Unmarshal_envelope (JsonWalEnvelope c p) = Some (c, p)"
| "json_Unmarshal_envelope b = (if json_object b then Some (0, Raw []) else None)"

fun json_Unmarshal_stableState :: "blob \<Rightarrow> (nat \<times> string) option" where
  "json_Unmarshal_stableState (JsonStableState t v) = Some (t, v)"
| "json_Unmarshal_stableState b = (if json_object b then Some (0, []) else None)"

fun json_Unmarshal_walFile :: "blob \<Rightarrow> (nat \<times> nat \<times> LogEntry list) option" where
  "json_Unmarshal_walFile (JsonWalFile u t es) = Some (u, t, es)"
| "json_Unmarshal_walFile b = (if json_object b then Some (0, 0, []) else None)"

fun json_Unmarshal_snapshotFile :: "blob \<Rightarrow> (SnapshotMeta \<times> blob) option" where
  "json_Unmarshal_snapshotFile (JsonSnapshotFile m d) = Some (m, d)"
| "json_Unmarshal_snapshotFile b =
     (if json_object b then Some (\<lparr>LastIncludedIndex = 0, LastIncludedTerm = 0\<rparr>, Raw []) else None)"

section \<open>FileStableStore\<close>

definition stable_blob :: "(blob \<Rightarrow> nat) \<Rightarrow> nat \<Rightarrow> string \<Rightarrow> blob" where
  "stable_blob crc currentTerm votedFor =
     (let inner = JsonStableState currentTerm votedFor in JsonStableEnvelope (crc inner) inner)"

definition SetState :: "(blob \<Rightarrow> nat) \<Rightarrow> string \<Rightarrow> nat \<Rightarrow> string \<Rightarrow> fs \<Rightarrow> error option \<times> fs" where
  "SetState crc path currentTerm votedFor s =
     writeFileAtomically path (stable_blob crc currentTerm votedFor) s"

definition decode_stable :: "(blob \<Rightarrow> nat) \<Rightarrow> blob \<Rightarrow> (nat \<times> string) result" where
  "decode_stable crc raw =
     (case json_Unmarshal_envelope raw of
        None \<Rightarrow> Inl (Wrap ''envelope unmarshal failed'' ErrStableCorrupt)
      | Some (c, payload) \<Rightarrow>
          if crc payload \<noteq> c then Inl (Wrap ''crc mismatch'' ErrStableCorrupt)
          else of_opt (Wrap ''inner stable unmarshal failed'' ErrStableCorrupt)
                 (json_Unmarshal_stableState payload))"

definition GetState :: "(blob \<Rightarrow> nat) \<Rightarrow> string \<Rightarrow> fs \<Rightarrow> (nat \<times> string) result \<times> fs" where
  "GetState crc path s =
     (case os_ReadFile path s of
        (Inl OsNotExist, t) \<Rightarrow> (Inr (0, []), t)
      | (Inl e, t) \<Rightarrow> (Inl (Wrap ''read stable file'' e), t)
      | (Inr raw, t) \<Rightarrow> (decode_stable crc raw, t))"

definition NewFileStableStore :: "(blob \<Rightarrow> nat) \<Rightarrow> string \<Rightarrow> fs \<Rightarrow> unit result \<times> fs" where
  "NewFileStableStore crc path s0 =
     (let (_, s) = os_MkdirAll s0
      in case GetState crc path s of
           (Inl e, t) \<Rightarrow> (Inl (Wrap ''stable store validation on open'' e), t)
         | (Inr _, t) \<Rightarrow> (Inr (), t))"

section \<open>FileSnapshotStore\<close>

definition SaveSnapshot :: "string \<Rightarrow> SnapshotMeta \<Rightarrow> blob \<Rightarrow> fs \<Rightarrow> error option \<times> fs" where
  "SaveSnapshot path meta data s = writeFileAtomically path (JsonSnapshotFile meta data) s"

definition LoadSnapshot :: "string \<Rightarrow> fs \<Rightarrow> (SnapshotMeta \<times> blob) result \<times> fs" where
  "LoadSnapshot path s =
     (case os_ReadFile path s of
        (Inl OsNotExist, t) \<Rightarrow> (Inr (\<lparr>LastIncludedIndex = 0, LastIncludedTerm = 0\<rparr>, Raw []), t)
      | (Inl e, t) \<Rightarrow> (Inl e, t)
      | (Inr payload, t) \<Rightarrow>
          (of_opt (Errorf ''unmarshal snapshot'') (json_Unmarshal_snapshotFile payload), t))"

section \<open>FileLogStore\<close>

record FileLogStore =
  logs :: "(nat \<times> LogEntry) list"
  last_index :: nat
  compactedUntil :: nat
  compactedTerm :: nat

definition empty_log :: FileLogStore where
  "empty_log = \<lparr>logs = [], last_index = 0, compactedUntil = 0, compactedTerm = 0\<rparr>"

definition put_entry :: "LogEntry \<Rightarrow> FileLogStore \<Rightarrow> FileLogStore" where
  "put_entry e s =
     (let idx = uint64 (Index e)
      in s\<lparr>logs := AList.update idx e (logs s),
           last_index := (if idx > last_index s then idx else last_index s)\<rparr>)"

definition decode_wal :: "(blob \<Rightarrow> nat) \<Rightarrow> blob \<Rightarrow> FileLogStore result" where
  "decode_wal crc raw =
     (case json_Unmarshal_envelope raw of
        None \<Rightarrow> Inl (Wrap ''envelope unmarshal failed'' ErrWALCorrupt)
      | Some (c, payload) \<Rightarrow>
          if crc payload \<noteq> c then Inl (Wrap ''crc mismatch'' ErrWALCorrupt)
          else case json_Unmarshal_walFile payload of
            None \<Rightarrow> Inl (Wrap ''inner wal unmarshal failed'' ErrWALCorrupt)
          | Some (until, term, es) \<Rightarrow>
              Inr (fold put_entry es
                     (empty_log\<lparr>compactedUntil := until, compactedTerm := term, last_index := until\<rparr>)))"

definition NewFileLogStore :: "(blob \<Rightarrow> nat) \<Rightarrow> string \<Rightarrow> fs \<Rightarrow> FileLogStore result \<times> fs" where
  "NewFileLogStore crc path s0 =
     (let (_, s) = os_MkdirAll s0
      in case os_ReadFile path s of
           (Inl OsNotExist, t) \<Rightarrow> (Inr empty_log, t)
         | (Inl e, t) \<Rightarrow> (Inl (Wrap ''read wal file'' e), t)
         | (Inr raw, t) \<Rightarrow> (decode_wal crc raw, t))"

definition wal_blob :: "(blob \<Rightarrow> nat) \<Rightarrow> FileLogStore \<Rightarrow> blob" where
  "wal_blob crc ls =
     (let inner = JsonWalFile (compactedUntil ls) (compactedTerm ls)
                    (sort_key Index (map snd (logs ls)))
      in JsonWalEnvelope (crc inner) inner)"

definition persistLocked :: "(blob \<Rightarrow> nat) \<Rightarrow> string \<Rightarrow> FileLogStore \<Rightarrow> fs \<Rightarrow> error option \<times> fs" where
  "persistLocked crc path ls s = writeFileAtomically path (wal_blob crc ls) s"

text \<open>The loop of \<^verbatim>\<open>StoreLogs\<close>: the first entry at a compacted index stops it with an error.\<close>

fun store_entries :: "LogEntry list \<Rightarrow> FileLogStore \<Rightarrow> error option \<times> FileLogStore" where
  "store_entries [] ls = (None, ls)"
| "store_entries (e # es) ls =
     (if uint64 (Index e) \<le> compactedUntil ls
      then (Some (Errorf ''cannot append compacted index''), ls)
      else store_entries es (put_entry e ls))"

definition StoreLogs ::
  "(blob \<Rightarrow> nat) \<Rightarrow> string \<Rightarrow> LogEntry list \<Rightarrow> FileLogStore \<Rightarrow> fs \<Rightarrow> error option \<times> FileLogStore \<times> fs" where
  "StoreLogs crc path es ls s =
     (case store_entries es ls of
        (Some e, ls') \<Rightarrow> (Some e, ls', s)
      | (None, ls') \<Rightarrow> (let (r, t) = persistLocked crc path ls' s in (r, ls', t)))"

definition GetLog :: "nat \<Rightarrow> FileLogStore \<Rightarrow> LogEntry result" where
  "GetLog index ls =
     (if index \<le> compactedUntil ls then Inl ErrLogCompacted
      else of_opt ErrLogNotFound (map_of (logs ls) index))"

definition LastIndexAndTerm :: "FileLogStore \<Rightarrow> (nat \<times> nat) result" where
  "LastIndexAndTerm ls =
     (if last_index ls = 0 then Inr (0, 0)
      else if last_index ls = compactedUntil ls then Inr (compactedUntil ls, compactedTerm ls)
      else case map_of (logs ls) (last_index ls) of
        None \<Rightarrow> Inl (Errorf ''last log index missing'')
      | Some e \<Rightarrow> Inr (last_index ls, uint64 (Term e)))"

text \<open>The in-memory part of \<^verbatim>\<open>DeleteRange\<close>; \<open>None\<close> where it returns before it writes the file.\<close>

definition delete_range :: "nat \<Rightarrow> nat \<Rightarrow> FileLogStore \<Rightarrow> FileLogStore option" where
  "delete_range lo hi ls =
     (if lo > hi then None
      else let hi = (if hi = MaxUint64 \<or> hi > last_index ls then last_index ls else hi)
      in if hi = 0 then None
      else let
        ls1 = (if lo = 0 \<and> hi > compactedUntil ls
               then ls\<lparr>compactedTerm := (case map_of (logs ls) hi of
                                          Some e \<Rightarrow> uint64 (Term e) | None \<Rightarrow> compactedTerm ls),
                       compactedUntil := hi\<rparr>
               else ls);
        lo = (if lo \<le> compactedUntil ls1 then inc64 (compactedUntil ls1) else lo);
        kept = filter (\<lambda>(i, _). \<not> (i \<ge> lo \<and> i \<le> hi)) (logs ls1)
      in Some (ls1\<lparr>logs := kept, last_index := fold (\<lambda>(i, _) m. max i m) kept (compactedUntil ls1)\<rparr>))"

definition DeleteRange ::
  "(blob \<Rightarrow> nat) \<Rightarrow> string \<Rightarrow> nat \<Rightarrow> nat \<Rightarrow> FileLogStore \<Rightarrow> fs \<Rightarrow> error option \<times> FileLogStore \<times> fs" where
  "DeleteRange crc path lo hi ls s =
     (case delete_range lo hi ls of
        None \<Rightarrow> (None, ls, s)
      | Some ls' \<Rightarrow> (let (r, t) = persistLocked crc path ls' s in (r, ls', t)))"

section \<open>Facts on the stable store\<close>

text \<open>What a restart can read back: the decoded value of every content the file may have.\<close>

definition stable_view :: "(blob \<Rightarrow> nat) \<Rightarrow> blob option \<Rightarrow> (nat \<times> string) result" where
  "stable_view crc c = (case c of None \<Rightarrow> Inr (0, []) | Some raw \<Rightarrow> decode_stable crc raw)"

definition stable_views :: "(blob \<Rightarrow> nat) \<Rightarrow> string \<Rightarrow> fs \<Rightarrow> (nat \<times> string) result set" where
  "stable_views crc path s = stable_view crc ` poss s path"

lemma decode_stable_blob [simp]: "decode_stable crc (stable_blob crc t v) = Inr (t, v)"
  by (simp add: decode_stable_def stable_blob_def Let_def)

lemma stable_view_blob [simp]: "stable_view crc (Some (stable_blob crc t v)) = Inr (t, v)"
  by (simp add: stable_view_def)

lemma os_ReadFile_files:
  "os_ReadFile p s = (r, t) \<Longrightarrow> cur t = cur s \<and> synced t = synced s \<and> poss t = poss s"
  by (auto simp: os_ReadFile_def dest!: syscall_files split: prod.splits fault.splits)

lemma os_ReadFile_Inr: "os_ReadFile p s = (Inr raw, t) \<Longrightarrow> cur s p = Some raw"
  by (auto simp: os_ReadFile_def dest!: syscall_files split: prod.splits fault.splits)

lemma os_ReadFile_not_exist: "os_ReadFile p s = (Inl OsNotExist, t) \<Longrightarrow> cur s p = None"
  by (cases "cur s p") (auto simp: os_ReadFile_def dest!: syscall_files split: prod.splits fault.splits)

lemma GetState_view:
  assumes "GetState crc path s = (Inr v, t)"
  shows "stable_view crc (cur s path) = Inr v"
  using assms
  by (auto simp: GetState_def stable_view_def dest: os_ReadFile_Inr os_ReadFile_not_exist
      split: prod.splits sum.splits error.splits)

lemma GetState_files:
  "GetState crc path s = (r, t) \<Longrightarrow> cur t = cur s \<and> synced t = synced s \<and> poss t = poss s"
  by (auto simp: GetState_def dest: os_ReadFile_files split: prod.splits sum.splits error.splits)

lemma SetState_atomic:
  "wf_fs s \<Longrightarrow> SetState crc path tm v s = (r, t)
   \<Longrightarrow> wf_fs t \<and> atomic_write path (stable_blob crc tm v) r s t"
  unfolding SetState_def
  using writeFileAtomically_wf writeFileAtomically_atomic_write by blast

lemma SetState_views:
  assumes "wf_fs s" and "SetState crc path tm v s = (r, t)"
  shows "stable_views crc path t \<subseteq> insert (Inr (tm, v)) (stable_views crc path s)"
    and "r = None \<Longrightarrow> stable_views crc path t = {Inr (tm, v)}"
  using SetState_atomic [OF assms] by (auto simp: atomic_write_def stable_views_def)

lemma atomic_write_other_views:
  assumes "atomic_write path data r s t" and "p \<noteq> path" and "p \<noteq> tmpPath path"
  shows "stable_views crc p t \<subseteq> stable_views crc p s"
  using assms by (auto simp: atomic_write_def stable_views_def)

section \<open>Facts on the log store\<close>

text \<open>
  The invariant of \<open>FileLogStore\<close>: the key of an entry is its index, \<open>last_index\<close> is the largest
  of the keys and \<open>compactedUntil\<close>.  \<open>visible\<close> is the part of the map that \<open>GetLog\<close> reads.
\<close>

definition log_keys :: "FileLogStore \<Rightarrow> nat set" where
  "log_keys ls = fst ` set (logs ls)"

definition is_max :: "nat \<Rightarrow> nat set \<Rightarrow> bool" where
  "is_max m S \<longleftrightarrow> m \<in> S \<and> (\<forall>i\<in>S. i \<le> m)"

definition wf_log :: "FileLogStore \<Rightarrow> bool" where
  "wf_log ls \<longleftrightarrow>
     distinct (map fst (logs ls)) \<and> (\<forall>(i, e)\<in>set (logs ls). i = uint64 (Index e))
   \<and> is_max (last_index ls) (insert (compactedUntil ls) (log_keys ls)) \<and> last_index ls < 2 ^ 64"

definition visible :: "FileLogStore \<Rightarrow> nat \<rightharpoonup> LogEntry" where
  "visible ls i = (if i \<le> compactedUntil ls then None else map_of (logs ls) i)"

lemma is_max_unique: "is_max m S \<Longrightarrow> is_max n S \<Longrightarrow> m = n"
  by (auto simp: is_max_def intro: antisym)

lemma is_max_insert: "is_max m S \<Longrightarrow> is_max (max k m) (insert k S)"
  by (auto simp: is_max_def max_def)

lemma GetLog_visible:
  "GetLog i ls = (if i \<le> compactedUntil ls then Inl ErrLogCompacted
                  else of_opt ErrLogNotFound (visible ls i))"
  by (simp add: GetLog_def visible_def)

lemma GetLog_Inr_iff: "GetLog i ls = Inr e \<longleftrightarrow> visible ls i = Some e"
  by (auto simp: GetLog_def visible_def)

lemma wf_empty_log [simp]: "wf_log empty_log"
  by (simp add: wf_log_def empty_log_def is_max_def log_keys_def)

lemma put_entry_sel [simp]:
  "map_of (logs (put_entry e ls)) = (map_of (logs ls))(uint64 (Index e) \<mapsto> e)"
  "last_index (put_entry e ls) = max (uint64 (Index e)) (last_index ls)"
  "compactedUntil (put_entry e ls) = compactedUntil ls"
  "compactedTerm (put_entry e ls) = compactedTerm ls"
  by (auto simp: put_entry_def update_conv' max_def Let_def)

lemma log_keys_dom: "log_keys ls = dom (map_of (logs ls))"
  by (simp add: log_keys_def dom_map_of_conv_image_fst)

lemma wf_put_entry:
  assumes "wf_log ls"
  shows "wf_log (put_entry e ls)"
proof -
  have "distinct (map fst (logs (put_entry e ls)))"
    using assms by (simp add: wf_log_def put_entry_def Let_def distinct_update)
  moreover have "\<forall>(i, x)\<in>set (logs (put_entry e ls)). i = uint64 (Index x)"
  proof -
    have "x = e \<and> i = uint64 (Index e) \<or> (i, x) \<in> set (logs ls)"
      if "(i, x) \<in> set (logs (put_entry e ls))" for i x
    proof -
      have "map_of (logs (put_entry e ls)) i = Some x"
        using that \<open>distinct (map fst (logs (put_entry e ls)))\<close> by (blast intro: map_of_is_SomeI)
      then show ?thesis by (auto split: if_splits dest: map_of_SomeD)
    qed
    with assms show ?thesis by (fastforce simp: wf_log_def)
  qed
  moreover have "is_max (last_index (put_entry e ls))
      (insert (compactedUntil (put_entry e ls)) (log_keys (put_entry e ls)))"
    using is_max_insert [of "last_index ls" "insert (compactedUntil ls) (log_keys ls)" "uint64 (Index e)"]
      assms by (simp add: wf_log_def log_keys_dom insert_commute)
  moreover have "last_index (put_entry e ls) < 2 ^ 64"
    using assms uint64_bound by (simp add: wf_log_def)
  ultimately show ?thesis by (simp add: wf_log_def)
qed

lemma visible_put_entry [simp]:
  "compactedUntil ls < uint64 (Index e)
   \<Longrightarrow> visible (put_entry e ls) = (visible ls)(uint64 (Index e) \<mapsto> e)"
  by (auto simp: visible_def fun_eq_iff)

text \<open>Loading what \<open>persistLocked\<close> wrote gives back the same log.\<close>

definition log_same :: "FileLogStore \<Rightarrow> FileLogStore \<Rightarrow> bool" where
  "log_same a b \<longleftrightarrow> map_of (logs a) = map_of (logs b) \<and> last_index a = last_index b
     \<and> compactedUntil a = compactedUntil b \<and> compactedTerm a = compactedTerm b"

lemma fold_put_entry_sel [simp]:
  "compactedUntil (fold put_entry es ls) = compactedUntil ls"
  "compactedTerm (fold put_entry es ls) = compactedTerm ls"
  by (induction es arbitrary: ls) auto

lemma wf_fold_put_entry: "wf_log ls \<Longrightarrow> wf_log (fold put_entry es ls)"
  by (induction es arbitrary: ls) (auto simp: wf_put_entry)

lemma map_of_fold_put_entry:
  "distinct (map (uint64 \<circ> Index) es) \<Longrightarrow>
   map_of (logs (fold put_entry es ls)) = map_of (logs ls) ++ map_of (map (\<lambda>e. (uint64 (Index e), e)) es)"
proof (induction es arbitrary: ls)
  case (Cons e es)
  have "map_of (map (\<lambda>e. (uint64 (Index e), e)) es) (uint64 (Index e)) = None"
    using Cons.prems by (auto simp: map_of_eq_None_iff)
  with Cons show ?case by (auto simp: fun_eq_iff map_add_def split: option.splits)
qed simp

lemma wal_entries:
  assumes "wf_log ls"
  defines "es \<equiv> sort_key Index (map snd (logs ls))"
  shows "distinct (map (uint64 \<circ> Index) es)" "map_of (map (\<lambda>e. (uint64 (Index e), e)) es) = map_of (logs ls)"
proof -
  have keys: "map (uint64 \<circ> Index) (map snd (logs ls)) = map fst (logs ls)"
    using assms by (auto simp: wf_log_def)
  have "mset (map (uint64 \<circ> Index) es) = mset (map (uint64 \<circ> Index) (map snd (logs ls)))"
    by (simp add: es_def multiset.map_comp)
  then have "mset (map (uint64 \<circ> Index) es) = mset (map fst (logs ls))"
    unfolding keys .
  moreover have d: "distinct (map fst (logs ls))" using assms by (simp add: wf_log_def)
  ultimately show dist: "distinct (map (uint64 \<circ> Index) es)" using mset_eq_imp_distinct_iff by blast
  have "set (map (\<lambda>e. (uint64 (Index e), e)) es) = set (logs ls)"
    using assms by (force simp: es_def wf_log_def image_iff)
  then show "map_of (map (\<lambda>e. (uint64 (Index e), e)) es) = map_of (logs ls)"
    using map_of_inject_set [of "map (\<lambda>e. (uint64 (Index e), e)) es" "logs ls"] dist d
    by (simp add: comp_def)
qed

lemma decode_wal_blob:
  assumes wf: "wf_log ls"
  shows "\<exists>ls'. decode_wal crc (wal_blob crc ls) = Inr ls' \<and> log_same ls' ls \<and> wf_log ls'"
proof -
  let ?es = "sort_key Index (map snd (logs ls))"
  let ?init = "empty_log\<lparr>compactedUntil := compactedUntil ls, compactedTerm := compactedTerm ls,
      last_index := compactedUntil ls\<rparr>"
  let ?l = "fold put_entry ?es ?init"
  have m: "map_of (logs ?l) = map_of (logs ls)"
    using map_of_fold_put_entry [OF wal_entries(1) [OF wf]] wal_entries(2) [OF wf]
    by (simp add: empty_log_def)
  have "wf_log ?init" using wf by (auto simp: wf_log_def empty_log_def is_max_def log_keys_def)
  then have w: "wf_log ?l" by (rule wf_fold_put_entry)
  then have "is_max (last_index ?l) (insert (compactedUntil ls) (log_keys ls))"
    using m by (simp add: wf_log_def log_keys_dom)
  with wf have "last_index ?l = last_index ls" by (auto simp: wf_log_def intro: is_max_unique)
  then have "log_same ?l ls" using m by (simp add: log_same_def)
  with w show ?thesis by (simp add: decode_wal_def wal_blob_def Let_def)
qed

lemma log_same_ops:
  assumes "log_same a b"
  shows "GetLog i a = GetLog i b" "LastIndexAndTerm a = LastIndexAndTerm b" "visible a = visible b"
  using assms
  by (auto simp: log_same_def GetLog_def LastIndexAndTerm_def visible_def split: option.split)

section \<open>The log as a sequence of entries\<close>

text \<open>
  The contract of \<^verbatim>\<open>LogStore\<close> as the replicator uses it: a base index up to which the log is
  compacted and the entries after it, in order.  \<open>consecutive b es\<close>: the entries carry the
  indices \<open>b + 1, b + 2, \<dots>\<close>.
\<close>

definition consecutive :: "nat \<Rightarrow> LogEntry list \<Rightarrow> bool" where
  "consecutive b es \<longleftrightarrow> map (uint64 \<circ> Index) es = [b + 1..<b + 1 + length es]"

lemma consecutive_Nil [simp]: "consecutive b []"
  by (simp add: consecutive_def)

lemma consecutive_Cons [simp]:
  "consecutive b (e # es) \<longleftrightarrow> uint64 (Index e) = b + 1 \<and> consecutive (b + 1) es"
  by (auto simp: consecutive_def upt_rec)

lemma consecutive_nth: "consecutive b es \<Longrightarrow> k < length es \<Longrightarrow> uint64 (Index (es ! k)) = b + 1 + k"
  by (induction es arbitrary: b k) (auto simp: nth_Cons split: nat.split)

lemma consecutive_drop: "consecutive b es \<Longrightarrow> consecutive (b + k) (drop k es)"
proof (induction k arbitrary: b es)
  case (Suc k)
  then show ?case using Suc.IH [of "b + 1" "tl es"] by (cases es) auto
qed simp

text \<open>
  The loop of \<^verbatim>\<open>HandleAppendEntries\<close> that compares the leader's entries with the log, over any
  \<open>GetLog\<close>: the index at which the log is to be truncated first, if any, and the new entries.
\<close>

fun scan_entries :: "(nat \<Rightarrow> LogEntry result) \<Rightarrow> nat \<Rightarrow> LogEntry list \<Rightarrow> nat option \<times> LogEntry list" where
  "scan_entries get lastIncluded [] = (None, [])"
| "scan_entries get lastIncluded (e # es) =
     (if uint64 (Index e) \<le> lastIncluded then scan_entries get lastIncluded es
      else case get (uint64 (Index e)) of
        Inr existing \<Rightarrow>
          (if Term existing \<noteq> Term e then (Some (uint64 (Index e)), e # es)
           else scan_entries get lastIncluded es)
      | Inl err \<Rightarrow>
          (if errors_Is err ErrLogNotFound \<or> errors_Is err ErrLogCompacted then (None, e # es)
           else scan_entries get lastIncluded es))"

locale log_store =
  fixes ok :: "'s \<Rightarrow> bool"
    and base :: "'s \<Rightarrow> nat"
    and ents :: "'s \<Rightarrow> LogEntry list"
    and get :: "nat \<Rightarrow> 's \<Rightarrow> LogEntry result"
    and app :: "LogEntry list \<Rightarrow> 's \<Rightarrow> error option \<times> 's"
    and truncate :: "nat \<Rightarrow> 's \<Rightarrow> 's option"
  assumes get: "ok s \<Longrightarrow> get i s =
      (if i \<le> base s then Inl ErrLogCompacted
       else if i \<le> base s + length (ents s) then Inr (ents s ! (i - base s - 1))
       else Inl ErrLogNotFound)"
    and app: "ok s \<Longrightarrow> consecutive (base s + length (ents s)) es \<Longrightarrow>
      \<exists>s'. app es s = (None, s') \<and> ok s' \<and> base s' = base s \<and> ents s' = ents s @ es"
    and truncate: "ok s \<Longrightarrow> base s < i \<Longrightarrow> i \<le> base s + length (ents s) \<Longrightarrow>
      \<exists>s'. truncate i s = Some s' \<and> ok s' \<and> base s' = base s \<and> ents s' = take (i - base s - 1) (ents s)"
    and ents_index: "ok s \<Longrightarrow> consecutive (base s) (ents s)"
begin

text \<open>
  What merging a batch does, for a batch that starts right after a position of the log.  \<open>matches\<close>
  are the entries the log already has; the result keeps them, drops the log after the first
  conflict and appends the rest of the batch.
\<close>

definition merge :: "nat \<Rightarrow> LogEntry list \<Rightarrow> 's \<Rightarrow> (error option \<times> 's) option" where
  "merge lastIncluded es s =
     (case scan_entries (\<lambda>i. get i s) lastIncluded es of
        (start, new) \<Rightarrow>
          (case (case start of None \<Rightarrow> Some s | Some i \<Rightarrow> truncate i s) of
             None \<Rightarrow> None
           | Some s1 \<Rightarrow> Some (if new = [] then (None, s1) else app new s1)))"

lemma scan_entries_spec:
  assumes "ok s" and "lastIncluded \<le> base s" and "consecutive (base s + p) es"
    and "p \<le> length (ents s)"
  shows "\<exists>k \<le> length es. map Term (take k es) = map Term (take k (drop p (ents s)))
    \<and> p + k \<le> length (ents s)
    \<and> (if k = length es then scan_entries (\<lambda>i. get i s) lastIncluded es = (None, [])
       else if p + k = length (ents s) then scan_entries (\<lambda>i. get i s) lastIncluded es = (None, drop k es)
       else Term (ents s ! (p + k)) \<noteq> Term (es ! k)
            \<and> scan_entries (\<lambda>i. get i s) lastIncluded es = (Some (base s + p + k + 1), drop k es))"
  using assms(3,4)
proof (induction es arbitrary: p)
  case Nil
  then show ?case by simp
next
  case (Cons e es)
  have idx: "uint64 (Index e) = base s + p + 1" and rest: "consecutive (base s + (p + 1)) es"
    using Cons.prems by simp_all
  show ?case
  proof (cases "p = length (ents s)")
    case True
    then show ?thesis using idx assms(1,2) by (intro exI [of _ 0]) (simp add: get)
  next
    case False
    with Cons.prems have p: "p < length (ents s)" by simp
    have g: "get (base s + p + 1) s = Inr (ents s ! p)" using p assms(1) by (simp add: get)
    show ?thesis
    proof (cases "Term (ents s ! p) = Term e")
      case False
      then show ?thesis using idx g p assms(2) by (intro exI [of _ 0]) simp
    next
      case True
      from Cons.IH [OF rest] p obtain k where k: "k \<le> length es"
        "map Term (take k es) = map Term (take k (drop (p + 1) (ents s)))" "p + 1 + k \<le> length (ents s)"
        "if k = length es then scan_entries (\<lambda>i. get i s) lastIncluded es = (None, [])
         else if p + 1 + k = length (ents s) then scan_entries (\<lambda>i. get i s) lastIncluded es = (None, drop k es)
         else Term (ents s ! (p + 1 + k)) \<noteq> Term (es ! k)
            \<and> scan_entries (\<lambda>i. get i s) lastIncluded es = (Some (base s + (p + 1) + k + 1), drop k es)"
        by auto
      have "take (Suc k) (drop p (ents s)) = ents s ! p # take k (drop (p + 1) (ents s))"
        using p by (simp flip: Cons_nth_drop_Suc)
      then show ?thesis
        using k idx g True assms(2) by (intro exI [of _ "Suc k"]) (simp split: if_splits)
    qed
  qed
qed

lemma merge_spec:
  assumes "ok s" and "lastIncluded \<le> base s" and "consecutive (base s + p) es"
    and "p \<le> length (ents s)"
  shows "\<exists>s' k. merge lastIncluded es s = Some (None, s') \<and> ok s' \<and> base s' = base s
    \<and> k \<le> length es \<and> map Term (take k es) = map Term (take k (drop p (ents s)))
    \<and> (if k = length es then s' = s
       else ents s' = take (p + k) (ents s) @ drop k es
            \<and> (p + k < length (ents s) \<longrightarrow> Term (ents s ! (p + k)) \<noteq> Term (es ! k)))"
proof -
  let ?scan = "scan_entries (\<lambda>i. get i s) lastIncluded es"
  obtain k where k: "k \<le> length es" "map Term (take k es) = map Term (take k (drop p (ents s)))"
    "p + k \<le> length (ents s)"
    "if k = length es then ?scan = (None, [])
     else if p + k = length (ents s) then ?scan = (None, drop k es)
     else Term (ents s ! (p + k)) \<noteq> Term (es ! k) \<and> ?scan = (Some (base s + p + k + 1), drop k es)"
    using scan_entries_spec [OF assms] by auto
  have c: "consecutive (base s + (p + k)) (drop k es)"
    using consecutive_drop [OF assms(3), of k] by (simp add: add.assoc)
  consider "k = length es" | "k < length es" "p + k = length (ents s)"
    | "k < length es" "p + k < length (ents s)" using k(1,3) by linarith
  then show ?thesis
  proof cases
    case 1
    with k assms(1) show ?thesis by (intro exI [of _ s] exI [of _ k]) (simp add: merge_def)
  next
    case 2
    with c app [OF assms(1)] obtain s' where "app (drop k es) s = (None, s')" "ok s'" "base s' = base s"
      "ents s' = ents s @ drop k es" by metis
    with 2 k show ?thesis by (intro exI [of _ s'] exI [of _ k]) (simp add: merge_def)
  next
    case 3
    then obtain s1 where s1: "truncate (base s + p + k + 1) s = Some s1" "ok s1" "base s1 = base s"
      "ents s1 = take (p + k) (ents s)"
      using truncate [OF assms(1), of "base s + p + k + 1"] by (auto simp: add.assoc)
    then have "length (ents s1) = p + k" using 3 by simp
    with s1 c app [OF s1(2)] obtain s' where "app (drop k es) s1 = (None, s')" "ok s'"
      "base s' = base s" "ents s' = take (p + k) (ents s) @ drop k es" by metis
    with 3 k s1 show ?thesis by (intro exI [of _ s'] exI [of _ k]) (simp add: merge_def)
  qed
qed

end

section \<open>FileLogStore implements the contract\<close>

definition log_entries :: "FileLogStore \<Rightarrow> LogEntry list" where
  "log_entries ls = map (\<lambda>i. the (map_of (logs ls) i)) [compactedUntil ls + 1..<last_index ls + 1]"

definition contiguous :: "FileLogStore \<Rightarrow> bool" where
  "contiguous ls \<longleftrightarrow> wf_log ls
     \<and> (\<forall>i. compactedUntil ls < i \<and> i \<le> last_index ls \<longrightarrow> map_of (logs ls) i \<noteq> None)"

lemma compactedUntil_le_last: "wf_log ls \<Longrightarrow> compactedUntil ls \<le> last_index ls"
  by (auto simp: wf_log_def is_max_def)

lemma wf_log_key: "wf_log ls \<Longrightarrow> map_of (logs ls) i = Some e \<Longrightarrow> uint64 (Index e) = i \<and> i \<le> last_index ls"
  by (fastforce simp: wf_log_def is_max_def log_keys_def dest: map_of_SomeD)

lemma length_log_entries [simp]: "length (log_entries ls) = last_index ls - compactedUntil ls"
  by (simp add: log_entries_def del: upt_Suc)

lemma log_entries_last:
  "contiguous ls \<Longrightarrow> compactedUntil ls + length (log_entries ls) = last_index ls"
  using compactedUntil_le_last by (auto simp: contiguous_def)

lemma log_entries_nth:
  assumes "contiguous ls" and "compactedUntil ls < i" and "i \<le> last_index ls"
  shows "map_of (logs ls) i = Some (log_entries ls ! (i - compactedUntil ls - 1))"
proof -
  have "log_entries ls ! (i - compactedUntil ls - 1) = the (map_of (logs ls) i)"
    using assms nth_upt [of "compactedUntil ls + 1" "i - compactedUntil ls - 1" "last_index ls + 1"]
    by (simp add: log_entries_def del: upt_Suc)
  with assms show ?thesis by (force simp: contiguous_def)
qed

lemma GetLog_entries:
  assumes "contiguous ls"
  shows "GetLog i ls =
      (if i \<le> compactedUntil ls then Inl ErrLogCompacted
       else if i \<le> compactedUntil ls + length (log_entries ls)
       then Inr (log_entries ls ! (i - compactedUntil ls - 1)) else Inl ErrLogNotFound)"
proof -
  have "map_of (logs ls) i = None" if "last_index ls < i"
    using that assms wf_log_key [of ls i] by (cases "map_of (logs ls) i") (auto simp: contiguous_def)
  then show ?thesis
    using log_entries_nth [OF assms, of i] log_entries_last [OF assms] by (auto simp: GetLog_def)
qed

lemma log_entries_consecutive: "contiguous ls \<Longrightarrow> consecutive (compactedUntil ls) (log_entries ls)"
proof -
  assume c: "contiguous ls"
  have "uint64 (Index (the (map_of (logs ls) i))) = i" if "compactedUntil ls < i" "i \<le> last_index ls" for i
    using that c wf_log_key [of ls i] by (force simp: contiguous_def)
  then show ?thesis
    using log_entries_last [OF c]
    by (auto simp: consecutive_def log_entries_def comp_def intro!: map_idI)
qed

lemma put_entry_append:
  assumes c: "contiguous ls" and idx: "uint64 (Index e) = last_index ls + 1"
  shows "contiguous (put_entry e ls)" and "log_entries (put_entry e ls) = log_entries ls @ [e]"
proof -
  have le: "compactedUntil ls \<le> last_index ls" using c compactedUntil_le_last by (simp add: contiguous_def)
  show "contiguous (put_entry e ls)"
    using c idx by (auto simp: contiguous_def wf_put_entry le_Suc_eq)
  show "log_entries (put_entry e ls) = log_entries ls @ [e]"
    using le idx by (simp add: log_entries_def)
qed

lemma store_entries_append:
  assumes "contiguous ls" and "consecutive (compactedUntil ls + length (log_entries ls)) es"
  shows "\<exists>ls'. store_entries es ls = (None, ls') \<and> contiguous ls' \<and> compactedUntil ls' = compactedUntil ls
    \<and> compactedTerm ls' = compactedTerm ls \<and> log_entries ls' = log_entries ls @ es"
  using assms
proof (induction es arbitrary: ls)
  case (Cons e es)
  have idx: "uint64 (Index e) = last_index ls + 1"
    using Cons.prems log_entries_last [of ls] by simp
  note put = put_entry_append [OF Cons.prems(1) idx]
  have "consecutive (compactedUntil (put_entry e ls) + length (log_entries (put_entry e ls))) es"
    using Cons.prems(2) put(2) by simp
  then obtain ls' where "store_entries es (put_entry e ls) = (None, ls') \<and> contiguous ls'
      \<and> compactedUntil ls' = compactedUntil ls \<and> compactedTerm ls' = compactedTerm ls
      \<and> log_entries ls' = log_entries ls @ e # es"
    using Cons.IH [OF put(1)] put(2) by auto
  moreover have "\<not> uint64 (Index e) \<le> compactedUntil ls"
    using idx Cons.prems(1) compactedUntil_le_last [of ls] by (simp add: contiguous_def)
  ultimately show ?case by simp
qed simp

lemma fold_max_is_max: "is_max (fold (\<lambda>(i, _) m. max i m) xs m) (insert m (fst ` set xs))"
proof (induction xs arbitrary: m)
  case (Cons x xs)
  have "is_max (fold (\<lambda>(i, _) m. max i m) xs (max (fst x) m)) (insert (max (fst x) m) (fst ` set xs))"
    by (rule Cons.IH)
  then show ?case by (cases x) (auto simp: is_max_def max_def split: if_splits)
qed (simp add: is_max_def)

text \<open>
  The two uses the replicator makes of \<^verbatim>\<open>DeleteRange\<close>: cutting a suffix off, and compacting a
  prefix.  The latter only moves \<open>compactedUntil\<close>: after \<^verbatim>\<open>min\<close> has been raised above
  \<open>compactedUntil\<close> no index is left in the range, so the entries stay in the map (and in the file).
\<close>

lemma delete_range_suffix:
  assumes "wf_log ls" and lo: "compactedUntil ls < lo" "lo \<le> last_index ls"
  shows "delete_range lo MaxUint64 ls = Some (ls\<lparr>logs := filter (\<lambda>(i, _). i < lo) (logs ls),
      last_index := fold (\<lambda>(i, _) m. max i m) (filter (\<lambda>(i, _). i < lo) (logs ls)) (compactedUntil ls)\<rparr>)"
proof -
  have "last_index ls < 2 ^ 64" and le: "\<forall>(i, _)\<in>set (logs ls). i \<le> last_index ls"
    using assms(1) by (auto simp: wf_log_def is_max_def log_keys_def)
  moreover have "filter (\<lambda>(i, _). \<not> (lo \<le> i \<and> i \<le> last_index ls)) (logs ls)
      = filter (\<lambda>(i, _). i < lo) (logs ls)"
    using le by (intro filter_cong) auto
  ultimately show ?thesis using lo by (simp add: delete_range_def MaxUint64_def Let_def)
qed

lemma delete_range_prefix:
  assumes "wf_log ls" and hi: "compactedUntil ls < hi" "hi \<le> last_index ls" "hi + 1 < 2 ^ 64"
  shows "delete_range 0 hi ls = Some (ls\<lparr>compactedUntil := hi,
      compactedTerm := (case map_of (logs ls) hi of Some e \<Rightarrow> uint64 (Term e) | None \<Rightarrow> compactedTerm ls)\<rparr>)"
proof -
  let ?ls = "ls\<lparr>compactedUntil := hi, compactedTerm :=
      (case map_of (logs ls) hi of Some e \<Rightarrow> uint64 (Term e) | None \<Rightarrow> compactedTerm ls)\<rparr>"
  have "is_max (fold (\<lambda>(i, _) m. max i m) (logs ls) hi) (insert hi (log_keys ls))"
    using fold_max_is_max [of "logs ls" hi] by (simp add: log_keys_def)
  moreover have "is_max (last_index ls) (insert hi (log_keys ls))"
    using assms by (auto simp: wf_log_def is_max_def)
  ultimately have "fold (\<lambda>(i, _) m. max i m) (logs ls) hi = last_index ls" by (rule is_max_unique)
  moreover have "filter (\<lambda>(i, _). \<not> (hi + 1 \<le> i \<and> i \<le> hi)) (logs ls) = logs ls"
    by (auto simp: filter_id_conv)
  ultimately show ?thesis using hi by (simp add: delete_range_def Let_def MaxUint64_def)
qed

lemma wf_filter_prefix:
  assumes "wf_log ls" and "compactedUntil ls < lo" "lo \<le> last_index ls"
  shows "wf_log (ls\<lparr>logs := filter (\<lambda>(i, _). i < lo) (logs ls),
      last_index := fold (\<lambda>(i, _) m. max i m) (filter (\<lambda>(i, _). i < lo) (logs ls)) (compactedUntil ls)\<rparr>)"
proof -
  let ?kept = "filter (\<lambda>(i, _). i < lo) (logs ls)"
  let ?m = "fold (\<lambda>(i, _) m. max i m) ?kept (compactedUntil ls)"
  have m: "is_max ?m (insert (compactedUntil ls) (fst ` set ?kept))" by (rule fold_max_is_max)
  then have "?m < lo" using assms(2) by (auto simp: is_max_def)
  then have "?m < 2 ^ 64" using assms by (simp add: wf_log_def)
  moreover have "distinct (map fst ?kept)" using assms(1) by (simp add: wf_log_def distinct_map_filter)
  ultimately show ?thesis using m assms(1) by (auto simp: wf_log_def log_keys_def)
qed

lemma map_of_filter_key: "map_of (filter (\<lambda>(i, _). P i) xs) = (\<lambda>i. if P i then map_of xs i else None)"
  by (induction xs) (auto simp: fun_eq_iff)

lemma delete_range_truncate:
  assumes c: "contiguous ls" and lo: "compactedUntil ls < lo"
    "lo \<le> compactedUntil ls + length (log_entries ls)"
  shows "\<exists>ls'. delete_range lo MaxUint64 ls = Some ls' \<and> contiguous ls' \<and> compactedUntil ls' = compactedUntil ls
    \<and> compactedTerm ls' = compactedTerm ls \<and> log_entries ls' = take (lo - compactedUntil ls - 1) (log_entries ls)"
proof -
  let ?kept = "filter (\<lambda>(i, _). i < lo) (logs ls)"
  let ?m = "fold (\<lambda>(i, _) m. max i m) ?kept (compactedUntil ls)"
  let ?ls = "ls\<lparr>logs := ?kept, last_index := ?m\<rparr>"
  have wf: "wf_log ls" and last: "lo \<le> last_index ls"
    using c lo log_entries_last [OF c] by (auto simp: contiguous_def)
  have k: "map_of ?kept = (\<lambda>i. if i < lo then map_of (logs ls) i else None)" by (rule map_of_filter_key)
  have "lo - 1 = compactedUntil ls \<or> map_of ?kept (lo - 1) \<noteq> None"
  proof (cases "lo - 1 = compactedUntil ls")
    case False
    then have "compactedUntil ls < lo - 1" "lo - 1 \<le> last_index ls" using lo(1) last by auto
    with c have "map_of (logs ls) (lo - 1) \<noteq> None" unfolding contiguous_def by blast
    with lo(1) show ?thesis unfolding k by auto
  qed simp
  then have "is_max (lo - 1) (insert (compactedUntil ls) (dom (map_of ?kept)))"
    using lo(1) unfolding k is_max_def by (auto split: if_splits)
  then have m: "?m = lo - 1"
    using fold_max_is_max [of ?kept "compactedUntil ls"] is_max_unique
    by (auto simp: dom_map_of_conv_image_fst)
  have "contiguous ?ls"
    using wf_filter_prefix [OF wf lo(1) last] c lo(1) last unfolding contiguous_def
    by (auto simp: m k)
  moreover have "log_entries ?ls = take (lo - compactedUntil ls - 1) (log_entries ls)"
    using lo(1) last m k by (auto simp: log_entries_def take_map take_upt simp del: upt_Suc)
  ultimately show ?thesis using delete_range_suffix [OF wf lo(1) last] by simp
qed

lemma delete_range_compact:
  assumes c: "contiguous ls" and hi: "compactedUntil ls < hi"
    "hi \<le> compactedUntil ls + length (log_entries ls)" "hi + 1 < 2 ^ 64"
  shows "\<exists>ls'. delete_range 0 hi ls = Some ls' \<and> contiguous ls' \<and> compactedUntil ls' = hi
    \<and> compactedTerm ls' = uint64 (Term (log_entries ls ! (hi - compactedUntil ls - 1)))
    \<and> last_index ls' = last_index ls
    \<and> log_entries ls' = drop (hi - compactedUntil ls) (log_entries ls) \<and> logs ls' = logs ls"
proof -
  have wf: "wf_log ls" and last: "hi \<le> last_index ls"
    using c hi log_entries_last [OF c] by (auto simp: contiguous_def)
  let ?ls = "ls\<lparr>compactedUntil := hi, compactedTerm := uint64 (Term (log_entries ls ! (hi - compactedUntil ls - 1)))\<rparr>"
  have "delete_range 0 hi ls = Some ?ls"
    using delete_range_prefix [OF wf hi(1) last hi(3)] log_entries_nth [OF c hi(1) last] by simp
  moreover have "contiguous ?ls"
    using c hi(1) last by (auto simp: contiguous_def wf_log_def is_max_def log_keys_def)
  moreover have "log_entries ?ls = drop (hi - compactedUntil ls) (log_entries ls)"
    using hi(1) last by (simp add: log_entries_def drop_map del: upt_Suc)
  ultimately show ?thesis by simp
qed

interpretation file_log: log_store contiguous compactedUntil log_entries GetLog store_entries
  "\<lambda>i ls. delete_range i MaxUint64 ls"
proof
  show "contiguous s \<Longrightarrow> compactedUntil s < i \<Longrightarrow> i \<le> compactedUntil s + length (log_entries s) \<Longrightarrow>
      \<exists>s'. delete_range i MaxUint64 s = Some s' \<and> contiguous s' \<and> compactedUntil s' = compactedUntil s
        \<and> log_entries s' = take (i - compactedUntil s - 1) (log_entries s)" for s i
    using delete_range_truncate by blast
  show "contiguous s \<Longrightarrow> consecutive (compactedUntil s + length (log_entries s)) es \<Longrightarrow>
      \<exists>s'. store_entries es s = (None, s') \<and> contiguous s' \<and> compactedUntil s' = compactedUntil s
        \<and> log_entries s' = log_entries s @ es" for s es
    using store_entries_append by blast
qed (simp_all add: GetLog_entries log_entries_consecutive)

end
