(* ===== verification/DurableRaft.thy ===== *)
theory DurableRaft
  imports RaftStores
begin

text \<open>
  The Raft node: \<^verbatim>\<open>DurableRaftReplicator\<close> of
  \<^verbatim>\<open>internal/metadata_replicator/durable_raft/replicator.go\<close>.

  Every method that runs under \<^verbatim>\<open>r.mu\<close> is one function from node to node; where a method
  releases the lock in between it is split there.  A goroutine the code starts is recorded as a
  task in \<open>spawned\<close> and run by a later call of the function that models its body.  The state
  machine (\<^verbatim>\<open>applier\<close> and \<^verbatim>\<open>SnapshotableStateMachine\<close>) is a record of functions on a state of any
  type, so that the metadata service can be put there; \<^verbatim>\<open>clusterService.GetAllNodes()\<close> and
  \<^verbatim>\<open>time.Now()\<close> are arguments.  A client's result channel is a number; \<open>sent\<close> is the sequence of
  values sent to the channels.
\<close>

section \<open>Data\<close>

datatype RaftState = Follower | Candidate | Leader

record RaftConfig =
  MaxBatchSize :: int
  MaxBatchWaitTime :: int
  SnapshotThresholdLogs :: nat

record RequestVoteArgs =
  rv_Term :: int
  rv_CandidateID :: string
  rv_LastLogIndex :: int
  rv_LastLogTerm :: int

record RequestVoteReply =
  rvr_Term :: int
  rvr_VoteGranted :: bool

record AppendEntriesRequest =
  ae_Term :: int
  ae_LeaderID :: string
  ae_PrevLogIndex :: int
  ae_PrevLogTerm :: int
  ae_Entries :: blob
  ae_LeaderCommit :: int

record AppendEntriesReply =
  aer_Term :: int
  aer_Success :: bool
  aer_ConflictIndex :: int
  aer_ConflictTerm :: int

record InstallSnapshotRequest =
  is_Term :: int
  is_LeaderID :: string
  is_LastIncludedIndex :: int
  is_LastIncludedTerm :: int
  is_Data :: blob

record InstallSnapshotReply =
  isr_Term :: int
  isr_Success :: bool

record appendWork =
  aw_node :: Node
  aw_prevLogIndex :: int
  aw_prevLogTerm :: int
  aw_entries :: "LogEntry list"
  aw_term :: nat
  aw_commitIndex :: nat

record snapshotWork =
  sw_node :: Node
  sw_req :: InstallSnapshotRequest
  sw_term :: nat

text \<open>The goroutine of one vote request, with the variables its closure captures.\<close>

record voteWork =
  vw_peer :: Node
  vw_args :: RequestVoteArgs
  vw_savedTerm :: nat
  vw_counter :: nat
  vw_quorum :: nat
  vw_nodes :: "Node list"

text \<open>The stages of a compaction, between which the node's lock is not held.\<close>

datatype compaction =
    CSerialize SnapshotMeta
  | CSave SnapshotMeta blob
  | CTrim SnapshotMeta
  | CEnd SnapshotMeta

datatype task =
    BroadcastTask
  | is_VoteTask: VoteTask voteWork
  | is_AppendTask: AppendTask appendWork
  | SnapshotTask snapshotWork
  | CompactTask compaction

text \<open>What a node is configured with, and the state machine it drives.\<close>

record 'm raft_env =
  self :: string
  cfg :: RaftConfig
  crc32 :: "blob \<Rightarrow> nat"
  dataDir :: string
  applyFn :: "blob \<Rightarrow> 'm \<Rightarrow> error option \<times> 'm"
  serializeFn :: "'m \<Rightarrow> blob result"
  restoreFn :: "blob \<Rightarrow> 'm \<Rightarrow> error option \<times> 'm"

definition walPath :: "'m raft_env \<Rightarrow> string" where
  "walPath E = dataDir E @ ''/raft_wal.json''"

definition stablePath :: "'m raft_env \<Rightarrow> string" where
  "stablePath E = dataDir E @ ''/raft_stable.json''"

definition snapshotPath :: "'m raft_env \<Rightarrow> string" where
  "snapshotPath E = dataDir E @ ''/raft_snapshot.bin''"

record 'm node =
  disk :: fs
  logStore :: FileLogStore
  machine :: 'm
  state :: RaftState
  currentTerm :: nat
  votedFor :: string
  commitIndex :: nat
  lastApplied :: nat
  lastIncludedIndex :: nat
  lastIncludedTerm :: nat
  nextIndex :: "string \<Rightarrow> nat"
  matchIndex :: "string \<Rightarrow> nat"
  leaderID :: string
  electionResetEvent :: int
  stopped :: bool
  pendingBatch :: "LogEntry list"
  pendingClients :: "(int \<times> nat) list"
  nextChan :: nat
  sent :: "(nat \<times> error option) list"
  votesReceived :: "nat list"
  spawned :: "task list"

section \<open>Helpers under the lock\<close>

definition getLastLogInfoLocked :: "'m node \<Rightarrow> nat \<times> nat" where
  "getLastLogInfoLocked n =
     (case LastIndexAndTerm (logStore n) of
        Inl _ \<Rightarrow> (lastIncludedIndex n, lastIncludedTerm n)
      | Inr (idx, tm) \<Rightarrow>
          if idx = lastIncludedIndex n \<and> tm = 0 then (lastIncludedIndex n, lastIncludedTerm n)
          else (idx, tm))"

definition persistStableLocked :: "'m raft_env \<Rightarrow> 'm node \<Rightarrow> error option \<times> 'm node" where
  "persistStableLocked E n =
     (let (r, d) = SetState (crc32 E) (stablePath E) (currentTerm n) (votedFor n) (disk n)
      in (map_option (Wrap ''stable store write failed'') r, n\<lparr>disk := d\<rparr>))"

definition failAllPendingLocked :: "error \<Rightarrow> 'm node \<Rightarrow> 'm node" where
  "failAllPendingLocked e n =
     n\<lparr>pendingBatch := [], sent := sent n @ map (\<lambda>(_, ch). (ch, Some e)) (pendingClients n),
       pendingClients := []\<rparr>"

definition handleStableStoreFailureLocked :: "int \<Rightarrow> error \<Rightarrow> 'm node \<Rightarrow> error option \<times> 'm node" where
  "handleStableStoreFailureLocked now e n =
     (Some e, failAllPendingLocked (Wrap ''stable store persistence failure'' e)
                (n\<lparr>state := Follower, electionResetEvent := now\<rparr>))"

definition stepDownLocked ::
  "'m raft_env \<Rightarrow> int \<Rightarrow> nat \<Rightarrow> string \<Rightarrow> 'm node \<Rightarrow> error option \<times> 'm node" where
  "stepDownLocked E now newTerm leader n =
     (let n1 = n\<lparr>state := Follower, currentTerm := newTerm, votedFor := [],
                 leaderID := (if leader \<noteq> [] then leader else leaderID n)\<rparr>;
          n2 = failAllPendingLocked (Errorf ''leadership changed during replication'') n1;
          n3 = n2\<lparr>electionResetEvent := now\<rparr>
      in case persistStableLocked E n3 of
           (Some e, n4) \<Rightarrow> handleStableStoreFailureLocked now e n4
         | (None, n4) \<Rightarrow> (None, n4))"

definition findLeaderAddrLocked :: "Node list result \<Rightarrow> string \<Rightarrow> string" where
  "findLeaderAddrLocked nodes leader =
     (if leader = [] then []
      else case nodes of
        Inl _ \<Rightarrow> []
      | Inr ns \<Rightarrow> (case find (\<lambda>p. node_ID p = leader) ns of None \<Rightarrow> [] | Some p \<Rightarrow> node_Address p))"

definition GetLeaderAddress :: "Node list result \<Rightarrow> 'm node \<Rightarrow> string" where
  "GetLeaderAddress nodes n = findLeaderAddrLocked nodes (leaderID n)"

text \<open>The result of a client: send, close and forget its channel.\<close>

definition notifyClient :: "int \<Rightarrow> error option \<Rightarrow> 'm node \<Rightarrow> 'm node" where
  "notifyClient idx r n =
     (case map_of (pendingClients n) idx of
        None \<Rightarrow> n
      | Some ch \<Rightarrow> n\<lparr>sent := sent n @ [(ch, r)],
                       pendingClients := AList.delete idx (pendingClients n)\<rparr>)"

section \<open>The write-ahead log of the node\<close>

definition nodeStoreLogs :: "'m raft_env \<Rightarrow> LogEntry list \<Rightarrow> 'm node \<Rightarrow> error option \<times> 'm node" where
  "nodeStoreLogs E es n =
     (let (r, ls, d) = StoreLogs (crc32 E) (walPath E) es (logStore n) (disk n)
      in (r, n\<lparr>logStore := ls, disk := d\<rparr>))"

definition nodeDeleteRange :: "'m raft_env \<Rightarrow> nat \<Rightarrow> nat \<Rightarrow> 'm node \<Rightarrow> error option \<times> 'm node" where
  "nodeDeleteRange E lo hi n =
     (let (r, ls, d) = DeleteRange (crc32 E) (walPath E) lo hi (logStore n) (disk n)
      in (r, n\<lparr>logStore := ls, disk := d\<rparr>))"

definition nodeLoadSnapshot :: "'m raft_env \<Rightarrow> 'm node \<Rightarrow> (SnapshotMeta \<times> blob) result \<times> 'm node" where
  "nodeLoadSnapshot E n =
     (let (r, d) = LoadSnapshot (snapshotPath E) (disk n) in (r, n\<lparr>disk := d\<rparr>))"

definition nodeSaveSnapshot :: "'m raft_env \<Rightarrow> SnapshotMeta \<Rightarrow> blob \<Rightarrow> 'm node \<Rightarrow> error option \<times> 'm node" where
  "nodeSaveSnapshot E meta data n =
     (let (r, d) = SaveSnapshot (snapshotPath E) meta data (disk n) in (r, n\<lparr>disk := d\<rparr>))"

section \<open>Start and stop\<close>

text \<open>
  A process start, as \<^verbatim>\<open>Build\<close> in \<^verbatim>\<open>servers/node/topology_hyperconverged.go\<close> wires it: open the log
  store, open (and validate) the stable store, construct the replicator.
\<close>

definition NewDurableRaftReplicator :: "fs \<Rightarrow> FileLogStore \<Rightarrow> 'm \<Rightarrow> 'm node" where
  "NewDurableRaftReplicator d ls m =
     \<lparr>disk = d, logStore = ls, machine = m, state = Follower, currentTerm = 0, votedFor = [],
      commitIndex = 0, lastApplied = 0, lastIncludedIndex = 0, lastIncludedTerm = 0,
      nextIndex = (\<lambda>_. 0), matchIndex = (\<lambda>_. 0), leaderID = [], electionResetEvent = 0,
      stopped = False, pendingBatch = [], pendingClients = [], nextChan = 0, sent = [],
      votesReceived = [], spawned = []\<rparr>"

definition Start :: "'m raft_env \<Rightarrow> int \<Rightarrow> 'm node \<Rightarrow> error option \<times> 'm node" where
  "Start E now n =
     (case GetState (crc32 E) (stablePath E) (disk n) of
        (Inl e, d) \<Rightarrow> (Some (Wrap ''load stable state'' e), n\<lparr>disk := d\<rparr>)
      | (Inr (tm, v), d) \<Rightarrow>
          let n1 = n\<lparr>disk := d, currentTerm := tm, votedFor := v\<rparr>
          in case nodeLoadSnapshot E n1 of
            (Inl e, n2) \<Rightarrow> (Some (Wrap ''load snapshot state'' e), n2)
          | (Inr (meta, data), n2) \<Rightarrow>
              if LastIncludedIndex meta > 0 \<and> data = Raw []
              then (Some (Errorf ''snapshot meta exists without snapshot data''), n2)
              else let n3 = (if LastIncludedIndex meta > 0
                             then n2\<lparr>lastIncludedIndex := LastIncludedIndex meta,
                                     lastIncludedTerm := LastIncludedTerm meta,
                                     commitIndex := LastIncludedIndex meta,
                                     lastApplied := LastIncludedIndex meta\<rparr>
                             else n2)
              in case LastIndexAndTerm (logStore n3) of
                   Inl e \<Rightarrow> (Some (Wrap ''load log state'' e), n3)
                 | Inr (lastIdx, _) \<Rightarrow>
                     if lastIdx < lastIncludedIndex n3
                     then (Some (Errorf ''wal behind snapshot''), n3)
                     else (None, n3\<lparr>state := Follower, electionResetEvent := now\<rparr>))"

definition bootNode :: "'m raft_env \<Rightarrow> int \<Rightarrow> 'm \<Rightarrow> fs \<Rightarrow> 'm node result" where
  "bootNode E now m d0 =
     (case NewFileLogStore (crc32 E) (walPath E) d0 of
        (Inl e, _) \<Rightarrow> Inl (Wrap ''creating raft log store'' e)
      | (Inr ls, d1) \<Rightarrow>
          (case NewFileStableStore (crc32 E) (stablePath E) d1 of
             (Inl e, _) \<Rightarrow> Inl (Wrap ''creating raft stable store'' e)
           | (Inr _, d2) \<Rightarrow>
               (let (_, d3) = os_MkdirAll d2
                in case Start E now (NewDurableRaftReplicator d3 ls m) of
                     (Some e, _) \<Rightarrow> Inl e
                   | (None, n) \<Rightarrow> Inr n)))"

definition Stop :: "'m node \<Rightarrow> 'm node" where
  "Stop n =
     (if stopped n then n
      else n\<lparr>stopped := True, sent := sent n @ map (\<lambda>(_, ch). (ch, Some ContextCanceled)) (pendingClients n),
             pendingClients := []\<rparr>)"

section \<open>Proposing\<close>

definition flushPendingBatchLocked :: "'m raft_env \<Rightarrow> 'm node \<Rightarrow> 'm node" where
  "flushPendingBatchLocked E n =
     (if pendingBatch n = [] then n
      else let batch = pendingBatch n
      in case nodeStoreLogs E batch (n\<lparr>pendingBatch := []\<rparr>) of
           (Some e, n1) \<Rightarrow> fold (\<lambda>entry. notifyClient (Index entry) (Some e)) batch n1
         | (None, n1) \<Rightarrow> n1\<lparr>spawned := spawned n1 @ [BroadcastTask]\<rparr>)"

text \<open>
  \<^verbatim>\<open>Replicate\<close> up to its \<^verbatim>\<open>select\<close>: an error, or the index and channel the caller waits on; and the
  branch of the \<^verbatim>\<open>select\<close> that gives up waiting.
\<close>

definition Replicate ::
  "'m raft_env \<Rightarrow> int \<Rightarrow> Node list result \<Rightarrow> blob \<Rightarrow> 'm node \<Rightarrow> (int \<times> nat) result \<times> 'm node" where
  "Replicate E now nodes data n =
     (if state n \<noteq> Leader
      then (Inl (ErrNotLeader (leaderID n) (findLeaderAddrLocked nodes (leaderID n))), n)
      else case LastIndexAndTerm (logStore n) of
        Inl e \<Rightarrow> (Inl e, n)
      | Inr (lastIdx, _) \<Rightarrow>
          let entryIndex = int64 (int64 (int lastIdx) + int (length (pendingBatch n)) + 1);
              entry = LogEntry entryIndex (int64 (int (currentTerm n))) data now;
              n1 = n\<lparr>pendingBatch := pendingBatch n @ [entry],
                     pendingClients := AList.update entryIndex (nextChan n) (pendingClients n),
                     nextChan := nextChan n + 1\<rparr>;
              n2 = (if MaxBatchSize (cfg E) \<le> 1 \<or> int (length (pendingBatch n1)) \<ge> MaxBatchSize (cfg E)
                    then flushPendingBatchLocked E n1 else n1)
          in (Inr (entryIndex, nextChan n), n2))"

definition Replicate_giveUp :: "int \<Rightarrow> 'm node \<Rightarrow> 'm node" where
  "Replicate_giveUp idx n = n\<lparr>pendingClients := AList.delete idx (pendingClients n)\<rparr>"

section \<open>Elections\<close>

definition becomeLeaderLocked :: "'m raft_env \<Rightarrow> Node list \<Rightarrow> 'm node \<Rightarrow> 'm node" where
  "becomeLeaderLocked E nodes n =
     (let n1 = n\<lparr>state := Leader, leaderID := self E\<rparr>;
          (lastIdx, _) = getLastLogInfoLocked n1;
          n2 = n1\<lparr>nextIndex := fold (\<lambda>p m. m(node_ID p := inc64 lastIdx)) nodes (nextIndex n1),
                  matchIndex := (fold (\<lambda>p m. m(node_ID p := lastIncludedIndex n1)) nodes (matchIndex n1))
                                  (self E := lastIdx)\<rparr>;
          n3 = (if pendingBatch n2 \<noteq> [] then flushPendingBatchLocked E n2 else n2)
      in n3\<lparr>spawned := spawned n3 @ [BroadcastTask]\<rparr>)"

definition startElectionLocked :: "'m raft_env \<Rightarrow> int \<Rightarrow> Node list result \<Rightarrow> 'm node \<Rightarrow> 'm node" where
  "startElectionLocked E now nodes n =
     (let n1 = n\<lparr>state := Candidate, currentTerm := inc64 (currentTerm n), votedFor := self E,
                 electionResetEvent := now\<rparr>
      in case persistStableLocked E n1 of
           (Some e, n2) \<Rightarrow> snd (handleStableStoreFailureLocked now e n2)
         | (None, n2) \<Rightarrow>
             (case nodes of
                Inl _ \<Rightarrow> n2
              | Inr ns \<Rightarrow>
                  let (lastIdx, lastTerm) = getLastLogInfoLocked n2
                  in if length ns = 1 then becomeLeaderLocked E ns n2
                     else let args = \<lparr>rv_Term = int64 (int (currentTerm n2)), rv_CandidateID = self E,
                                      rv_LastLogIndex = int64 (int lastIdx),
                                      rv_LastLogTerm = int64 (int lastTerm)\<rparr>
                     in n2\<lparr>votesReceived := votesReceived n2 @ [1],
                           spawned := spawned n2 @
                             map (\<lambda>p. VoteTask \<lparr>vw_peer = p, vw_args = args, vw_savedTerm = currentTerm n2,
                                               vw_counter = length (votesReceived n2),
                                               vw_quorum = length ns div 2 + 1, vw_nodes = ns\<rparr>)
                               (filter (\<lambda>p. node_ID p \<noteq> self E) ns)\<rparr>))"

text \<open>The rest of a vote goroutine, once the peer's reply has arrived.\<close>

definition handleVoteReply ::
  "'m raft_env \<Rightarrow> int \<Rightarrow> voteWork \<Rightarrow> RequestVoteReply \<Rightarrow> 'm node \<Rightarrow> 'm node" where
  "handleVoteReply E now w reply n =
     (if state n \<noteq> Candidate \<or> currentTerm n \<noteq> vw_savedTerm w then n
      else if rvr_Term reply > int64 (int (currentTerm n))
      then snd (stepDownLocked E now (uint64 (rvr_Term reply)) [] n)
      else if rvr_VoteGranted reply
      then let votes = votesReceived n ! vw_counter w + 1;
               n1 = n\<lparr>votesReceived := (votesReceived n)[vw_counter w := votes]\<rparr>
           in if votes \<ge> vw_quorum w \<and> state n1 = Candidate
              then becomeLeaderLocked E (vw_nodes w) n1 else n1
      else n)"

definition HandleRequestVote ::
  "'m raft_env \<Rightarrow> int \<Rightarrow> RequestVoteArgs \<Rightarrow> 'm node \<Rightarrow> RequestVoteReply \<times> error option \<times> 'm node" where
  "HandleRequestVote E now req n =
     (let reply = \<lparr>rvr_Term = int64 (int (currentTerm n)), rvr_VoteGranted = False\<rparr>
      in if rv_Term req < int64 (int (currentTerm n)) then (reply, None, n)
      else case (if rv_Term req > int64 (int (currentTerm n))
                 then stepDownLocked E now (uint64 (rv_Term req)) [] n else (None, n)) of
        (Some e, n1) \<Rightarrow> (reply\<lparr>rvr_Term := int64 (int (currentTerm n1))\<rparr>, Some e, n1)
      | (None, n1) \<Rightarrow>
          let (lastIdx, lastTerm) = getLastLogInfoLocked n1;
              logIsUpToDate = (rv_LastLogTerm req > int64 (int lastTerm)
                \<or> (rv_LastLogTerm req = int64 (int lastTerm) \<and> rv_LastLogIndex req \<ge> int64 (int lastIdx)))
          in if (votedFor n1 = [] \<or> votedFor n1 = rv_CandidateID req) \<and> logIsUpToDate
             then case persistStableLocked E (n1\<lparr>votedFor := rv_CandidateID req\<rparr>) of
                (Some e, n2) \<Rightarrow>
                  let n3 = snd (handleStableStoreFailureLocked now e n2)
                  in (reply\<lparr>rvr_Term := int64 (int (currentTerm n3))\<rparr>, Some e, n3)
              | (None, n2) \<Rightarrow>
                  (\<lparr>rvr_Term = int64 (int (currentTerm n2)), rvr_VoteGranted = True\<rparr>, None,
                   n2\<lparr>electionResetEvent := now\<rparr>)
             else (reply\<lparr>rvr_Term := int64 (int (currentTerm n1))\<rparr>, None, n1))"

section \<open>Applying and committing\<close>

text \<open>
  The loop of \<^verbatim>\<open>applyLogsLocked\<close>.  It stops early at an entry it cannot read; \<^verbatim>\<open>lastApplied + 1\<close>
  does not wrap because \<^verbatim>\<open>lastApplied\<close> is below \<^verbatim>\<open>commitIndex\<close>.
\<close>

definition applyEntry :: "'m raft_env \<Rightarrow> nat \<Rightarrow> LogEntry \<Rightarrow> 'm node \<Rightarrow> 'm node" where
  "applyEntry E idx entry n =
     (let (applyErr, m) = applyFn E (Data entry) (machine n)
      in notifyClient (Index entry) applyErr (n\<lparr>lastApplied := idx, machine := m\<rparr>))"

lemma lastApplied_notifyClient [simp]:
  "lastApplied (notifyClient i r n) = lastApplied n"
  "commitIndex (notifyClient i r n) = commitIndex n"
  by (simp_all add: notifyClient_def split: option.split)

lemma applyEntry_indices [simp]:
  "lastApplied (applyEntry E idx e n) = idx" "commitIndex (applyEntry E idx e n) = commitIndex n"
  by (simp_all add: applyEntry_def split: prod.split)

function applyLogsLocked :: "'m raft_env \<Rightarrow> 'm node \<Rightarrow> 'm node" where
  "applyLogsLocked E n =
     (if lastApplied n < commitIndex n
      then let next = lastApplied n + 1
           in if next \<le> lastIncludedIndex n then applyLogsLocked E (n\<lparr>lastApplied := next\<rparr>)
              else case GetLog next (logStore n) of
                Inl _ \<Rightarrow> n
              | Inr entry \<Rightarrow> applyLogsLocked E (applyEntry E next entry n)
      else n)"
  by pat_completeness auto
termination
  by (relation "measure (\<lambda>(_, n). commitIndex n - lastApplied n)") auto

definition matchCount :: "'m raft_env \<Rightarrow> Node list \<Rightarrow> nat \<Rightarrow> 'm node \<Rightarrow> nat" where
  "matchCount E nodes i n =
     1 + length (filter (\<lambda>p. node_ID p \<noteq> self E \<and> matchIndex n (node_ID p) \<ge> i) nodes)"

fun advanceLoop :: "'m raft_env \<Rightarrow> Node list \<Rightarrow> nat \<Rightarrow> 'm node \<Rightarrow> 'm node" where
  "advanceLoop E nodes 0 n = n"
| "advanceLoop E nodes (Suc k) n =
     (if Suc k \<le> commitIndex n then n
      else case GetLog (Suc k) (logStore n) of
        Inl _ \<Rightarrow> advanceLoop E nodes k n
      | Inr entry \<Rightarrow>
          if Term entry \<noteq> int64 (int (currentTerm n)) then advanceLoop E nodes k n
          else if matchCount E nodes (Suc k) n > length nodes div 2
          then applyLogsLocked E (n\<lparr>commitIndex := Suc k\<rparr>)
          else advanceLoop E nodes k n)"

definition advanceCommitIndexLocked :: "'m raft_env \<Rightarrow> Node list result \<Rightarrow> 'm node \<Rightarrow> 'm node" where
  "advanceCommitIndexLocked E nodes n =
     (case LastIndexAndTerm (logStore n) of
        Inl _ \<Rightarrow> n
      | Inr (lastIdx, _) \<Rightarrow>
          (case nodes of
             Inl _ \<Rightarrow> n
           | Inr ns \<Rightarrow> if ns = [] then n else advanceLoop E ns lastIdx n))"

section \<open>Replicating\<close>

fun collectEntries :: "FileLogStore \<Rightarrow> nat list \<Rightarrow> LogEntry list" where
  "collectEntries ls [] = []"
| "collectEntries ls (i # is) =
     (case GetLog i ls of Inl _ \<Rightarrow> [] | Inr e \<Rightarrow> e # collectEntries ls is)"

definition snapshotRequest :: "'m raft_env \<Rightarrow> nat \<Rightarrow> SnapshotMeta \<Rightarrow> blob \<Rightarrow> InstallSnapshotRequest" where
  "snapshotRequest E savedTerm meta data =
     \<lparr>is_Term = int64 (int savedTerm), is_LeaderID = self E,
      is_LastIncludedIndex = int64 (int (LastIncludedIndex meta)),
      is_LastIncludedTerm = int64 (int (LastIncludedTerm meta)), is_Data = data\<rparr>"

text \<open>The body of the loop over the nodes: the work for one peer, if any.\<close>

definition broadcastWork ::
  "'m raft_env \<Rightarrow> nat \<Rightarrow> SnapshotMeta \<Rightarrow> blob \<Rightarrow> 'm node \<Rightarrow> Node \<Rightarrow> task option" where
  "broadcastWork E lastIdx meta data n peer =
     (let nextIdx0 = nextIndex n (node_ID peer);
          nextIdx = (if nextIdx0 = 0 then inc64 (lastIncludedIndex n) else nextIdx0);
          snapshot = SnapshotTask \<lparr>sw_node = peer, sw_req = snapshotRequest E (currentTerm n) meta data,
                                   sw_term = currentTerm n\<rparr>
      in if nextIdx \<le> lastIncludedIndex n
         then (if LastIncludedIndex meta = 0 \<or> data = Raw [] then None else Some snapshot)
         else let
           prevLogIndex = nextIdx - 1;
           prev = (if prevLogIndex = lastIncludedIndex n then Inr (int64 (int (lastIncludedTerm n)))
                   else if prevLogIndex > 0
                   then (case GetLog prevLogIndex (logStore n) of Inl e \<Rightarrow> Inl e | Inr e \<Rightarrow> Inr (Term e))
                   else Inr 0)
         in case prev of
              Inl e \<Rightarrow> (if errors_Is e ErrLogCompacted \<and> LastIncludedIndex meta > 0 then Some snapshot else None)
            | Inr prevLogTerm \<Rightarrow>
                Some (AppendTask \<lparr>aw_node = peer, aw_prevLogIndex = int64 (int prevLogIndex),
                                  aw_prevLogTerm = prevLogTerm,
                                  aw_entries = collectEntries (logStore n) [nextIdx..<lastIdx + 1],
                                  aw_term = currentTerm n, aw_commitIndex = commitIndex n\<rparr>))"

definition broadcastAppendEntries :: "'m raft_env \<Rightarrow> Node list result \<Rightarrow> 'm node \<Rightarrow> 'm node" where
  "broadcastAppendEntries E nodes n =
     (if state n \<noteq> Leader then n
      else case nodes of
        Inl _ \<Rightarrow> n
      | Inr ns \<Rightarrow>
          let (lastIdx, _) = getLastLogInfoLocked n
          in case nodeLoadSnapshot E n of
               (Inl _, n1) \<Rightarrow> n1
             | (Inr (meta, data), n1) \<Rightarrow>
                 let work = List.map_filter (broadcastWork E lastIdx meta data n1)
                              (filter (\<lambda>p. node_ID p \<noteq> self E) ns)
                 in n1\<lparr>spawned := spawned n1 @ [t \<leftarrow> work. is_AppendTask t] @ [t \<leftarrow> work. \<not> is_AppendTask t]\<rparr>)"

definition appendRequest :: "'m raft_env \<Rightarrow> appendWork \<Rightarrow> AppendEntriesRequest" where
  "appendRequest E w =
     \<lparr>ae_Term = int64 (int (aw_term w)), ae_LeaderID = self E, ae_PrevLogIndex = aw_prevLogIndex w,
      ae_PrevLogTerm = aw_prevLogTerm w, ae_Entries = JsonEntries (aw_entries w),
      ae_LeaderCommit = int64 (int (aw_commitIndex w))\<rparr>"

text \<open>The rest of \<^verbatim>\<open>replicateAppendEntries\<close> and \<^verbatim>\<open>replicateSnapshot\<close> once the reply has arrived.\<close>

definition handleAppendReply ::
  "'m raft_env \<Rightarrow> int \<Rightarrow> Node list result \<Rightarrow> appendWork \<Rightarrow> AppendEntriesReply \<Rightarrow> 'm node \<Rightarrow> 'm node" where
  "handleAppendReply E now nodes w reply n =
     (let peer = node_ID (aw_node w)
      in if state n \<noteq> Leader \<or> currentTerm n \<noteq> aw_term w then n
      else if aer_Term reply > int64 (int (currentTerm n))
      then snd (stepDownLocked E now (uint64 (aer_Term reply)) [] n)
      else if aer_Success reply
      then let newMatchIndex = (if aw_entries w \<noteq> [] then uint64 (Index (last (aw_entries w)))
                                else uint64 (aw_prevLogIndex w))
           in if newMatchIndex > matchIndex n peer
              then advanceCommitIndexLocked E nodes
                     (n\<lparr>matchIndex := (matchIndex n)(peer := newMatchIndex),
                        nextIndex := (nextIndex n)(peer := inc64 newMatchIndex)\<rparr>)
              else n
      else if aer_ConflictIndex reply > 0
      then n\<lparr>nextIndex := (nextIndex n)(peer :=
               (if uint64 (aer_ConflictIndex reply) < 1 then 1 else uint64 (aer_ConflictIndex reply)))\<rparr>
      else if nextIndex n peer > 1
      then n\<lparr>nextIndex := (nextIndex n)(peer := nextIndex n peer - 1)\<rparr>
      else n)"

definition handleSnapshotReply ::
  "'m raft_env \<Rightarrow> int \<Rightarrow> snapshotWork \<Rightarrow> InstallSnapshotReply \<Rightarrow> 'm node \<Rightarrow> 'm node" where
  "handleSnapshotReply E now w reply n =
     (let peer = node_ID (sw_node w)
      in if state n \<noteq> Leader \<or> currentTerm n \<noteq> sw_term w then n
      else if isr_Term reply > int64 (int (currentTerm n))
      then snd (stepDownLocked E now (uint64 (isr_Term reply)) [] n)
      else if isr_Success reply
      then let idx = uint64 (is_LastIncludedIndex (sw_req w))
           in n\<lparr>matchIndex := (matchIndex n)(peer := idx), nextIndex := (nextIndex n)(peer := inc64 idx)\<rparr>
      else n)"

declare applyLogsLocked.simps [simp del]

section \<open>The follower's handlers\<close>

fun json_Unmarshal_entries :: "blob \<Rightarrow> LogEntry list option" where
  "json_Unmarshal_entries (JsonEntries es) = Some es"
| "json_Unmarshal_entries (JsonStrings ss) = (if ss = [] then Some [] else None)"
| "json_Unmarshal_entries _ = None"

text \<open>
  \<^verbatim>\<open>HandleAppendEntries\<close> in the order of the code: adopt the leader, check the entry before the
  batch (\<open>Some\<close> is the conflict reply), merge the batch into the log, advance the commit index.
\<close>

definition adoptLeader :: "int \<Rightarrow> string \<Rightarrow> 'm node \<Rightarrow> 'm node" where
  "adoptLeader now leader n = n\<lparr>state := Follower, leaderID := leader, electionResetEvent := now\<rparr>"

definition checkPrevLog :: "AppendEntriesRequest \<Rightarrow> AppendEntriesReply \<Rightarrow> 'm node \<Rightarrow> AppendEntriesReply option" where
  "checkPrevLog req reply n =
     (if uint64 (ae_PrevLogIndex req) < lastIncludedIndex n
      then Some (reply\<lparr>aer_ConflictIndex := int64 (int (inc64 (lastIncludedIndex n)))\<rparr>)
      else if ae_PrevLogIndex req = int64 (int (lastIncludedIndex n))
      then (if ae_PrevLogTerm req \<noteq> int64 (int (lastIncludedTerm n))
            then Some (reply\<lparr>aer_ConflictIndex := int64 (int (lastIncludedIndex n)),
                             aer_ConflictTerm := int64 (int (lastIncludedTerm n))\<rparr>)
            else None)
      else if ae_PrevLogIndex req > 0
      then (case GetLog (uint64 (ae_PrevLogIndex req)) (logStore n) of
              Inl _ \<Rightarrow>
                (let lastIdx = (case LastIndexAndTerm (logStore n) of Inl _ \<Rightarrow> 0 | Inr (i, _) \<Rightarrow> i)
                 in Some (reply\<lparr>aer_ConflictIndex := int64 (int (inc64 lastIdx))\<rparr>))
            | Inr prevEntry \<Rightarrow>
                (if Term prevEntry \<noteq> ae_PrevLogTerm req
                 then Some (reply\<lparr>aer_ConflictTerm := Term prevEntry, aer_ConflictIndex := ae_PrevLogIndex req\<rparr>)
                 else None))
      else None)"

definition mergeEntries :: "'m raft_env \<Rightarrow> LogEntry list \<Rightarrow> 'm node \<Rightarrow> error option \<times> 'm node" where
  "mergeEntries E entries n =
     (case scan_entries (\<lambda>i. GetLog i (logStore n)) (lastIncludedIndex n) entries of
        (start, newLogs) \<Rightarrow>
          (case (case start of None \<Rightarrow> (None, n) | Some i \<Rightarrow> nodeDeleteRange E i MaxUint64 n) of
             (Some e, n1) \<Rightarrow> (Some e, n1)
           | (None, n1) \<Rightarrow> if newLogs \<noteq> [] then nodeStoreLogs E newLogs n1 else (None, n1)))"

definition commitTo :: "'m raft_env \<Rightarrow> nat \<Rightarrow> nat \<Rightarrow> 'm node \<Rightarrow> 'm node" where
  "commitTo E leaderCommit lastIdx n =
     (if leaderCommit > commitIndex n
      then let target = (if leaderCommit > lastIdx then lastIdx else leaderCommit);
               target = (if target < lastIncludedIndex n then lastIncludedIndex n else target)
           in applyLogsLocked E (n\<lparr>commitIndex := target\<rparr>)
      else n)"

definition HandleAppendEntries ::
  "'m raft_env \<Rightarrow> int \<Rightarrow> AppendEntriesRequest \<Rightarrow> 'm node \<Rightarrow> AppendEntriesReply \<times> error option \<times> 'm node" where
  "HandleAppendEntries E now req n =
     (let reply0 = \<lparr>aer_Term = int64 (int (currentTerm n)), aer_Success = False,
                    aer_ConflictIndex = 0, aer_ConflictTerm = 0\<rparr>
      in if ae_Term req < int64 (int (currentTerm n)) then (reply0, None, n)
      else case (if ae_Term req > int64 (int (currentTerm n))
                 then stepDownLocked E now (uint64 (ae_Term req)) (ae_LeaderID req) n else (None, n)) of
        (Some e, n1) \<Rightarrow> (reply0, Some e, n1)
      | (None, n1) \<Rightarrow>
          let n2 = adoptLeader now (ae_LeaderID req) n1;
              reply = reply0\<lparr>aer_Term := int64 (int (currentTerm n2))\<rparr>
          in case checkPrevLog req reply n2 of
               Some conflict \<Rightarrow> (conflict, None, n2)
             | None \<Rightarrow>
                 (case (if ae_Entries req = Raw [] then Some [] else json_Unmarshal_entries (ae_Entries req)) of
                    None \<Rightarrow> (reply, None, n2)
                  | Some entries \<Rightarrow>
                      (case mergeEntries E entries n2 of
                         (Some _, n3) \<Rightarrow> (reply, None, n3)
                       | (None, n3) \<Rightarrow>
                           (case LastIndexAndTerm (logStore n3) of
                              Inl _ \<Rightarrow> (reply, None, n3)
                            | Inr (lastIdx, _) \<Rightarrow>
                                (reply\<lparr>aer_Success := True\<rparr>, None,
                                 commitTo E (uint64 (ae_LeaderCommit req)) lastIdx n3)))))"

definition installTo :: "nat \<Rightarrow> nat \<Rightarrow> 'm node \<Rightarrow> 'm node" where
  "installTo idx tm n =
     n\<lparr>lastIncludedIndex := idx, lastIncludedTerm := tm,
       commitIndex := (if commitIndex n < idx then idx else commitIndex n),
       lastApplied := (if lastApplied n < idx then idx else lastApplied n)\<rparr>"

definition nodeRestoreSnapshot :: "'m raft_env \<Rightarrow> blob \<Rightarrow> 'm node \<Rightarrow> error option \<times> 'm node" where
  "nodeRestoreSnapshot E data n =
     (let (r, m) = restoreFn E data (machine n) in (r, n\<lparr>machine := m\<rparr>))"

text \<open>Replacing the log by the snapshot: \<open>True\<close> if every step succeeded.\<close>

definition replaceLog :: "'m raft_env \<Rightarrow> InstallSnapshotRequest \<Rightarrow> 'm node \<Rightarrow> bool \<times> 'm node" where
  "replaceLog E req n =
     (let incomingIndex = uint64 (is_LastIncludedIndex req);
          incomingTerm = uint64 (is_LastIncludedTerm req);
          retainSuffix = (case GetLog incomingIndex (logStore n) of
                            Inl _ \<Rightarrow> False | Inr e \<Rightarrow> uint64 (Term e) = incomingTerm)
      in case nodeSaveSnapshot E \<lparr>LastIncludedIndex = incomingIndex, LastIncludedTerm = incomingTerm\<rparr>
                (is_Data req) n of
           (Some _, n1) \<Rightarrow> (False, n1)
         | (None, n1) \<Rightarrow>
             if retainSuffix
             then (let (r, n2) = nodeDeleteRange E 0 incomingIndex n1 in (r = None, n2))
             else case LastIndexAndTerm (logStore n1) of
               Inl _ \<Rightarrow> (False, n1)
             | Inr (lastIdx, _) \<Rightarrow>
                 (case nodeDeleteRange E 0 lastIdx n1 of
                    (Some _, n2) \<Rightarrow> (False, n2)
                  | (None, n2) \<Rightarrow>
                      (let (r, n3) = nodeRestoreSnapshot E (is_Data req) n2 in (r = None, n3))))"

definition HandleInstallSnapshot ::
  "'m raft_env \<Rightarrow> int \<Rightarrow> InstallSnapshotRequest \<Rightarrow> 'm node \<Rightarrow> InstallSnapshotReply \<times> error option \<times> 'm node" where
  "HandleInstallSnapshot E now req n =
     (let reply0 = \<lparr>isr_Term = int64 (int (currentTerm n)), isr_Success = False\<rparr>
      in if is_Term req < int64 (int (currentTerm n)) then (reply0, None, n)
      else case (if is_Term req > int64 (int (currentTerm n))
                 then stepDownLocked E now (uint64 (is_Term req)) (is_LeaderID req) n else (None, n)) of
        (Some e, n1) \<Rightarrow> (reply0, Some e, n1)
      | (None, n1) \<Rightarrow>
          let n2 = adoptLeader now (is_LeaderID req) n1;
              reply = reply0\<lparr>isr_Term := int64 (int (currentTerm n2))\<rparr>;
              incomingIndex = uint64 (is_LastIncludedIndex req)
          in if incomingIndex \<le> lastIncludedIndex n2 then (reply\<lparr>isr_Success := True\<rparr>, None, n2)
             else case replaceLog E req n2 of
               (False, n3) \<Rightarrow> (reply, None, n3)
             | (True, n3) \<Rightarrow>
                 (reply\<lparr>isr_Success := True\<rparr>, None,
                  installTo incomingIndex (uint64 (is_LastIncludedTerm req)) n3))"

section \<open>Compaction\<close>

text \<open>
  \<^verbatim>\<open>checkCompaction\<close> holds \<^verbatim>\<open>r.mu\<close> only while it chooses the snapshot index and while it records
  it; in between it calls the state machine and the stores, each under its own lock.  Its stages
  are tasks, so that the handlers can run in between; \<open>compactionStep\<close> does one stage and says
  what remains to be done.
\<close>

definition compactionBegin :: "'m raft_env \<Rightarrow> 'm node \<Rightarrow> SnapshotMeta option" where
  "compactionBegin E n =
     (if SnapshotThresholdLogs (cfg E) = 0 then None
      else if lastApplied n \<le> lastIncludedIndex n then None
      else if lastApplied n - lastIncludedIndex n < SnapshotThresholdLogs (cfg E) then None
      else Some \<lparr>LastIncludedIndex = lastApplied n,
                 LastIncludedTerm = (case GetLog (lastApplied n) (logStore n) of
                                       Inl _ \<Rightarrow> lastIncludedTerm n | Inr e \<Rightarrow> uint64 (Term e))\<rparr>)"

definition compactionEnd :: "SnapshotMeta \<Rightarrow> 'm node \<Rightarrow> 'm node" where
  "compactionEnd meta n =
     (if LastIncludedIndex meta > lastIncludedIndex n
      then n\<lparr>lastIncludedIndex := LastIncludedIndex meta, lastIncludedTerm := LastIncludedTerm meta\<rparr>
      else n)"

fun compactionStep :: "'m raft_env \<Rightarrow> compaction \<Rightarrow> 'm node \<Rightarrow> compaction option \<times> 'm node" where
  "compactionStep E (CSerialize meta) n =
     (case serializeFn E (machine n) of Inl _ \<Rightarrow> (None, n) | Inr data \<Rightarrow> (Some (CSave meta data), n))"
| "compactionStep E (CSave meta data) n =
     (case nodeSaveSnapshot E meta data n of
        (Some _, n1) \<Rightarrow> (None, n1) | (None, n1) \<Rightarrow> (Some (CTrim meta), n1))"
| "compactionStep E (CTrim meta) n =
     (case nodeDeleteRange E 0 (LastIncludedIndex meta) n of
        (Some _, n1) \<Rightarrow> (None, n1) | (None, n1) \<Rightarrow> (Some (CEnd meta), n1))"
| "compactionStep E (CEnd meta) n = (None, compactionEnd meta n)"

text \<open>The whole of \<^verbatim>\<open>checkCompaction\<close> when nothing runs in between.\<close>

fun compactionStage :: "compaction option \<Rightarrow> nat" where
  "compactionStage None = 0"
| "compactionStage (Some (CEnd _)) = 1"
| "compactionStage (Some (CTrim _)) = 2"
| "compactionStage (Some (CSave _ _)) = 3"
| "compactionStage (Some (CSerialize _)) = 4"

lemma compactionStep_stage:
  "compactionStep E c n = (c', n') \<Longrightarrow> compactionStage c' < compactionStage (Some c)"
  by (cases c) (auto split: sum.splits prod.splits option.splits)

function runCompaction :: "'m raft_env \<Rightarrow> compaction option \<Rightarrow> 'm node \<Rightarrow> 'm node" where
  "runCompaction E None n = n"
| "runCompaction E (Some c) n = (case compactionStep E c n of (c', n') \<Rightarrow> runCompaction E c' n')"
  by pat_completeness auto
termination
  by (relation "measure (\<lambda>(_, c, _). compactionStage c)") (auto dest: compactionStep_stage split: prod.split)

definition checkCompaction :: "'m raft_env \<Rightarrow> 'm node \<Rightarrow> 'm node" where
  "checkCompaction E n = runCompaction E (map_option CSerialize (compactionBegin E n)) n"

section \<open>The event loop\<close>

definition heartbeatInterval :: int where
  "heartbeatInterval = 50 * 1000000"

definition batchTick :: "'m raft_env \<Rightarrow> 'm node \<Rightarrow> 'm node" where
  "batchTick E n =
     (if state n = Leader \<and> pendingBatch n \<noteq> [] then flushPendingBatchLocked E n else n)"

definition timerTick :: "'m raft_env \<Rightarrow> int \<Rightarrow> int \<Rightarrow> Node list result \<Rightarrow> 'm node \<Rightarrow> 'm node" where
  "timerTick E now electionTimeout nodes n =
     (let elapsed = now - electionResetEvent n
      in if state n = Leader
         then (if elapsed \<ge> heartbeatInterval
               then n\<lparr>spawned := spawned n @ [BroadcastTask], electionResetEvent := now\<rparr> else n)
         else if elapsed \<ge> electionTimeout then startElectionLocked E now nodes n
         else n)"

end
