(* ===== verification/RaftProps.thy ===== *)
theory RaftProps
  imports DurableRaft
begin

text \<open>
  What each operation of the Raft node does to the node: the frame of the vote state (term, vote,
  the durable copies of both, the running vote requests), and the behaviour of the handlers.
\<close>

section \<open>Paths\<close>

lemma paths_distinct [simp]:
  "walPath E \<noteq> stablePath E" "snapshotPath E \<noteq> stablePath E"
  "stablePath E \<noteq> walPath E" "stablePath E \<noteq> snapshotPath E"
  "walPath E \<noteq> snapshotPath E" "snapshotPath E \<noteq> walPath E"
  "stablePath E \<noteq> tmpPath (walPath E)" "stablePath E \<noteq> tmpPath (snapshotPath E)"
  "walPath E \<noteq> tmpPath (stablePath E)" "walPath E \<noteq> tmpPath (snapshotPath E)"
  "snapshotPath E \<noteq> tmpPath (stablePath E)" "snapshotPath E \<noteq> tmpPath (walPath E)"
  by (simp_all add: walPath_def stablePath_def snapshotPath_def tmpPath_def)

section \<open>The frame of the vote state\<close>

definition views :: "'m raft_env \<Rightarrow> 'm node \<Rightarrow> (nat \<times> string) result set" where
  "views E n = stable_views (crc32 E) (stablePath E) (disk n)"

definition disk_ok :: "'m raft_env \<Rightarrow> 'm node \<Rightarrow> 'm node \<Rightarrow> bool" where
  "disk_ok E n n' \<longleftrightarrow> (wf_fs (disk n) \<longrightarrow> wf_fs (disk n') \<and> views E n' \<subseteq> views E n)"

text \<open>The running goroutines that have a request under way.\<close>

fun is_rpc :: "task \<Rightarrow> bool" where
  "is_rpc (VoteTask _) = True"
| "is_rpc (AppendTask _) = True"
| "is_rpc (SnapshotTask _) = True"
| "is_rpc BroadcastTask = False"
| "is_rpc (CompactTask _) = False"

definition rpc_tasks :: "'m node \<Rightarrow> task list" where
  "rpc_tasks n = filter is_rpc (spawned n)"

definition keeps :: "'m raft_env \<Rightarrow> 'm node \<Rightarrow> 'm node \<Rightarrow> bool" where
  "keeps E n n' \<longleftrightarrow>
     disk_ok E n n' \<and> currentTerm n' = currentTerm n \<and> votedFor n' = votedFor n
   \<and> votesReceived n' = votesReceived n \<and> rpc_tasks n' = rpc_tasks n
   \<and> (state n' = state n \<or> state n' = Follower)"

lemma keeps_refl [simp]: "keeps E n n"
  by (simp add: keeps_def disk_ok_def)

lemma keeps_trans [trans]: "keeps E a b \<Longrightarrow> keeps E b c \<Longrightarrow> keeps E a c"
  by (auto simp: keeps_def disk_ok_def)

text \<open>An update that leaves the disk and the vote state alone.\<close>

lemma keepsI:
  assumes "disk n' = disk n" "currentTerm n' = currentTerm n" "votedFor n' = votedFor n"
    "votesReceived n' = votesReceived n" "rpc_tasks n' = rpc_tasks n"
    "state n' = state n \<or> state n' = Follower"
  shows "keeps E n n'"
  using assms by (simp add: keeps_def disk_ok_def views_def)

lemma keeps_disk:
  assumes "wf_fs (disk n) \<Longrightarrow> wf_fs d \<and> stable_views (crc32 E) (stablePath E) d \<subseteq> views E n"
  shows "keeps E n (n\<lparr>disk := d\<rparr>)"
  using assms by (simp add: keeps_def disk_ok_def views_def rpc_tasks_def)

lemma keeps_notifyClient: "keeps E n (notifyClient i r n)"
  by (rule keepsI) (simp_all add: notifyClient_def rpc_tasks_def split: option.split)

lemma keeps_fold_notifyClient: "keeps E n (fold (\<lambda>e. notifyClient (f e) r) es n)"
  by (induction es arbitrary: n) (auto intro: keeps_trans keeps_notifyClient)

lemma keeps_failAllPendingLocked: "keeps E n (failAllPendingLocked e n)"
  by (rule keepsI) (simp_all add: failAllPendingLocked_def rpc_tasks_def)

lemma writeFileAtomically_views:
  assumes "writeFileAtomically p b (disk n) = (r, d)" and "p \<in> {walPath E, snapshotPath E}"
  shows "keeps E n (n\<lparr>disk := d\<rparr>)"
proof (rule keeps_disk)
  assume wf: "wf_fs (disk n)"
  have "stablePath E \<noteq> p" "stablePath E \<noteq> tmpPath p" using assms(2) by auto
  then show "wf_fs d \<and> stable_views (crc32 E) (stablePath E) d \<subseteq> views E n"
    using writeFileAtomically_wf [OF assms(1) wf] writeFileAtomically_atomic_write [OF wf assms(1)]
      atomic_write_other_views by (auto simp: views_def)
qed

lemma keeps_logStore: "keeps E n (n\<lparr>logStore := ls\<rparr>)"
  by (rule keepsI) (simp_all add: rpc_tasks_def)

lemma keeps_nodeStoreLogs: "nodeStoreLogs E es n = (r, n') \<Longrightarrow> keeps E n n'"
  using writeFileAtomically_views [where E = E and n = "n\<lparr>logStore := ls\<rparr>" for ls] keeps_logStore
  by (fastforce simp: nodeStoreLogs_def StoreLogs_def persistLocked_def Let_def intro: keeps_trans
      split: prod.splits option.splits)

lemma keeps_nodeDeleteRange: "nodeDeleteRange E lo hi n = (r, n') \<Longrightarrow> keeps E n n'"
  using writeFileAtomically_views [where E = E and n = "n\<lparr>logStore := ls\<rparr>" for ls] keeps_logStore
  by (fastforce simp: nodeDeleteRange_def DeleteRange_def persistLocked_def Let_def intro: keeps_trans
      split: prod.splits option.splits)

lemma keeps_nodeSaveSnapshot: "nodeSaveSnapshot E meta data n = (r, n') \<Longrightarrow> keeps E n n'"
  using writeFileAtomically_views [where E = E and n = n]
  by (fastforce simp: nodeSaveSnapshot_def SaveSnapshot_def split: prod.splits)

lemma LoadSnapshot_files:
  "LoadSnapshot p s = (r, t) \<Longrightarrow> cur t = cur s \<and> synced t = synced s \<and> poss t = poss s"
  by (auto simp: LoadSnapshot_def dest: os_ReadFile_files split: prod.splits sum.splits error.splits)

lemma keeps_nodeLoadSnapshot: "nodeLoadSnapshot E n = (r, n') \<Longrightarrow> keeps E n n'"
  by (auto simp: nodeLoadSnapshot_def wf_fs_def views_def stable_views_def
      dest!: LoadSnapshot_files intro!: keeps_disk split: prod.splits)

lemma keeps_nodeRestoreSnapshot: "nodeRestoreSnapshot E data n = (r, n') \<Longrightarrow> keeps E n n'"
  by (auto simp: nodeRestoreSnapshot_def rpc_tasks_def intro!: keepsI split: prod.splits)

lemma keeps_applyEntry: "keeps E n (applyEntry E idx e n)"
proof -
  obtain r m where "applyFn E (Data e) (machine n) = (r, m)" by fastforce
  moreover have "keeps E n (n\<lparr>lastApplied := idx, machine := m\<rparr>)"
    by (rule keepsI) (simp_all add: rpc_tasks_def)
  ultimately show ?thesis by (auto simp: applyEntry_def intro: keeps_trans keeps_notifyClient)
qed

lemma keeps_applyLogsLocked: "keeps E n (applyLogsLocked E n)"
proof (induction E n rule: applyLogsLocked.induct)
  case (1 E n)
  have a: "keeps E n (n\<lparr>lastApplied := i\<rparr>)" for i by (rule keepsI) (simp_all add: rpc_tasks_def)
  show ?case
    by (subst applyLogsLocked.simps)
      (auto simp: Let_def intro: keeps_trans [OF a 1(1)] keeps_trans [OF keeps_applyEntry 1(2)] split: sum.split)
qed

lemma keeps_commitIndex: "keeps E n (n\<lparr>commitIndex := c\<rparr>)"
  by (rule keepsI) (simp_all add: rpc_tasks_def)

lemma keeps_advanceLoop: "keeps E n (advanceLoop E nodes k n)"
  by (induction k) (auto intro: keeps_trans keeps_applyLogsLocked keeps_commitIndex split: sum.split)

lemma keeps_advanceCommitIndexLocked: "keeps E n (advanceCommitIndexLocked E nodes n)"
  by (auto simp: advanceCommitIndexLocked_def keeps_advanceLoop split: sum.split)

lemma keeps_commitTo: "keeps E n (commitTo E c i n)"
  by (auto simp: commitTo_def Let_def intro: keeps_trans keeps_applyLogsLocked keeps_commitIndex)

lemma keeps_flushPendingBatchLocked: "keeps E n (flushPendingBatchLocked E n)"
proof -
  have a: "keeps E n (n\<lparr>pendingBatch := []\<rparr>)" by (rule keepsI) (simp_all add: rpc_tasks_def)
  have b: "keeps E m (m\<lparr>spawned := spawned m @ [BroadcastTask]\<rparr>)" for m
    by (rule keepsI) (simp_all add: rpc_tasks_def)
  obtain r n1 where s: "nodeStoreLogs E (pendingBatch n) (n\<lparr>pendingBatch := []\<rparr>) = (r, n1)" by fastforce
  have "keeps E n n1" using a keeps_nodeStoreLogs [OF s] by (rule keeps_trans)
  then show ?thesis
    using s by (auto simp: flushPendingBatchLocked_def Let_def
        intro: keeps_trans [OF _ keeps_fold_notifyClient] keeps_trans [OF _ b] split: option.split)
qed

lemma keeps_Replicate: "Replicate E now nodes data n = (r, n') \<Longrightarrow> keeps E n n'"
proof -
  have k: "keeps E n (n\<lparr>pendingBatch := b, pendingClients := c, nextChan := k\<rparr>)" for b c k
    by (rule keepsI) (simp_all add: rpc_tasks_def)
  have f: "keeps E n (flushPendingBatchLocked E (n\<lparr>pendingBatch := b, pendingClients := c, nextChan := k\<rparr>))"
    for b c k by (rule keeps_trans [OF k keeps_flushPendingBatchLocked])
  have "keeps E n (snd (Replicate E now nodes data n))"
    by (simp add: Replicate_def Let_def k f split: sum.split prod.split)
  then show "Replicate E now nodes data n = (r, n') \<Longrightarrow> keeps E n n'" by simp
qed

lemma keeps_small_steps:
  "keeps E n (Replicate_giveUp i n)" "keeps E n (Stop n)"
  "keeps E n (adoptLeader now l n)" "keeps E n (installTo j t n)" "keeps E n (compactionEnd meta n)"
  by (auto simp: Replicate_giveUp_def Stop_def adoptLeader_def installTo_def
      compactionEnd_def rpc_tasks_def intro!: keepsI)

lemma keeps_batchTick: "keeps E n (batchTick E n)"
  by (simp add: batchTick_def keeps_flushPendingBatchLocked)

lemma keeps_compactionStep: "compactionStep E c n = (c', n') \<Longrightarrow> keeps E n n'"
  by (cases c) (auto simp: keeps_small_steps dest: keeps_nodeSaveSnapshot keeps_nodeDeleteRange
      split: sum.splits prod.splits option.splits)

lemma keeps_mergeEntries:
  assumes "mergeEntries E es n = (r, n')"
  shows "keeps E n n'"
proof -
  obtain start new where scan: "scan_entries (\<lambda>i. GetLog i (logStore n)) (lastIncludedIndex n) es = (start, new)"
    by fastforce
  obtain r1 n1 where cut: "(case start of None \<Rightarrow> (None, n) | Some i \<Rightarrow> nodeDeleteRange E i MaxUint64 n) = (r1, n1)"
    by fastforce
  have k: "keeps E n n1" using cut keeps_nodeDeleteRange by (auto split: option.splits)
  then show ?thesis
    using assms scan cut
    by (auto simp: mergeEntries_def intro: keeps_nodeStoreLogs keeps_trans [OF k keeps_nodeStoreLogs]
        split: option.splits if_splits)
qed

lemma keeps_replaceLog:
  assumes "replaceLog E req n = (r, n')"
  shows "keeps E n n'"
proof -
  obtain r1 n1 where s: "nodeSaveSnapshot E \<lparr>LastIncludedIndex = uint64 (is_LastIncludedIndex req),
      LastIncludedTerm = uint64 (is_LastIncludedTerm req)\<rparr> (is_Data req) n = (r1, n1)" by fastforce
  have k: "keeps E n n1" using s by (rule keeps_nodeSaveSnapshot)
  have del: "keeps E n n2" if "nodeDeleteRange E lo hi n1 = (r2, n2)" for lo hi r2 n2
    using k keeps_nodeDeleteRange [OF that] by (rule keeps_trans)
  have res: "keeps E n n3" if "nodeDeleteRange E lo hi n1 = (r2, n2)"
    "nodeRestoreSnapshot E data n2 = (r3, n3)" for lo hi r2 n2 data r3 n3
    using del [OF that(1)] keeps_nodeRestoreSnapshot [OF that(2)] by (rule keeps_trans)
  show ?thesis
    using assms s k unfolding replaceLog_def Let_def
    by (auto intro: del res split: option.split_asm if_split_asm sum.split_asm prod.split_asm)
qed

fun leader_task :: "'m raft_env \<Rightarrow> nat \<Rightarrow> task \<Rightarrow> bool" where
  "leader_task E t (AppendTask w) = (aw_term w = t)"
| "leader_task E t (SnapshotTask w) =
     (sw_term w = t \<and> is_Term (sw_req w) = int64 (int t) \<and> is_LeaderID (sw_req w) = self E)"
| "leader_task E t _ = False"

lemma broadcastWork_leader_task:
  "broadcastWork E i meta data n p = Some k \<Longrightarrow> leader_task E (currentTerm n) k"
  unfolding broadcastWork_def Let_def by (auto simp: snapshotRequest_def split: if_split_asm sum.split_asm)

lemma broadcastAppendEntries_tasks:
  obtains n1 ks where "keeps E n n1" "broadcastAppendEntries E nodes n = n1\<lparr>spawned := spawned n1 @ ks\<rparr>"
    "\<And>k. k \<in> set ks \<Longrightarrow> state n = Leader \<and> leader_task E (currentTerm n) k"
proof -
  obtain r n1 where ld: "nodeLoadSnapshot E n = (r, n1)" by fastforce
  have k: "keeps E n n1" using ld by (rule keeps_nodeLoadSnapshot)
  obtain i x where g: "getLastLogInfoLocked n = (i, x)" by fastforce
  show ?thesis
  proof (cases "state n = Leader \<and> (\<exists>ns. nodes = Inr ns) \<and> (\<exists>md. r = Inr md)")
    case True
    then obtain ns meta data where s: "state n = Leader" "nodes = Inr ns" "r = Inr (meta, data)" by auto
    let ?ks = "List.map_filter (broadcastWork E i meta data n1) (filter (\<lambda>p. node_ID p \<noteq> self E) ns)"
    have eq: "broadcastAppendEntries E nodes n = n1\<lparr>spawned := spawned n1
        @ filter is_AppendTask ?ks @ filter (\<lambda>t. \<not> is_AppendTask t) ?ks\<rparr>"
      using s by (simp add: broadcastAppendEntries_def ld g Let_def)
    have "leader_task E (currentTerm n) t" if "t \<in> set ?ks" for t
    proof -
      have "currentTerm n1 = currentTerm n" using k by (simp add: keeps_def)
      with that show ?thesis
        using broadcastWork_leader_task [of E i meta data n1] by (auto simp: List.map_filter_def)
    qed
    then show ?thesis using that [OF k eq] s(1) by auto
  next
    case False
    then have "broadcastAppendEntries E nodes n = n \<or> broadcastAppendEntries E nodes n = n1"
      by (auto simp: broadcastAppendEntries_def ld g split: sum.split)
    then show ?thesis using that [of n "[]"] that [of n1 "[]"] k by auto
  qed
qed

section \<open>Votes are never taken back\<close>

text \<open>
  A vote is a pair of a term and a candidate.  \<open>votes_kept E G n\<close>: the node, and every state a
  restart of it can read from its disk, is past the term of each vote in \<open>G\<close>, or is in that term
  and still votes for the same candidate.
\<close>

definition later :: "nat \<times> string \<Rightarrow> nat \<times> string \<Rightarrow> bool" where
  "later g v \<longleftrightarrow> fst g < fst v \<or> g = v"

definition votes_kept :: "'m raft_env \<Rightarrow> (nat \<times> string) set \<Rightarrow> 'm node \<Rightarrow> bool" where
  "votes_kept E G n \<longleftrightarrow> wf_fs (disk n)
     \<and> (\<forall>g\<in>G. later g (currentTerm n, votedFor n) \<and> (\<forall>v. Inr v \<in> views E n \<longrightarrow> later g v))"

lemma votes_kept_keeps: "keeps E n n' \<Longrightarrow> votes_kept E G n \<Longrightarrow> votes_kept E G n'"
  by (auto simp: votes_kept_def keeps_def disk_ok_def)

lemma votes_kept_mono: "votes_kept E G n \<Longrightarrow> H \<subseteq> G \<Longrightarrow> votes_kept E H n"
  by (auto simp: votes_kept_def)

text \<open>
  Changing the vote state and then persisting it, whether or not the write succeeds.
\<close>

lemma persistStableLocked_frame:
  assumes "persistStableLocked E n = (r, n')"
  shows "currentTerm n' = currentTerm n" "votedFor n' = votedFor n" "state n' = state n"
    "votesReceived n' = votesReceived n" "spawned n' = spawned n" "logStore n' = logStore n"
    "lastIncludedIndex n' = lastIncludedIndex n" "lastIncludedTerm n' = lastIncludedTerm n"
  using assms by (auto simp: persistStableLocked_def split: prod.splits)

lemma persistStableLocked_views:
  assumes "persistStableLocked E n = (r, n')" and "wf_fs (disk n)"
  shows "wf_fs (disk n')" "views E n' \<subseteq> insert (Inr (currentTerm n, votedFor n)) (views E n)"
    "r = None \<Longrightarrow> views E n' = {Inr (currentTerm n, votedFor n)}"
proof -
  obtain r0 d where d: "SetState (crc32 E) (stablePath E) (currentTerm n) (votedFor n) (disk n) = (r0, d)"
    by fastforce
  then have n': "n' = n\<lparr>disk := d\<rparr>" "r = map_option (Wrap ''stable store write failed'') r0"
    using assms(1) by (simp_all add: persistStableLocked_def)
  show "wf_fs (disk n')" "views E n' \<subseteq> insert (Inr (currentTerm n, votedFor n)) (views E n)"
    "r = None \<Longrightarrow> views E n' = {Inr (currentTerm n, votedFor n)}"
    using SetState_atomic [OF assms(2) d] SetState_views [OF assms(2) d] n' by (auto simp: views_def)
qed

lemma votes_kept_persist:
  assumes run: "persistStableLocked E n1 = (r, n')"
    and pre: "votes_kept E G n" and disk: "disk n1 = disk n"
    and new: "\<And>g. g \<in> G \<Longrightarrow> later g (currentTerm n1, votedFor n1)"
  shows "votes_kept E G n'"
    and "r = None \<Longrightarrow> votes_kept E (insert (currentTerm n1, votedFor n1) G) n'"
proof -
  have wf: "wf_fs (disk n1)" using pre disk by (simp add: votes_kept_def)
  have v: "views E n1 = views E n" using disk by (simp add: views_def)
  note f = persistStableLocked_frame [OF run] and w = persistStableLocked_views [OF run wf]
  show "votes_kept E G n'"
    using pre new w(1,2) by (auto simp: votes_kept_def f v)
  show "votes_kept E (insert (currentTerm n1, votedFor n1) G) n'" if "r = None"
    using pre new w(1) w(3) [OF that] by (auto simp: votes_kept_def f later_def)
qed

lemma handleStableStoreFailureLocked_keeps:
  "keeps E n (snd (handleStableStoreFailureLocked now e n))"
proof -
  have "keeps E n (n\<lparr>state := Follower, electionResetEvent := now\<rparr>)"
    by (rule keepsI) (simp_all add: rpc_tasks_def)
  then show ?thesis
    by (auto simp: handleStableStoreFailureLocked_def intro: keeps_trans [OF _ keeps_failAllPendingLocked])
qed

lemma handleStableStoreFailureLocked_sel [simp]:
  "fst (handleStableStoreFailureLocked now e n) = Some e"
  "state (snd (handleStableStoreFailureLocked now e n)) = Follower"
  "currentTerm (snd (handleStableStoreFailureLocked now e n)) = currentTerm n"
  "votedFor (snd (handleStableStoreFailureLocked now e n)) = votedFor n"
  by (simp_all add: handleStableStoreFailureLocked_def failAllPendingLocked_def)

lemma failAllPendingLocked_sel [simp]:
  "disk (failAllPendingLocked e n) = disk n" "state (failAllPendingLocked e n) = state n"
  "currentTerm (failAllPendingLocked e n) = currentTerm n" "votedFor (failAllPendingLocked e n) = votedFor n"
  "votesReceived (failAllPendingLocked e n) = votesReceived n" "spawned (failAllPendingLocked e n) = spawned n"
  "logStore (failAllPendingLocked e n) = logStore n" "machine (failAllPendingLocked e n) = machine n"
  "commitIndex (failAllPendingLocked e n) = commitIndex n" "lastApplied (failAllPendingLocked e n) = lastApplied n"
  "lastIncludedIndex (failAllPendingLocked e n) = lastIncludedIndex n"
  "lastIncludedTerm (failAllPendingLocked e n) = lastIncludedTerm n"
  by (simp_all add: failAllPendingLocked_def)

definition stepped_down :: "'m raft_env \<Rightarrow> nat \<Rightarrow> 'm node \<Rightarrow> 'm node \<Rightarrow> bool" where
  "stepped_down E t n n' \<longleftrightarrow> state n' = Follower \<and> currentTerm n' = t \<and> votedFor n' = []
     \<and> votesReceived n' = votesReceived n \<and> rpc_tasks n' = rpc_tasks n
     \<and> (wf_fs (disk n) \<longrightarrow> views E n' \<subseteq> insert (Inr (t, [])) (views E n))
     \<and> (\<forall>G. votes_kept E G n \<and> currentTerm n < t \<longrightarrow> votes_kept E G n')"

lemma stepDownLocked_stepped:
  assumes "stepDownLocked E now t leader n = (r, n')"
  shows "stepped_down E t n n'"
proof -
  define n3 where "n3 = (failAllPendingLocked (Errorf ''leadership changed during replication'')
      (n\<lparr>state := Follower, currentTerm := t, votedFor := [],
         leaderID := (if leader \<noteq> [] then leader else leaderID n)\<rparr>))\<lparr>electionResetEvent := now\<rparr>"
  obtain r4 n4 where p: "persistStableLocked E n3 = (r4, n4)" by fastforce
  note f = persistStableLocked_frame [OF p]
  have n': "n' = n4 \<or> (\<exists>e. n' = snd (handleStableStoreFailureLocked now e n4))"
    using assms p unfolding stepDownLocked_def n3_def Let_def by (cases r4) (auto, metis snd_conv)
  have k: "keeps E n4 n'" using n' handleStableStoreFailureLocked_keeps by auto
  have g: "votes_kept E G n'" if "votes_kept E G n" "currentTerm n < t" for G
  proof -
    have "later g (currentTerm n3, votedFor n3)" if "g \<in> G" for g
      using that \<open>votes_kept E G n\<close> \<open>currentTerm n < t\<close>
      by (auto simp: n3_def votes_kept_def later_def)
    with votes_kept_persist(1) [OF p that(1)] have "votes_kept E G n4" by (simp add: n3_def)
    with k show ?thesis by (rule votes_kept_keeps)
  qed
  have "state n4 = Follower" using f by (simp add: n3_def)
  then have "state n' = Follower" using n' by auto
  moreover have "views E n' \<subseteq> insert (Inr (t, [])) (views E n)" if "wf_fs (disk n)"
  proof -
    have wf: "wf_fs (disk n3)" and v: "views E n3 = views E n" using that by (simp_all add: n3_def views_def)
    have "views E n4 \<subseteq> insert (Inr (t, [])) (views E n)"
      using persistStableLocked_views(2) [OF p wf] by (simp add: v) (simp add: n3_def)
    moreover have "views E n' \<subseteq> views E n4"
      using k persistStableLocked_views(1) [OF p wf] by (simp add: keeps_def disk_ok_def)
    ultimately show ?thesis by blast
  qed
  ultimately show ?thesis
    using k g f by (simp add: stepped_down_def keeps_def n3_def rpc_tasks_def)
qed

text \<open>Becoming leader and starting an election.\<close>

lemma becomeLeaderLocked_keeps: "keeps E (n\<lparr>state := Leader\<rparr>) (becomeLeaderLocked E nodes n)"
proof -
  obtain lastIdx t where "getLastLogInfoLocked (n\<lparr>state := Leader, leaderID := self E\<rparr>) = (lastIdx, t)"
    by fastforce
  moreover have a: "keeps E (n\<lparr>state := Leader\<rparr>)
      (n\<lparr>state := Leader, leaderID := self E, nextIndex := x, matchIndex := y\<rparr>)"
    "keeps E (n\<lparr>state := Leader\<rparr>)
      (n\<lparr>state := Leader, leaderID := self E, nextIndex := x, matchIndex := y,
         spawned := spawned n @ [BroadcastTask]\<rparr>)" for x y
    by (rule keepsI; simp add: rpc_tasks_def)+
  moreover have b: "keeps E m (m\<lparr>spawned := spawned m @ [BroadcastTask]\<rparr>)" for m :: "'a node"
    by (rule keepsI) (simp_all add: rpc_tasks_def)
  ultimately show ?thesis
    unfolding becomeLeaderLocked_def Let_def
    by (simp add: keeps_trans [OF keeps_trans [OF a(1) keeps_flushPendingBatchLocked] b])
qed

text \<open>
  \<open>voted E t c n n'\<close>: the node has entered the vote \<open>(t, c)\<close>, possibly without having been able
  to make it durable; \<open>voted_durably\<close>: it is durable.
\<close>

definition voted :: "'m raft_env \<Rightarrow> nat \<Rightarrow> string \<Rightarrow> 'm node \<Rightarrow> 'm node \<Rightarrow> bool" where
  "voted E t c n n' \<longleftrightarrow> currentTerm n' = t \<and> votedFor n' = c
     \<and> (wf_fs (disk n) \<longrightarrow> wf_fs (disk n') \<and> views E n' \<subseteq> insert (Inr (t, c)) (views E n))
     \<and> (\<forall>G. votes_kept E G n \<and> (\<forall>g\<in>G. later g (t, c)) \<longrightarrow> votes_kept E G n')"

definition voted_durably :: "'m raft_env \<Rightarrow> nat \<Rightarrow> string \<Rightarrow> 'm node \<Rightarrow> 'm node \<Rightarrow> bool" where
  "voted_durably E t c n n' \<longleftrightarrow> currentTerm n' = t \<and> votedFor n' = c
     \<and> (wf_fs (disk n) \<longrightarrow> wf_fs (disk n') \<and> views E n' = {Inr (t, c)})
     \<and> (\<forall>G. votes_kept E G n \<and> (\<forall>g\<in>G. later g (t, c)) \<longrightarrow> votes_kept E (insert (t, c) G) n')"

lemma voted_durably_voted: "voted_durably E t c n n' \<Longrightarrow> voted E t c n n'"
  unfolding voted_durably_def voted_def
  by (elim conjE) (intro conjI allI impI; auto intro: votes_kept_mono)

lemma voted_keeps:
  assumes "voted E t c n n1" "keeps E n1 n'"
  shows "voted E t c n n'"
proof -
  have "votes_kept E G n'" if "votes_kept E G n" "\<forall>g\<in>G. later g (t, c)" for G
    using assms(1) that votes_kept_keeps [OF assms(2)] unfolding voted_def by blast
  moreover have "wf_fs (disk n) \<Longrightarrow> wf_fs (disk n') \<and> views E n' \<subseteq> insert (Inr (t, c)) (views E n)"
    using assms unfolding voted_def keeps_def disk_ok_def by blast
  moreover have "currentTerm n' = t" "votedFor n' = c" using assms by (simp_all add: voted_def keeps_def)
  ultimately show ?thesis unfolding voted_def by blast
qed

lemma views_nonempty: "wf_fs (disk n) \<Longrightarrow> views E n \<noteq> {}"
  by (auto simp: views_def stable_views_def wf_fs_def)

lemma voted_durably_keeps:
  assumes "voted_durably E t c n n1" "keeps E n1 n'"
  shows "voted_durably E t c n n'"
proof -
  have "votes_kept E (insert (t, c) G) n'" if "votes_kept E G n" "\<forall>g\<in>G. later g (t, c)" for G
    using assms(1) that votes_kept_keeps [OF assms(2)] unfolding voted_durably_def by blast
  moreover have "currentTerm n' = t" "votedFor n' = c" using assms by (simp_all add: voted_durably_def keeps_def)
  moreover have "wf_fs (disk n') \<and> views E n' = {Inr (t, c)}" if "wf_fs (disk n)"
  proof -
    have "wf_fs (disk n1)" "views E n1 = {Inr (t, c)}" using assms(1) that by (auto simp: voted_durably_def)
    with assms(2) have "wf_fs (disk n')" "views E n' \<subseteq> {Inr (t, c)}" by (auto simp: keeps_def disk_ok_def)
    with views_nonempty [of n' E] show ?thesis by blast
  qed
  ultimately show ?thesis unfolding voted_durably_def by blast
qed

lemma voted_durably_cong:
  assumes "voted_durably E t c n n1" "disk n' = disk n1" "currentTerm n' = currentTerm n1" "votedFor n' = votedFor n1"
  shows "voted_durably E t c n n'"
proof -
  have "votes_kept E G n' = votes_kept E G n1" for G
    using assms(2-4) by (simp add: votes_kept_def views_def)
  moreover have "views E n' = views E n1" using assms(2) by (simp add: views_def)
  ultimately show ?thesis using assms by (simp add: voted_durably_def)
qed

lemma persist_voted:
  assumes "persistStableLocked E n1 = (r, n')" "disk n1 = disk n"
  shows "voted E (currentTerm n1) (votedFor n1) n n'"
    and "r = None \<Longrightarrow> voted_durably E (currentTerm n1) (votedFor n1) n n'"
proof -
  have v: "views E n1 = views E n" using assms(2) by (simp add: views_def)
  show "voted E (currentTerm n1) (votedFor n1) n n'"
    "r = None \<Longrightarrow> voted_durably E (currentTerm n1) (votedFor n1) n n'"
    using votes_kept_persist [OF assms(1) _ assms(2)] persistStableLocked_frame(1,2) [OF assms(1)]
      persistStableLocked_views [OF assms(1), unfolded assms(2) v]
    by (auto simp: voted_def voted_durably_def)
qed

lemma getLastLogInfoLocked_cong:
  "logStore m = logStore n \<Longrightarrow> lastIncludedIndex m = lastIncludedIndex n \<Longrightarrow>
   lastIncludedTerm m = lastIncludedTerm n \<Longrightarrow> getLastLogInfoLocked m = getLastLogInfoLocked n"
  by (simp add: getLastLogInfoLocked_def split: sum.split prod.split)

definition voteTask :: "'m raft_env \<Rightarrow> nat \<Rightarrow> nat \<times> nat \<Rightarrow> nat \<Rightarrow> Node list \<Rightarrow> Node \<Rightarrow> task" where
  "voteTask E t li c ns p =
     VoteTask \<lparr>vw_peer = p,
               vw_args = \<lparr>rv_Term = int64 (int t), rv_CandidateID = self E,
                          rv_LastLogIndex = int64 (int (fst li)), rv_LastLogTerm = int64 (int (snd li))\<rparr>,
               vw_savedTerm = t, vw_counter = c, vw_quorum = length ns div 2 + 1, vw_nodes = ns\<rparr>"

lemma startElectionLocked_cases:
  fixes n :: "'m node"
  defines "t \<equiv> inc64 (currentTerm n)"
  assumes run: "startElectionLocked E now nodes n = n'"
  obtains (failed) "voted E t (self E) n n'" "state n' = Follower"
      "votesReceived n' = votesReceived n" "rpc_tasks n' = rpc_tasks n"
  | (no_nodes) "voted_durably E t (self E) n n'" "state n' = Candidate"
      "votesReceived n' = votesReceived n" "rpc_tasks n' = rpc_tasks n"
  | (single) ns where "nodes = Inr ns" "length ns = 1" "voted_durably E t (self E) n n'"
      "votesReceived n' = votesReceived n" "rpc_tasks n' = rpc_tasks n"
  | (voting) ns where "nodes = Inr ns" "length ns \<noteq> 1" "voted_durably E t (self E) n n'"
      "state n' = Candidate" "votesReceived n' = votesReceived n @ [1]"
      "rpc_tasks n' = rpc_tasks n @ map (voteTask E t (getLastLogInfoLocked n') (length (votesReceived n)) ns)
         (filter (\<lambda>p. node_ID p \<noteq> self E) ns)"
proof -
  define n1 where "n1 = n\<lparr>state := Candidate, currentTerm := t, votedFor := self E, electionResetEvent := now\<rparr>"
  obtain r n2 where p: "persistStableLocked E n1 = (r, n2)" by fastforce
  note f = persistStableLocked_frame [OF p] and p' = p [unfolded n1_def t_def]
  obtain li lt where gl: "getLastLogInfoLocked n2 = (li, lt)" by fastforce
  have v: "voted E t (self E) n n2" "r = None \<Longrightarrow> voted_durably E t (self E) n n2"
    using persist_voted [OF p, of n] by (simp_all add: n1_def)
  have f2: "state n2 = Candidate" "currentTerm n2 = t" "votesReceived n2 = votesReceived n"
    "rpc_tasks n2 = rpc_tasks n"
    using f by (simp_all add: n1_def rpc_tasks_def)
  consider e where "r = Some e" | e where "r = None" "nodes = Inl e"
    | ns where "r = None" "nodes = Inr ns" "length ns = 1"
    | ns where "r = None" "nodes = Inr ns" "length ns \<noteq> 1" by (cases r; cases nodes) auto
  then show ?thesis
  proof cases
    case 1
    then have n': "n' = snd (handleStableStoreFailureLocked now e n2)"
      using run unfolding startElectionLocked_def Let_def by (simp add: p')
    have k: "keeps E n2 n'" unfolding n' by (rule handleStableStoreFailureLocked_keeps)
    show ?thesis
      using failed [OF voted_keeps [OF v(1) k]] k f2 n' by (simp add: keeps_def)
  next
    case 2
    then have "n' = n2" using run unfolding startElectionLocked_def Let_def by (simp add: p')
    then show ?thesis using no_nodes v(2) 2 f2 by simp
  next
    case 3
    have "n' = becomeLeaderLocked E ns n2"
      using 3 run unfolding startElectionLocked_def Let_def by (simp add: p' gl)
    have "keeps E (n2\<lparr>state := Leader\<rparr>) (becomeLeaderLocked E ns n2)" by (rule becomeLeaderLocked_keeps)
    then have k: "keeps E (n2\<lparr>state := Leader\<rparr>) n'" by (simp only: \<open>n' = becomeLeaderLocked E ns n2\<close>)
    have "voted_durably E t (self E) n (n2\<lparr>state := Leader\<rparr>)"
      by (rule voted_durably_cong [OF v(2) [OF 3(1)]]) simp_all
    from voted_durably_keeps [OF this k] show ?thesis
      using single [OF 3(2,3)] k f2 by (simp add: keeps_def rpc_tasks_def)
  next
    case 4
    let ?g = "getLastLogInfoLocked n2"
    have n': "n' = n2\<lparr>votesReceived := votesReceived n2 @ [1], spawned := spawned n2 @
        map (voteTask E t ?g (length (votesReceived n2)) ns) (filter (\<lambda>p. node_ID p \<noteq> self E) ns)\<rparr>"
      using run 4 f2(2) unfolding startElectionLocked_def Let_def by (simp add: p' gl voteTask_def [abs_def])
    then have "getLastLogInfoLocked n' = ?g" by (intro getLastLogInfoLocked_cong) simp_all
    moreover have "voted_durably E t (self E) n n'"
      by (rule voted_durably_cong [OF v(2) [OF 4(1)]]) (simp_all add: n')
    moreover have "filter is_rpc (map (voteTask E t ?g c ns) xs) = map (voteTask E t ?g c ns) xs" for c xs
      by (simp add: filter_map comp_def voteTask_def [abs_def])
    ultimately show ?thesis
      using voting [OF 4(2,3)] f2 n' by (simp add: rpc_tasks_def)
  qed
qed

definition upToDate :: "RequestVoteArgs \<Rightarrow> 'm node \<Rightarrow> bool" where
  "upToDate req n \<longleftrightarrow> (case getLastLogInfoLocked n of (lastIdx, lastTerm) \<Rightarrow>
     rv_LastLogTerm req > int64 (int lastTerm)
     \<or> rv_LastLogTerm req = int64 (int lastTerm) \<and> rv_LastLogIndex req \<ge> int64 (int lastIdx))"

lemma persistStableLocked_disk: "persistStableLocked E n = (r, n') \<Longrightarrow> \<exists>d. n' = n\<lparr>disk := d\<rparr>"
  by (auto simp: persistStableLocked_def split: prod.splits)

lemma stepDownLocked_frame:
  assumes "stepDownLocked E now t l n = (r, n')"
  shows "logStore n' = logStore n \<and> lastIncludedIndex n' = lastIncludedIndex n
    \<and> lastIncludedTerm n' = lastIncludedTerm n \<and> commitIndex n' = commitIndex n
    \<and> lastApplied n' = lastApplied n \<and> machine n' = machine n"
proof -
  define n3 where "n3 = (failAllPendingLocked (Errorf ''leadership changed during replication'')
      (n\<lparr>state := Follower, currentTerm := t, votedFor := [],
         leaderID := (if l \<noteq> [] then l else leaderID n)\<rparr>))\<lparr>electionResetEvent := now\<rparr>"
  obtain r4 n4 where p: "persistStableLocked E n3 = (r4, n4)" by fastforce
  obtain d where d: "n4 = n3\<lparr>disk := d\<rparr>" using persistStableLocked_disk [OF p] by blast
  have "n' = n4 \<or> (\<exists>e. n' = snd (handleStableStoreFailureLocked now e n4))"
    using assms p [unfolded n3_def] unfolding stepDownLocked_def Let_def
    by (cases r4) (simp, metis case_prod_conv option.simps(5) snd_conv)
  then show ?thesis
    by (elim disjE exE) (simp_all add: d n3_def handleStableStoreFailureLocked_def)
qed

lemma HandleRequestVote_cases:
  fixes n :: "'m node"
  assumes run: "HandleRequestVote E now req n = (reply, err, n')"
  obtains (stale) "rv_Term req < int64 (int (currentTerm n))" "n' = n" "\<not> rvr_VoteGranted reply"
  | (current) n1 where "n1 = n \<and> rv_Term req = int64 (int (currentTerm n))
        \<or> rv_Term req > int64 (int (currentTerm n)) \<and> stepped_down E (uint64 (rv_Term req)) n n1"
      "n' = n1 \<and> \<not> rvr_VoteGranted reply
       \<or> (votedFor n1 = [] \<or> votedFor n1 = rv_CandidateID req) \<and> upToDate req n
         \<and> votesReceived n' = votesReceived n1 \<and> rpc_tasks n' = rpc_tasks n1
         \<and> (state n' = state n1 \<or> state n' = Follower)
         \<and> (if rvr_VoteGranted reply
            then voted_durably E (currentTerm n1) (rv_CandidateID req) n1 n' \<and> err = None
            else voted E (currentTerm n1) (rv_CandidateID req) n1 n' \<and> err \<noteq> None)"
proof (cases "rv_Term req < int64 (int (currentTerm n))")
  case True
  then have "n' = n \<and> \<not> rvr_VoteGranted reply"
    using run unfolding HandleRequestVote_def Let_def by auto
  with True show ?thesis using stale by blast
next
  case False
  obtain e1 n1 where s: "(if rv_Term req > int64 (int (currentTerm n))
      then stepDownLocked E now (uint64 (rv_Term req)) [] n else (None, n)) = (e1, n1)" by fastforce
  have n1: "n1 = n \<and> rv_Term req = int64 (int (currentTerm n))
      \<or> rv_Term req > int64 (int (currentTerm n)) \<and> stepped_down E (uint64 (rv_Term req)) n n1"
    using s False stepDownLocked_stepped [of E now "uint64 (rv_Term req)" "[]" n e1 n1]
    by (auto split: if_splits)
  have g: "getLastLogInfoLocked n1 = getLastLogInfoLocked n"
    using s by (auto split: if_splits dest!: stepDownLocked_frame intro: getLastLogInfoLocked_cong)
  obtain li lt where gl: "getLastLogInfoLocked n = (li, lt)" by fastforce
  obtain e2 n2 where p: "persistStableLocked E (n1\<lparr>votedFor := rv_CandidateID req\<rparr>) = (e2, n2)" by fastforce
  note f = persistStableLocked_frame [OF p] and pv = persist_voted [OF p, of n1]
  consider "e1 \<noteq> None \<or> \<not> ((votedFor n1 = [] \<or> votedFor n1 = rv_CandidateID req) \<and> upToDate req n)"
    | "e1 = None" "votedFor n1 = [] \<or> votedFor n1 = rv_CandidateID req" "upToDate req n" by blast
  then show ?thesis
  proof cases
    case 1
    then have "n' = n1 \<and> \<not> rvr_VoteGranted reply"
      using run False gl unfolding HandleRequestVote_def Let_def s
      by (cases e1) (auto simp: upToDate_def g)
    then show ?thesis using current n1 by blast
  next
    case 2
    then have r: "case e2 of Some e \<Rightarrow> \<not> rvr_VoteGranted reply \<and> err = Some e
          \<and> n' = snd (handleStableStoreFailureLocked now e n2)
        | None \<Rightarrow> rvr_VoteGranted reply \<and> err = None \<and> n' = n2\<lparr>electionResetEvent := now\<rparr>"
      using run False gl unfolding HandleRequestVote_def Let_def s
      by (cases e2) (auto simp: upToDate_def g p)
    show ?thesis
    proof (cases e2)
      case None
      with r pv(2) have v: "voted_durably E (currentTerm n1) (rv_CandidateID req) n1 n2" by simp
      have k: "keeps E n2 n'" using r None by (auto intro!: keepsI simp: rpc_tasks_def)
      show ?thesis
        using 2 k r None f voted_durably_keeps [OF v k]
        by (intro current [OF n1] disjI2) (auto simp: keeps_def rpc_tasks_def)
    next
      case (Some e)
      with pv(1) have v: "voted E (currentTerm n1) (rv_CandidateID req) n1 n2" by simp
      have k: "keeps E n2 n'" using r Some handleStableStoreFailureLocked_keeps by auto
      show ?thesis
        using 2 k r Some f voted_keeps [OF v k]
        by (intro current [OF n1] disjI2) (auto simp: keeps_def rpc_tasks_def)
    qed
  qed
qed

text \<open>Following a leader's message: nothing, or its term is adopted and the vote state is kept.\<close>

definition follows :: "'m raft_env \<Rightarrow> int \<Rightarrow> 'm node \<Rightarrow> 'm node \<Rightarrow> bool" where
  "follows E t n n' \<longleftrightarrow> keeps E n n'
     \<or> (t > int64 (int (currentTerm n)) \<and> (\<exists>n1. stepped_down E (uint64 t) n n1 \<and> keeps E n1 n'))"

lemma followsI:
  assumes "(if t > int64 (int (currentTerm n)) then stepDownLocked E now (uint64 t) l n else (None, n)) = (e, n1)"
    and "keeps E n1 n'"
  shows "follows E t n n'"
  using assms by (auto simp: follows_def dest: stepDownLocked_stepped split: if_splits)

lemma HandleAppendEntries_follows:
  assumes "HandleAppendEntries E now req n = (reply, err, n')"
  shows "follows E (ae_Term req) n n'"
proof -
  obtain e1 n1 where s: "(if ae_Term req > int64 (int (currentTerm n))
      then stepDownLocked E now (uint64 (ae_Term req)) (ae_LeaderID req) n else (None, n)) = (e1, n1)"
    by fastforce
  let ?n2 = "adoptLeader now (ae_LeaderID req) n1"
  have a: "keeps E n1 ?n2" by (simp add: keeps_small_steps)
  have b: "keeps E n1 n3" if "mergeEntries E es ?n2 = (r, n3)" for es r n3
    using a keeps_mergeEntries [OF that] by (rule keeps_trans)
  have c: "keeps E n1 (commitTo E x y n3)" if "mergeEntries E es ?n2 = (r, n3)" for es r n3 x y
    using b [OF that] keeps_commitTo by (rule keeps_trans)
  have "n' = n \<or> keeps E n1 n'"
  proof (cases "ae_Term req < int64 (int (currentTerm n))")
    case True
    then show ?thesis using assms unfolding HandleAppendEntries_def Let_def by simp
  next
    case False
    then show ?thesis
      using assms a unfolding HandleAppendEntries_def Let_def s
      by (cases e1) (auto intro: b c split: option.split_asm if_split_asm sum.split_asm prod.split_asm)
  qed
  then show ?thesis using followsI [OF s] by (auto simp: follows_def)
qed

lemma HandleInstallSnapshot_follows:
  assumes "HandleInstallSnapshot E now req n = (reply, err, n')"
  shows "follows E (is_Term req) n n'"
proof -
  obtain e1 n1 where s: "(if is_Term req > int64 (int (currentTerm n))
      then stepDownLocked E now (uint64 (is_Term req)) (is_LeaderID req) n else (None, n)) = (e1, n1)"
    by fastforce
  let ?n2 = "adoptLeader now (is_LeaderID req) n1"
  have a: "keeps E n1 ?n2" by (simp add: keeps_small_steps)
  have b: "keeps E n1 n3" if "replaceLog E req ?n2 = (r, n3)" for r n3
    using a keeps_replaceLog [OF that] by (rule keeps_trans)
  have c: "keeps E n1 (installTo x y n3)" if "replaceLog E req ?n2 = (r, n3)" for r n3 x y
    using b [OF that] keeps_small_steps(4) by (rule keeps_trans)
  have "n' = n \<or> keeps E n1 n'"
  proof (cases "is_Term req < int64 (int (currentTerm n))")
    case True
    then show ?thesis using assms unfolding HandleInstallSnapshot_def Let_def by simp
  next
    case False
    then show ?thesis
      using assms a unfolding HandleInstallSnapshot_def Let_def s
      by (cases e1) (auto intro: b c split: option.split_asm if_split_asm bool.split_asm prod.split_asm)
  qed
  then show ?thesis using followsI [OF s] by (auto simp: follows_def)
qed

text \<open>The replies the node gets to its own requests.\<close>

lemma handleAppendReply_follows: "follows E (aer_Term reply) n (handleAppendReply E now nodes w reply n)"
proof -
  obtain r n1 where s: "stepDownLocked E now (uint64 (aer_Term reply)) [] n = (r, n1)" by fastforce
  have a: "keeps E n (n\<lparr>matchIndex := x, nextIndex := y\<rparr>)" "keeps E n (n\<lparr>nextIndex := y\<rparr>)" for x y
    by (rule keepsI; simp add: rpc_tasks_def)+
  have b: "keeps E n (advanceCommitIndexLocked E nodes (n\<lparr>matchIndex := x, nextIndex := y\<rparr>))" for x y
    using a(1) keeps_advanceCommitIndexLocked by (rule keeps_trans)
  show ?thesis
    using stepDownLocked_stepped [OF s] a b
    by (auto simp: handleAppendReply_def follows_def Let_def s)
qed

lemma handleSnapshotReply_follows: "follows E (isr_Term reply) n (handleSnapshotReply E now w reply n)"
proof -
  obtain r n1 where s: "stepDownLocked E now (uint64 (isr_Term reply)) [] n = (r, n1)" by fastforce
  have "keeps E n (n\<lparr>matchIndex := x, nextIndex := y\<rparr>)" for x y
    by (rule keepsI) (simp_all add: rpc_tasks_def)
  then show ?thesis
    using stepDownLocked_stepped [OF s]
    by (auto simp: handleSnapshotReply_def follows_def Let_def s)
qed

lemma handleVoteReply_cases:
  fixes n :: "'m node"
  defines "votes \<equiv> \<lambda>n w. votesReceived n ! vw_counter w + 1"
  assumes "handleVoteReply E now w reply n = n'"
  obtains (follows) "follows E (rvr_Term reply) n n'"
  | (counted) "state n = Candidate" "currentTerm n = vw_savedTerm w" "rvr_VoteGranted reply"
      "votes n w < vw_quorum w" "n' = n\<lparr>votesReceived := (votesReceived n)[vw_counter w := votes n w]\<rparr>"
  | (won) "state n = Candidate" "currentTerm n = vw_savedTerm w" "rvr_VoteGranted reply"
      "votes n w \<ge> vw_quorum w"
      "keeps E (n\<lparr>votesReceived := (votesReceived n)[vw_counter w := votes n w], state := Leader\<rparr>) n'"
proof -
  obtain r n1 where s: "stepDownLocked E now (uint64 (rvr_Term reply)) [] n = (r, n1)" by fastforce
  consider "state n \<noteq> Candidate \<or> currentTerm n \<noteq> vw_savedTerm w \<or> rvr_Term reply > int64 (int (currentTerm n))
      \<or> \<not> rvr_VoteGranted reply"
    | "state n = Candidate" "currentTerm n = vw_savedTerm w" "\<not> rvr_Term reply > int64 (int (currentTerm n))"
      "rvr_VoteGranted reply" by blast
  then show ?thesis
  proof cases
    case 1
    then have "follows E (rvr_Term reply) n n'"
      using assms(2) stepDownLocked_stepped [OF s]
      by (auto simp: handleVoteReply_def follows_def s split: if_splits)
    then show ?thesis by (rule follows)
  next
    case 2
    let ?m = "n\<lparr>votesReceived := (votesReceived n)[vw_counter w := votes n w]\<rparr>"
    have n': "n' = (if votes n w \<ge> vw_quorum w then becomeLeaderLocked E (vw_nodes w) ?m else ?m)"
      using 2 by (simp add: assms(2) [symmetric] handleVoteReply_def votes_def Let_def)
    show ?thesis
      using n' counted [OF 2(1,2,4)] won [OF 2(1,2,4)] becomeLeaderLocked_keeps [of E ?m "vw_nodes w"]
      by (cases "votes n w \<ge> vw_quorum w") auto
  qed
qed

end
