(* ===== verification/RaftNet.thy ===== *)
theory RaftNet
  imports RaftProps
begin

text \<open>
  A cluster of Raft nodes: processes that run, crash (losing everything but what their disk may
  hold) and restart, and a network that may delay, drop, duplicate and reorder requests and
  replies.  Every node step is one of the functions of \<open>DurableRaft\<close>; every disk operation in it
  may fail or be cut off by a crash.  The membership (\<^verbatim>\<open>GetAllNodes\<close>) is fixed, although a
  particular call may fail.  The main result is election safety.
\<close>

section \<open>The network\<close>

datatype rpc =
    VoteRpc RequestVoteArgs
  | AppendRpc AppendEntriesRequest
  | SnapshotRpc InstallSnapshotRequest

datatype rpc_reply =
    VoteRep RequestVoteReply
  | AppendRep AppendEntriesReply
  | SnapshotRep InstallSnapshotReply

datatype 'm process = Up "'m node" | Down fs 'm

record 'm net =
  procs :: "string \<Rightarrow> 'm process"
  requests :: "(string \<times> rpc) set"
  replies :: "(string \<times> rpc \<times> rpc_reply) set"

text \<open>The request a goroutine sends, with its destination.\<close>

fun task_rpc :: "'m raft_env \<Rightarrow> task \<Rightarrow> (string \<times> rpc) option" where
  "task_rpc E (VoteTask w) = Some (node_ID (vw_peer w), VoteRpc (vw_args w))"
| "task_rpc E (AppendTask w) = Some (node_ID (aw_node w), AppendRpc (appendRequest E w))"
| "task_rpc E (SnapshotTask w) = Some (node_ID (sw_node w), SnapshotRpc (sw_req w))"
| "task_rpc E BroadcastTask = None"
| "task_rpc E (CompactTask _) = None"

text \<open>
  The server's side of a request (\<^verbatim>\<open>HandleConsensus...\<close> of \<^verbatim>\<open>orchestrators/consensus_handler.go\<close>): a
  handler that returns an error sends no reply.
\<close>

definition serve :: "'m raft_env \<Rightarrow> int \<Rightarrow> rpc \<Rightarrow> 'm node \<Rightarrow> rpc_reply option \<times> 'm node" where
  "serve E now q n =
     (case q of
        VoteRpc a \<Rightarrow> (let (r, e, n') = HandleRequestVote E now a n in (if e = None then Some (VoteRep r) else None, n'))
      | AppendRpc a \<Rightarrow> (let (r, e, n') = HandleAppendEntries E now a n in (if e = None then Some (AppendRep r) else None, n'))
      | SnapshotRpc a \<Rightarrow> (let (r, e, n') = HandleInstallSnapshot E now a n in (if e = None then Some (SnapshotRep r) else None, n')))"

definition drop_task :: "task \<Rightarrow> 'm node \<Rightarrow> 'm node" where
  "drop_task k n = n\<lparr>spawned := remove1 k (spawned n)\<rparr>"

definition nodes_result :: "Node list \<Rightarrow> Node list result \<Rightarrow> bool" where
  "nodes_result members nodes \<longleftrightarrow> nodes = Inr members \<or> (\<exists>e. nodes = Inl e)"

text \<open>
  The steps a node takes by itself or on a reply that has arrived.  A timer step that would start
  an election is only considered while the term is below \<open>2 ^ 63 - 1\<close>, as the code casts terms to
  \<^verbatim>\<open>int64\<close>.
\<close>

inductive node_step ::
  "'m raft_env \<Rightarrow> Node list \<Rightarrow> (string \<times> rpc \<times> rpc_reply) set \<Rightarrow> 'm node \<Rightarrow> 'm node \<Rightarrow> bool"
  for E :: "'m raft_env" and members :: "Node list" and reps :: "(string \<times> rpc \<times> rpc_reply) set" where
  propose: "nodes_result members nodes \<Longrightarrow> Replicate E now nodes data n = (r, n') \<Longrightarrow> node_step E members reps n n'"
| giveUp: "node_step E members reps n (Replicate_giveUp i n)"
| batch: "\<not> stopped n \<Longrightarrow> node_step E members reps n (batchTick E n)"
| timer: "\<not> stopped n \<Longrightarrow> nodes_result members nodes \<Longrightarrow> currentTerm n + 1 < 2 ^ 63 \<Longrightarrow>
    node_step E members reps n (timerTick E now timeout nodes n)"
| broadcast: "nodes_result members nodes \<Longrightarrow> BroadcastTask \<in> set (spawned n) \<Longrightarrow>
    node_step E members reps n (broadcastAppendEntries E nodes (drop_task BroadcastTask n))"
| voteReply: "VoteTask w \<in> set (spawned n) \<Longrightarrow> (node_ID (vw_peer w), VoteRpc (vw_args w), VoteRep r) \<in> reps \<Longrightarrow>
    node_step E members reps n (handleVoteReply E now w r (drop_task (VoteTask w) n))"
| appendReply: "nodes_result members nodes \<Longrightarrow> AppendTask w \<in> set (spawned n) \<Longrightarrow>
    (node_ID (aw_node w), AppendRpc (appendRequest E w), AppendRep r) \<in> reps \<Longrightarrow>
    node_step E members reps n (handleAppendReply E now nodes w r (drop_task (AppendTask w) n))"
| snapshotReply: "SnapshotTask w \<in> set (spawned n) \<Longrightarrow>
    (node_ID (sw_node w), SnapshotRpc (sw_req w), SnapshotRep r) \<in> reps \<Longrightarrow>
    node_step E members reps n (handleSnapshotReply E now w r (drop_task (SnapshotTask w) n))"
| lost: "is_rpc k \<Longrightarrow> node_step E members reps n (drop_task k n)"
| compact: "\<not> stopped n \<Longrightarrow> compactionBegin E n = Some meta \<Longrightarrow> (\<And>c. CompactTask c \<notin> set (spawned n)) \<Longrightarrow>
    node_step E members reps n (n\<lparr>spawned := spawned n @ [CompactTask (CSerialize meta)]\<rparr>)"
| compacting: "CompactTask c \<in> set (spawned n) \<Longrightarrow> compactionStep E c (drop_task (CompactTask c) n) = (c', n') \<Longrightarrow>
    node_step E members reps n
      (n'\<lparr>spawned := spawned n' @ (case c' of None \<Rightarrow> [] | Some c \<Rightarrow> [CompactTask c])\<rparr>)"
| stop: "node_step E members reps n (Stop n)"

text \<open>
  Where a node's step leaves the network: a disk that crashed takes the process with it;
  otherwise the requests of the goroutines it started are sent.
\<close>

definition settle :: "'m raft_env \<Rightarrow> string \<Rightarrow> 'm node \<Rightarrow> 'm net \<Rightarrow> 'm net" where
  "settle E i n s =
     (if crashed (disk n) then s\<lparr>procs := (procs s)(i := Down (disk n) (machine n))\<rparr>
      else s\<lparr>procs := (procs s)(i := Up n),
             requests := requests s \<union> {q. \<exists>k\<in>set (spawned n). task_rpc E k = Some q}\<rparr>)"

inductive net_step :: "(string \<Rightarrow> 'm raft_env) \<Rightarrow> Node list \<Rightarrow> 'm net \<Rightarrow> 'm net \<Rightarrow> bool"
  for Env :: "string \<Rightarrow> 'm raft_env" and members :: "Node list" where
  local: "i \<in> node_ID ` set members \<Longrightarrow> procs s i = Up n \<Longrightarrow> node_step (Env i) members (replies s) n n' \<Longrightarrow>
    net_step Env members s (settle (Env i) i n' s)"
| served: "i \<in> node_ID ` set members \<Longrightarrow> procs s i = Up n \<Longrightarrow> (i, q) \<in> requests s \<Longrightarrow>
    serve (Env i) now q n = (r, n') \<Longrightarrow>
    net_step Env members s
      ((settle (Env i) i n' s)
        \<lparr>replies := replies s \<union> {(i, q, rep) |rep. r = Some rep \<and> \<not> crashed (disk n')}\<rparr>)"
| crash: "procs s i = Up n \<Longrightarrow> net_step Env members s (s\<lparr>procs := (procs s)(i := Down (disk n) (machine n))\<rparr>)"
| restart: "i \<in> node_ID ` set members \<Longrightarrow> procs s i = Down d m \<Longrightarrow> reboot d d' \<Longrightarrow>
    bootNode (Env i) now m d' = Inr n \<Longrightarrow> net_step Env members s (settle (Env i) i n s)"

definition fresh_disk :: "fs \<Rightarrow> bool" where
  "fresh_disk d \<longleftrightarrow> (\<forall>p. cur d p = None \<and> poss d p = {None})"

definition net_init :: "'m net \<Rightarrow> bool" where
  "net_init s \<longleftrightarrow> requests s = {} \<and> replies s = {} \<and> (\<forall>i. \<exists>d m. procs s i = Down d m \<and> fresh_disk d)"

inductive reachable :: "(string \<Rightarrow> 'm raft_env) \<Rightarrow> Node list \<Rightarrow> 'm net \<Rightarrow> bool"
  for Env :: "string \<Rightarrow> 'm raft_env" and members :: "Node list" where
  init: "net_init s \<Longrightarrow> reachable Env members s"
| step: "reachable Env members s \<Longrightarrow> net_step Env members s s' \<Longrightarrow> reachable Env members s'"

definition wf_cluster :: "(string \<Rightarrow> 'm raft_env) \<Rightarrow> Node list \<Rightarrow> bool" where
  "wf_cluster Env members \<longleftrightarrow> distinct (map node_ID members) \<and> [] \<notin> node_ID ` set members
     \<and> (\<forall>i. self (Env i) = i)"

section \<open>Votes and claims to leadership\<close>

text \<open>
  The votes of a node, read off the messages: the vote requests it granted, and its own
  candidacies.  A claim to lead a term: a majority of votes in it (a cluster of one needs none).
\<close>

definition granted :: "'m net \<Rightarrow> string \<Rightarrow> (nat \<times> string) set" where
  "granted s p = {(t, c). \<exists>a r. (p, VoteRpc a, VoteRep r) \<in> replies s \<and> rvr_VoteGranted r
     \<and> rv_Term a = int t \<and> rv_CandidateID a = c}"

definition candidacies :: "'m net \<Rightarrow> string \<Rightarrow> (nat \<times> string) set" where
  "candidacies s p = {(t, c). c = p \<and> (\<exists>q a. (q, VoteRpc a) \<in> requests s \<and> rv_Term a = int t \<and> rv_CandidateID a = p)}"

definition votes_of :: "'m net \<Rightarrow> string \<Rightarrow> (nat \<times> string) set" where
  "votes_of s p = granted s p \<union> candidacies s p"

definition ids :: "Node list \<Rightarrow> string set" where
  "ids members = node_ID ` set members"

definition claim :: "Node list \<Rightarrow> 'm net \<Rightarrow> nat \<Rightarrow> string \<Rightarrow> bool" where
  "claim members s t l \<longleftrightarrow> l \<in> ids members \<and>
     (length members = 1
      \<or> (\<exists>S \<subseteq> ids members. length members div 2 + 1 \<le> card S \<and> (\<forall>p\<in>S. (t, l) \<in> votes_of s p)))"

section \<open>The invariant\<close>

fun vote_work :: "task \<Rightarrow> voteWork list" where
  "vote_work (VoteTask w) = [w]"
| "vote_work _ = []"

definition vote_works :: "'m node \<Rightarrow> voteWork list" where
  "vote_works n = concat (map vote_work (rpc_tasks n))"

definition term_bounds :: "'m raft_env \<Rightarrow> 'm node \<Rightarrow> bool" where
  "term_bounds E n \<longleftrightarrow> currentTerm n < 2 ^ 63 \<and> (\<forall>v. Inr v \<in> views E n \<longrightarrow> fst v < 2 ^ 63)"

definition vote_work_ok :: "Node list \<Rightarrow> string \<Rightarrow> 'm node \<Rightarrow> voteWork \<Rightarrow> bool" where
  "vote_work_ok members i n w \<longleftrightarrow> vw_counter w < length (votesReceived n)
     \<and> vw_quorum w = length members div 2 + 1 \<and> node_ID (vw_peer w) \<in> ids members
     \<and> rv_Term (vw_args w) = int (vw_savedTerm w) \<and> rv_CandidateID (vw_args w) = i"

text \<open>Every vote a counter has counted is a vote of a different member.\<close>

definition counter_ok :: "Node list \<Rightarrow> 'm net \<Rightarrow> string \<Rightarrow> 'm node \<Rightarrow> nat \<Rightarrow> bool" where
  "counter_ok members s i n c \<longleftrightarrow> (\<exists>t. \<exists>S \<subseteq> ids members. card S = votesReceived n ! c
     \<and> (\<forall>p\<in>S. (t, i) \<in> votes_of s p)
     \<and> (\<forall>w\<in>set (vote_works n). vw_counter w = c \<longrightarrow> vw_savedTerm w = t \<and> node_ID (vw_peer w) \<notin> S))"

definition sent_ok :: "'m raft_env \<Rightarrow> 'm net \<Rightarrow> 'm node \<Rightarrow> bool" where
  "sent_ok E s n \<longleftrightarrow> (\<forall>k\<in>set (rpc_tasks n). \<forall>q. task_rpc E k = Some q \<longrightarrow> q \<in> requests s)"

definition voting_ok :: "Node list \<Rightarrow> 'm net \<Rightarrow> string \<Rightarrow> 'm node \<Rightarrow> bool" where
  "voting_ok members s i n \<longleftrightarrow>
     distinct (map (\<lambda>w. (vw_counter w, node_ID (vw_peer w))) (vote_works n))
   \<and> (\<forall>w\<in>set (vote_works n). vote_work_ok members i n w)
   \<and> (\<forall>c<length (votesReceived n). counter_ok members s i n c)
   \<and> (state n = Leader \<longrightarrow> claim members s (currentTerm n) i)"

definition node_inv :: "'m raft_env \<Rightarrow> Node list \<Rightarrow> 'm net \<Rightarrow> string \<Rightarrow> 'm node \<Rightarrow> bool" where
  "node_inv E members s i n \<longleftrightarrow> votes_kept E (votes_of s i) n \<and> term_bounds E n
     \<and> sent_ok E s n \<and> voting_ok members s i n"

definition disk_inv :: "'m raft_env \<Rightarrow> 'm net \<Rightarrow> string \<Rightarrow> fs \<Rightarrow> bool" where
  "disk_inv E s i d \<longleftrightarrow> wf_fs d \<and> (\<forall>v. Inr v \<in> stable_views (crc32 E) (stablePath E) d \<longrightarrow>
     fst v < 2 ^ 63 \<and> (\<forall>g\<in>votes_of s i. later g v))"

definition one_vote :: "(nat \<times> string) set \<Rightarrow> bool" where
  "one_vote V \<longleftrightarrow> (\<forall>t c d. (t, c) \<in> V \<and> (t, d) \<in> V \<longrightarrow> c = d)"

lemma one_vote_insert:
  "one_vote V \<Longrightarrow> \<forall>g\<in>V. later g (t, c) \<Longrightarrow> W \<subseteq> insert (t, c) V \<Longrightarrow> one_vote W"
  unfolding one_vote_def
proof (intro allI impI, elim conjE)
  fix u a b
  assume one: "\<forall>t c d. (t, c) \<in> V \<and> (t, d) \<in> V \<longrightarrow> c = d" and later: "\<forall>g\<in>V. later g (t, c)"
    and W: "W \<subseteq> insert (t, c) V" "(u, a) \<in> W" "(u, b) \<in> W"
  have "x = c" if "(t, x) \<in> V" for x using later that by (auto simp: later_def)
  with one W show "a = b" by blast
qed

definition proc_inv :: "'m raft_env \<Rightarrow> Node list \<Rightarrow> 'm net \<Rightarrow> string \<Rightarrow> 'm process \<Rightarrow> bool" where
  "proc_inv E members s i p \<longleftrightarrow> one_vote (votes_of s i)
     \<and> (case p of Up n \<Rightarrow> node_inv E members s i n | Down d m \<Rightarrow> disk_inv E s i d)"

lemma proc_inv_simps [simp]:
  "proc_inv E members s i (Up n) \<longleftrightarrow> one_vote (votes_of s i) \<and> node_inv E members s i n"
  "proc_inv E members s i (Down d m) \<longleftrightarrow> one_vote (votes_of s i) \<and> disk_inv E s i d"
  by (simp_all add: proc_inv_def)

definition leader_msg :: "Node list \<Rightarrow> 'm net \<Rightarrow> int \<Rightarrow> string \<Rightarrow> bool" where
  "leader_msg members s tm l \<longleftrightarrow> (\<exists>t<2 ^ 63. tm = int t \<and> claim members s t l)"

definition request_ok :: "Node list \<Rightarrow> 'm net \<Rightarrow> rpc \<Rightarrow> bool" where
  "request_ok members s q = (case q of
       VoteRpc a \<Rightarrow> \<exists>t<2 ^ 63. rv_Term a = int t \<and> rv_CandidateID a \<in> ids members
     | AppendRpc a \<Rightarrow> leader_msg members s (ae_Term a) (ae_LeaderID a)
     | SnapshotRpc a \<Rightarrow> leader_msg members s (is_Term a) (is_LeaderID a))"

definition reply_ok :: "rpc_reply \<Rightarrow> bool" where
  "reply_ok r = (case r of VoteRep r \<Rightarrow> rvr_Term r < 2 ^ 63 | AppendRep r \<Rightarrow> aer_Term r < 2 ^ 63
     | SnapshotRep r \<Rightarrow> isr_Term r < 2 ^ 63)"

definition net_inv :: "(string \<Rightarrow> 'm raft_env) \<Rightarrow> Node list \<Rightarrow> 'm net \<Rightarrow> bool" where
  "net_inv Env members s \<longleftrightarrow>
     (\<forall>i\<in>ids members. proc_inv (Env i) members s i (procs s i))
   \<and> (\<forall>(i, q)\<in>requests s. request_ok members s q)
   \<and> (\<forall>(i, q, r)\<in>replies s. (i, q) \<in> requests s \<and> reply_ok r)"

section \<open>Growing the set of messages\<close>

definition extends :: "'m net \<Rightarrow> 'm net \<Rightarrow> bool" where
  "extends s s' \<longleftrightarrow> requests s \<subseteq> requests s' \<and> replies s \<subseteq> replies s'"

lemma votes_of_mono: "extends s s' \<Longrightarrow> votes_of s p \<subseteq> votes_of s' p"
  by (fastforce simp: extends_def votes_of_def granted_def candidacies_def)

lemma claim_mono: "extends s s' \<Longrightarrow> claim members s t l \<Longrightarrow> claim members s' t l"
  unfolding claim_def using votes_of_mono by (meson subsetD)

lemma counter_ok_mono: "extends s s' \<Longrightarrow> counter_ok members s i n c \<Longrightarrow> counter_ok members s' i n c"
  unfolding counter_ok_def using votes_of_mono by (meson subsetD)

lemma voting_ok_mono: "extends s s' \<Longrightarrow> voting_ok members s i n \<Longrightarrow> voting_ok members s' i n"
  unfolding voting_ok_def using claim_mono counter_ok_mono by blast

lemma sent_ok_mono: "extends s s' \<Longrightarrow> sent_ok E s n \<Longrightarrow> sent_ok E s' n"
  by (auto simp: sent_ok_def extends_def)

lemma request_ok_mono: "extends s s' \<Longrightarrow> request_ok members s q \<Longrightarrow> request_ok members s' q"
  unfolding request_ok_def leader_msg_def by (auto split: rpc.splits dest: claim_mono)

lemma proc_inv_mono:
  assumes "extends s s'" "votes_of s' i = votes_of s i" "proc_inv E members s i p"
  shows "proc_inv E members s' i p"
  using assms voting_ok_mono sent_ok_mono
  by (cases p) (auto simp: proc_inv_def node_inv_def disk_inv_def)

text \<open>
  A step of node \<open>i\<close> that extends the messages by requests and replies of its own keeps the
  invariant as soon as it holds for \<open>i\<close> itself and for the new messages.
\<close>

lemma net_inv_update:
  assumes inv: "net_inv Env members s" and ext: "extends s s'"
    and procs: "procs s' = (procs s)(i := p)"
    and new_requests: "\<And>j q. (j, q) \<in> requests s' \<Longrightarrow> (j, q) \<notin> requests s \<Longrightarrow>
        request_ok members s' q \<and> (\<forall>a. q = VoteRpc a \<longrightarrow> rv_CandidateID a = i)"
    and new_replies: "\<And>j q r. (j, q, r) \<in> replies s' \<Longrightarrow> (j, q, r) \<notin> replies s \<Longrightarrow>
        j = i \<and> (j, q) \<in> requests s' \<and> reply_ok r"
    and p: "i \<in> ids members \<Longrightarrow> proc_inv (Env i) members s' i p"
  shows "net_inv Env members s'"
proof -
  have "votes_of s' j = votes_of s j" if "j \<noteq> i" for j
  proof
    show "votes_of s j \<subseteq> votes_of s' j" using ext by (rule votes_of_mono)
    show "votes_of s' j \<subseteq> votes_of s j"
      using that new_requests new_replies
      unfolding votes_of_def granted_def candidacies_def by blast
  qed
  then have "proc_inv (Env j) members s' j (procs s' j)" if "j \<in> ids members" for j
    using inv that ext p procs proc_inv_mono [OF ext] by (cases "j = i") (auto simp: net_inv_def)
  moreover have "request_ok members s' q" if "(j, q) \<in> requests s'" for j q
    using inv that new_requests request_ok_mono [OF ext]
    by (cases "(j, q) \<in> requests s") (auto simp: net_inv_def)
  moreover have "(j, q) \<in> requests s' \<and> reply_ok r" if "(j, q, r) \<in> replies s'" for j q r
    using inv that new_replies ext
    by (cases "(j, q, r) \<in> replies s") (auto simp: net_inv_def extends_def)
  ultimately show ?thesis by (auto simp: net_inv_def)
qed

section \<open>Steps of a node\<close>

lemma voting_ok_cong:
  assumes "rpc_tasks n' = rpc_tasks n" "votesReceived n' = votesReceived n"
    "state n' = Leader \<longrightarrow> claim members s (currentTerm n') i" "voting_ok members s i n"
  shows "voting_ok members s i n'"
  using assms by (simp add: voting_ok_def vote_works_def vote_work_ok_def counter_ok_def)

lemma node_inv_keeps: "keeps E n n' \<Longrightarrow> node_inv E members s i n \<Longrightarrow> node_inv E members s i n'"
proof -
  assume k: "keeps E n n'" and inv: "node_inv E members s i n"
  have "voting_ok members s i n'"
    using k inv by (intro voting_ok_cong [of n' n]) (auto simp: keeps_def node_inv_def voting_ok_def)
  moreover have "sent_ok E s n'" using k inv by (simp add: keeps_def node_inv_def sent_ok_def)
  moreover have "views E n' \<subseteq> views E n"
    using k inv by (simp add: keeps_def node_inv_def disk_ok_def votes_kept_def)
  then have "term_bounds E n'"
    using k inv unfolding keeps_def node_inv_def term_bounds_def by (metis subsetD)
  ultimately show ?thesis using k inv votes_kept_keeps by (auto simp: node_inv_def)
qed

lemma node_inv_stepped_down:
  assumes "stepped_down E t n n'" "currentTerm n < t" "t < 2 ^ 63" "node_inv E members s i n"
  shows "node_inv E members s i n'"
proof -
  have "voting_ok members s i n'"
    using assms by (intro voting_ok_cong [of n' n]) (auto simp: stepped_down_def node_inv_def)
  moreover have "sent_ok E s n'" using assms by (simp add: stepped_down_def node_inv_def sent_ok_def)
  moreover have "views E n' \<subseteq> insert (Inr (t, [])) (views E n)"
    using assms by (simp add: stepped_down_def node_inv_def votes_kept_def)
  then have "term_bounds E n'"
    using assms by (auto simp: stepped_down_def node_inv_def term_bounds_def)
  moreover have "votes_kept E (votes_of s i) n'"
    using assms unfolding stepped_down_def node_inv_def by blast
  ultimately show ?thesis by (simp add: node_inv_def)
qed

lemma node_inv_follows:
  assumes "follows E t n n'" "t < 2 ^ 63" "node_inv E members s i n"
  shows "node_inv E members s i n'"
proof (cases "keeps E n n'")
  case True
  then show ?thesis using assms(3) by (rule node_inv_keeps)
next
  case False
  then obtain n1 where t: "t > int64 (int (currentTerm n))" and n1: "stepped_down E (uint64 t) n n1" "keeps E n1 n'"
    using assms(1) by (auto simp: follows_def)
  have "currentTerm n < 2 ^ 63" using assms(3) by (simp add: node_inv_def term_bounds_def)
  then have c: "int (currentTerm n) < t" using t by simp
  then have u: "uint64 t = nat t" using assms(2) by simp
  have "currentTerm n < nat t" "nat t < 2 ^ 63" using c assms(2) by (auto simp: zless_nat_conj nat_less_iff)
  then have "node_inv E members s i n1" using node_inv_stepped_down [OF n1(1)] assms(3) u by simp
  with n1(2) show ?thesis by (rule node_inv_keeps)
qed

lemma rpc_tasks_drop_task: "rpc_tasks (drop_task k n) = remove1 k (rpc_tasks n)"
  by (simp add: rpc_tasks_def drop_task_def filter_remove1)

lemma drop_task_sel [simp]:
  "disk (drop_task k n) = disk n" "currentTerm (drop_task k n) = currentTerm n"
  "votedFor (drop_task k n) = votedFor n" "state (drop_task k n) = state n"
  "votesReceived (drop_task k n) = votesReceived n"
  by (simp_all add: drop_task_def)

lemma vote_works_remove1:
  "k \<in> set ks \<Longrightarrow> mset (concat (map vote_work ks)) = mset (vote_work k) + mset (concat (map vote_work (remove1 k ks)))"
  by (induction ks) auto

lemma vote_works_drop_mset:
  assumes "k \<in> set (rpc_tasks n)"
  shows "mset (vote_works n) = mset (vote_work k @ vote_works (drop_task k n))"
  using vote_works_remove1 [OF assms] by (simp add: vote_works_def rpc_tasks_drop_task)

lemma vote_works_drop_notin: "k \<notin> set (rpc_tasks n) \<Longrightarrow> vote_works (drop_task k n) = vote_works n"
  by (simp add: vote_works_def rpc_tasks_drop_task remove1_idem)

lemma vote_works_drop:
  "set (vote_works (drop_task k n)) \<subseteq> set (vote_works n)"
  "distinct (map f (vote_works n)) \<Longrightarrow> distinct (map f (vote_works (drop_task k n)))"
proof -
  show "set (vote_works (drop_task k n)) \<subseteq> set (vote_works n)"
    using mset_eq_setD [OF vote_works_drop_mset, of k n] vote_works_drop_notin [of k n]
    by (cases "k \<in> set (rpc_tasks n)") auto
  assume d: "distinct (map f (vote_works n))"
  show "distinct (map f (vote_works (drop_task k n)))"
  proof (cases "k \<in> set (rpc_tasks n)")
    case True
    have "mset (map f (vote_works n)) = mset (map f (vote_work k @ vote_works (drop_task k n)))"
      using vote_works_drop_mset [OF True] by (metis mset_map)
    with d have "distinct (map f (vote_work k @ vote_works (drop_task k n)))"
      using mset_eq_imp_distinct_iff by blast
    then show ?thesis by simp
  qed (simp add: vote_works_drop_notin d)
qed

lemma node_inv_drop_task:
  assumes "node_inv E members s i n"
  shows "node_inv E members s i (drop_task k n)"
proof -
  have sub: "set (rpc_tasks (drop_task k n)) \<subseteq> set (rpc_tasks n)"
    by (simp add: rpc_tasks_drop_task set_remove1_subset)
  have v: "views E (drop_task k n) = views E n" by (simp add: views_def)
  have "counter_ok members s i (drop_task k n) c" if "counter_ok members s i n c" for c
    using that vote_works_drop(1) [of k n] unfolding counter_ok_def drop_task_sel by (meson subsetD)
  then have "voting_ok members s i (drop_task k n)"
    using assms vote_works_drop(1) [of k n] vote_works_drop(2) [of _ n k]
    unfolding node_inv_def voting_ok_def vote_work_ok_def drop_task_sel by (meson subsetD)
  then show ?thesis
    using assms sub v by (auto simp: node_inv_def votes_kept_def term_bounds_def sent_ok_def)
qed

lemma task_rpc_is_rpc: "task_rpc E k = Some q \<Longrightarrow> is_rpc k"
  by (cases k) simp_all

text \<open>A step of node \<open>i\<close>, with its replies, keeps the invariant of the network.\<close>

lemma settle_inv:
  assumes inv: "net_inv Env members s" and i: "i \<in> ids members"
    and s': "s' = (settle (Env i) i n' s)\<lparr>replies := replies s \<union> P\<rparr>"
    and P: "\<And>j q r. (j, q, r) \<in> P \<Longrightarrow> j = i \<and> (j, q) \<in> requests s \<and> reply_ok r"
    and crash: "crashed (disk n') \<Longrightarrow> P = {}"
    and kept: "votes_kept (Env i) (votes_of s i) n'" and tb: "term_bounds (Env i) n'"
    and up: "\<not> crashed (disk n') \<Longrightarrow> votes_kept (Env i) (votes_of s' i) n' \<and> voting_ok members s' i n'
        \<and> one_vote (votes_of s' i)"
    and tasks: "\<And>k j q. \<not> crashed (disk n') \<Longrightarrow> k \<in> set (rpc_tasks n') \<Longrightarrow> task_rpc (Env i) k = Some (j, q) \<Longrightarrow>
        (j, q) \<notin> requests s \<Longrightarrow> request_ok members s' q \<and> (\<forall>a. q = VoteRpc a \<longrightarrow> rv_CandidateID a = i)"
  shows "net_inv Env members s'"
proof -
  have rpc: "k \<in> set (rpc_tasks n')" if "k \<in> set (spawned n')" "task_rpc (Env i) k = Some q" for k q
    using that(1) task_rpc_is_rpc [OF that(2)] by (simp add: rpc_tasks_def)
  have ext: "extends s s'" by (auto simp: s' settle_def extends_def)
  have one: "one_vote (votes_of s i)" using inv i by (simp add: net_inv_def proc_inv_def)
  show ?thesis
  proof (cases "crashed (disk n')")
    case True
    have v: "votes_of s' i = votes_of s i"
      using crash [OF True] True by (simp add: s' settle_def votes_of_def granted_def candidacies_def)
    show ?thesis
    proof (rule net_inv_update [OF inv ext, of i "Down (disk n') (machine n')"])
      show "proc_inv (Env i) members s' i (Down (disk n') (machine n'))"
        using kept tb one by (auto simp: disk_inv_def v votes_kept_def term_bounds_def views_def)
    qed (use True crash [OF True] in \<open>auto simp: s' settle_def\<close>)
  next
    case False
    have "sent_ok (Env i) s' n'" using False rpc by (auto simp: sent_ok_def s' settle_def rpc_tasks_def)
    then have p: "proc_inv (Env i) members s' i (Up n')"
      using up [OF False] tb by (simp add: node_inv_def)
    show ?thesis
    proof (rule net_inv_update [OF inv ext, of i "Up n'"])
      show "request_ok members s' q \<and> (\<forall>a. q = VoteRpc a \<longrightarrow> rv_CandidateID a = i)"
        if new: "(j, q) \<in> requests s'" "(j, q) \<notin> requests s" for j q
      proof -
        obtain k where k: "k \<in> set (spawned n')" "task_rpc (Env i) k = Some (j, q)"
          using new False by (auto simp: s' settle_def)
        show ?thesis by (rule tasks [OF False rpc [OF k] k(2) new(2)])
      qed
      show "j = i \<and> (j, q) \<in> requests s' \<and> reply_ok r"
        if "(j, q, r) \<in> replies s'" "(j, q, r) \<notin> replies s" for j q r
        using that P [of j q r] by (auto simp: s' settle_def)
    qed (use False p in \<open>auto simp: s' settle_def\<close>)
  qed
qed

text \<open>A step that neither asks for votes nor grants one.\<close>

lemma settle_quiet:
  assumes inv: "net_inv Env members s" and i: "i \<in> ids members"
    and s': "s' = (settle (Env i) i n' s)\<lparr>replies := replies s \<union> P\<rparr>"
    and P: "\<And>j q r. (j, q, r) \<in> P \<Longrightarrow> j = i \<and> (j, q) \<in> requests s \<and> reply_ok r
        \<and> (\<forall>v. r = VoteRep v \<longrightarrow> \<not> rvr_VoteGranted v)"
    and crash: "crashed (disk n') \<Longrightarrow> P = {}"
    and node: "votes_kept (Env i) (votes_of s i) n'" "term_bounds (Env i) n'" "voting_ok members s i n'"
    and tasks: "\<And>k j q. k \<in> set (rpc_tasks n') \<Longrightarrow> task_rpc (Env i) k = Some (j, q) \<Longrightarrow>
        (j, q) \<notin> requests s \<Longrightarrow> request_ok members s q \<and> (\<forall>a. q \<noteq> VoteRpc a)"
  shows "net_inv Env members s'"
proof (rule settle_inv [OF inv i s'])
  have ext: "extends s s'" by (auto simp: s' settle_def extends_def)
  have rq: "request_ok members s q \<and> (\<forall>a. q \<noteq> VoteRpc a)" if new: "(j, q) \<in> requests s'" "(j, q) \<notin> requests s" for j q
  proof -
    obtain k where k: "k \<in> set (spawned n')" "task_rpc (Env i) k = Some (j, q)"
      using new by (auto simp: s' settle_def split: if_splits)
    have "k \<in> set (rpc_tasks n')" using k(1) task_rpc_is_rpc [OF k(2)] by (simp add: rpc_tasks_def)
    from tasks [OF this k(2) new(2)] show ?thesis .
  qed
  have vq: "(j, VoteRpc a) \<in> requests s" if "(j, VoteRpc a) \<in> requests s'" for j a
    using rq [OF that] by auto
  have vr: "(j, q, VoteRep r) \<in> replies s" if "(j, q, VoteRep r) \<in> replies s'" "rvr_VoteGranted r" for j q r
    using that P [of j q "VoteRep r"] by (auto simp: s')
  have "candidacies s' i \<subseteq> candidacies s i"
    unfolding candidacies_def by (auto dest: vq)
  moreover have "granted s' i \<subseteq> granted s i"
    unfolding granted_def by (auto dest: vr)
  ultimately have v: "votes_of s' i = votes_of s i"
    using votes_of_mono [OF ext, of i] by (auto simp: votes_of_def)
  have "one_vote (votes_of s i)" using inv i by (simp add: net_inv_def proc_inv_def)
  then show "votes_kept (Env i) (votes_of s' i) n' \<and> voting_ok members s' i n' \<and> one_vote (votes_of s' i)"
    using node v voting_ok_mono [OF ext] by simp
  show "request_ok members s' q \<and> (\<forall>a. q = VoteRpc a \<longrightarrow> rv_CandidateID a = i)"
    if "k \<in> set (rpc_tasks n')" "task_rpc (Env i) k = Some (j, q)" "(j, q) \<notin> requests s" for k j q
    using tasks [OF that] request_ok_mono [OF ext] by blast
qed (use P crash node in blast)+

lemma settle_node_inv:
  assumes inv: "net_inv Env members s" and i: "i \<in> ids members" and n: "node_inv (Env i) members s i n'"
  shows "net_inv Env members (settle (Env i) i n' s)"
proof (rule settle_quiet [OF inv i, where n' = n' and P = "{}"])
  show "settle (Env i) i n' s = (settle (Env i) i n' s)\<lparr>replies := replies s \<union> {}\<rparr>"
    by (simp add: settle_def)
  show "request_ok members s q \<and> (\<forall>a. q \<noteq> VoteRpc a)"
    if "k \<in> set (rpc_tasks n')" "task_rpc (Env i) k = Some (j, q)" "(j, q) \<notin> requests s" for k j q
    using n that by (auto simp: node_inv_def sent_ok_def)
qed (use n in \<open>auto simp: node_inv_def\<close>)

lemma settle_served:
  assumes inv: "net_inv Env members s" and i: "i \<in> ids members" and n: "node_inv (Env i) members s i n'"
    and q: "(i, q) \<in> requests s"
    and r: "\<And>rep. r = Some rep \<Longrightarrow> reply_ok rep \<and> (\<forall>v. rep = VoteRep v \<longrightarrow> \<not> rvr_VoteGranted v)"
  shows "net_inv Env members ((settle (Env i) i n' s)
      \<lparr>replies := replies s \<union> {(i, q, rep) |rep. r = Some rep \<and> \<not> crashed (disk n')}\<rparr>)"
proof (rule settle_quiet [OF inv i refl])
  show "request_ok members s q' \<and> (\<forall>a. q' \<noteq> VoteRpc a)"
    if "k \<in> set (rpc_tasks n')" "task_rpc (Env i) k = Some (j, q')" "(j, q') \<notin> requests s" for k j q'
    using n that by (auto simp: node_inv_def sent_ok_def)
qed (use n q r in \<open>auto simp: node_inv_def\<close>)

section \<open>The leader's requests\<close>

lemma rpc_tasks_append: "rpc_tasks (n\<lparr>spawned := spawned n @ ks\<rparr>) = rpc_tasks n @ filter is_rpc ks"
  by (simp add: rpc_tasks_def)

lemma leader_task_request:
  assumes "leader_task E t k" "task_rpc E k = Some (j, q)" "t < 2 ^ 63" "claim members s t (self E)"
  shows "request_ok members s q \<and> (\<forall>a. q \<noteq> VoteRpc a)"
  using assms
  by (cases k) (auto simp: request_ok_def leader_msg_def appendRequest_def)

lemma leader_task_vote_work: "leader_task E t k \<Longrightarrow> vote_work k = []"
  by (cases k) simp_all

lemma broadcast_inv:
  assumes inv: "net_inv Env members s" and i: "i \<in> ids members" and n: "node_inv (Env i) members s i n"
    and self: "self (Env i) = i"
  shows "net_inv Env members (settle (Env i) i (broadcastAppendEntries (Env i) nodes n) s)"
proof -
  obtain n1 ks where k: "keeps (Env i) n n1" and
    eq: "broadcastAppendEntries (Env i) nodes n = n1\<lparr>spawned := spawned n1 @ ks\<rparr>" and
    ks: "\<And>k. k \<in> set ks \<Longrightarrow> state n = Leader \<and> leader_task (Env i) (currentTerm n) k"
    using broadcastAppendEntries_tasks [of "Env i" n nodes] by metis
  let ?n' = "n1\<lparr>spawned := spawned n1 @ ks\<rparr>"
  have n1: "node_inv (Env i) members s i n1" using k n by (rule node_inv_keeps)
  have "concat (map vote_work (filter is_rpc ks)) = []"
    using ks leader_task_vote_work by fastforce
  then have vw: "vote_works ?n' = vote_works n1" by (simp add: vote_works_def rpc_tasks_append)
  have vk: "votes_kept (Env i) (votes_of s i) ?n'" "term_bounds (Env i) ?n'"
    using n1 by (simp_all add: node_inv_def votes_kept_def term_bounds_def views_def)
  have vo: "voting_ok members s i ?n'"
    using n1 by (simp add: node_inv_def voting_ok_def vw vote_work_ok_def counter_ok_def)
  have new: "request_ok members s q \<and> (\<forall>a. q \<noteq> VoteRpc a)"
    if "k \<in> set (rpc_tasks ?n')" "task_rpc (Env i) k = Some (j, q)" "(j, q) \<notin> requests s" for k j q
  proof (cases "k \<in> set (rpc_tasks n1)")
    case True
    then show ?thesis using n1 that by (auto simp: node_inv_def sent_ok_def)
  next
    case False
    then have "k \<in> set ks" using that(1) by (auto simp: rpc_tasks_append)
    with ks n self that(2) show ?thesis
      by (intro leader_task_request [of "Env i" "currentTerm n" k])
        (auto simp: node_inv_def term_bounds_def voting_ok_def)
  qed
  show ?thesis
    unfolding eq
  proof (rule settle_quiet [OF inv i, where n' = ?n' and P = "{}"])
    show "settle (Env i) i ?n' s = (settle (Env i) i ?n' s)\<lparr>replies := replies s \<union> {}\<rparr>"
      by (simp add: settle_def)
  qed (use vk vo new in auto)
qed

section \<open>Elections\<close>

lemma later_next:
  assumes "node_inv E members s i n" "currentTerm n < t" "g \<in> votes_of s i"
  shows "later g (t, c)"
  using assms by (auto simp: node_inv_def votes_kept_def later_def)

lemma voted_node:
  assumes "voted E t c n n'" "node_inv E members s i n" "t < 2 ^ 63" "\<forall>g\<in>votes_of s i. later g (t, c)"
  shows "votes_kept E (votes_of s i) n' \<and> term_bounds E n'"
proof -
  have v: "currentTerm n' = t" "votes_kept E (votes_of s i) n'"
    "views E n' \<subseteq> insert (Inr (t, c)) (views E n)"
    using assms unfolding voted_def node_inv_def votes_kept_def by blast+
  then have "term_bounds E n'"
    using assms(2,3) by (auto simp: term_bounds_def node_inv_def)
  with v show ?thesis by simp
qed

lemma voted_node_inv:
  assumes "voted E t c n n'" "node_inv E members s i n" "t < 2 ^ 63" "\<forall>g\<in>votes_of s i. later g (t, c)"
    and "rpc_tasks n' = rpc_tasks n" "votesReceived n' = votesReceived n"
    and "state n' = Leader \<longrightarrow> claim members s t i"
  shows "node_inv E members s i n'"
proof -
  have "currentTerm n' = t" using assms(1) by (simp add: voted_def)
  then have "voting_ok members s i n'"
    using assms by (intro voting_ok_cong [of n' n]) (auto simp: node_inv_def)
  moreover have "sent_ok E s n'" using assms by (simp add: node_inv_def sent_ok_def)
  ultimately show ?thesis using voted_node [OF assms(1-4)] by (simp add: node_inv_def)
qed

lemma vote_work_voteTask [simp]:
  "vote_work (voteTask E t li c ns p) =
     [\<lparr>vw_peer = p, vw_args = \<lparr>rv_Term = int64 (int t), rv_CandidateID = self E,
        rv_LastLogIndex = int64 (int (fst li)), rv_LastLogTerm = int64 (int (snd li))\<rparr>,
       vw_savedTerm = t, vw_counter = c, vw_quorum = length ns div 2 + 1, vw_nodes = ns\<rparr>]"
  by (simp add: voteTask_def)

lemma concat_vote_work_map: "concat (map (\<lambda>p. [f p]) ps) = map f ps"
  by (induction ps) simp_all

lemma election_voting_ok:
  fixes n' :: "'m node"
  assumes ext: "extends s s'" and old: "voting_ok members s i n" and self: "self E = i" and t: "t < 2 ^ 63"
    and n': "state n' \<noteq> Leader" "votesReceived n' = votesReceived n @ [1]"
      "rpc_tasks n' = rpc_tasks n @ map (voteTask E t li (length (votesReceived n)) members)
         (filter (\<lambda>p. node_ID p \<noteq> i) members)"
    and wf: "distinct (map node_ID members)" and i: "i \<in> ids members" and own: "(t, i) \<in> votes_of s' i"
  shows "voting_ok members s' i n'"
proof -
  let ?c = "length (votesReceived n)" and ?ps = "filter (\<lambda>p. node_ID p \<noteq> i) members"
  let ?f = "\<lambda>p. \<lparr>vw_peer = p, vw_args = \<lparr>rv_Term = int64 (int t), rv_CandidateID = self E,
        rv_LastLogIndex = int64 (int (fst li)), rv_LastLogTerm = int64 (int (snd li))\<rparr>,
       vw_savedTerm = t, vw_counter = ?c, vw_quorum = length members div 2 + 1, vw_nodes = members\<rparr>"
  have vw: "vote_works n' = vote_works n @ map ?f ?ps"
    using n'(3) by (simp add: vote_works_def comp_def concat_vote_work_map)
  have oldc: "vw_counter w < ?c" if "w \<in> set (vote_works n)" for w
    using old that by (auto simp: voting_ok_def vote_work_ok_def)
  have "distinct (map (\<lambda>p. (?c, node_ID p)) ?ps)"
    using wf by (auto simp: distinct_map inj_on_def intro: distinct_filter)
  then have d: "distinct (map (\<lambda>w. (vw_counter w, node_ID (vw_peer w))) (vote_works n'))"
    using old by (auto simp: vw voting_ok_def comp_def dest: oldc)
  have w: "vote_work_ok members i n' w" if "w \<in> set (vote_works n')" for w
    using that old self t by (auto simp: vw voting_ok_def vote_work_ok_def n'(2) ids_def less_Suc_eq)
  have c: "counter_ok members s' i n' c" if "c < length (votesReceived n')" for c
  proof (cases "c = ?c")
    case True
    have "\<forall>w\<in>set (vote_works n'). vw_counter w = c \<longrightarrow> vw_savedTerm w = t \<and> node_ID (vw_peer w) \<notin> {i}"
      using True by (auto simp: vw dest: oldc)
    then show ?thesis
      using True i own unfolding counter_ok_def by (intro exI [of _ t] exI [of _ "{i}"]) (simp add: n'(2))
  next
    case False
    then have lt: "c < ?c" using that n'(2) by simp
    then have "counter_ok members s' i n c"
      using old counter_ok_mono [OF ext] by (simp add: voting_ok_def)
    then obtain u S where S: "S \<subseteq> ids members" "card S = votesReceived n ! c" "\<forall>p\<in>S. (u, i) \<in> votes_of s' p"
      "\<forall>w\<in>set (vote_works n). vw_counter w = c \<longrightarrow> vw_savedTerm w = u \<and> node_ID (vw_peer w) \<notin> S"
      unfolding counter_ok_def by blast
    then have "\<forall>w\<in>set (vote_works n'). vw_counter w = c \<longrightarrow> vw_savedTerm w = u \<and> node_ID (vw_peer w) \<notin> S"
      using False by (auto simp: vw)
    with S lt show ?thesis unfolding counter_ok_def by (intro exI [of _ u] exI [of _ S]) (simp add: n'(2) nth_append)
  qed
  show ?thesis using d w c n'(1) by (simp add: voting_ok_def)
qed

lemma other_member:
  assumes "distinct (map node_ID members)" "i \<in> ids members" "length members \<noteq> 1"
  obtains p where "p \<in> set members" "node_ID p \<noteq> i"
proof -
  obtain q where q: "q \<in> set members" "node_ID q = i" using assms(2) by (auto simp: ids_def)
  have "\<not> set members \<subseteq> {q}"
  proof
    assume "set members \<subseteq> {q}"
    then have "card (set members) \<le> 1" using card_mono [of "{q}" "set members"] by simp
    moreover have "card (set members) = length members"
      using assms(1) by (simp add: distinct_map distinct_card)
    ultimately show False using q(1) assms(3) by (cases members) auto
  qed
  then obtain p where "p \<in> set members" "p \<noteq> q" by blast
  moreover from this have "node_ID p \<noteq> i" using assms(1) q by (auto simp: distinct_map inj_on_def)
  ultimately show ?thesis using that by blast
qed

lemma votes_of_settle:
  assumes "\<And>q a k. k \<in> set (rpc_tasks n') \<Longrightarrow> task_rpc E k = Some (q, VoteRpc a) \<Longrightarrow> (q, VoteRpc a) \<notin> requests s \<Longrightarrow>
      rv_Term a = int t \<and> rv_CandidateID a = i"
  shows "votes_of (settle E i n' s) i \<subseteq> insert (t, i) (votes_of s i)"
proof
  fix g assume "g \<in> votes_of (settle E i n' s) i"
  moreover have "granted (settle E i n' s) i = granted s i" by (simp add: granted_def settle_def)
  ultimately consider "g \<in> granted s i" | "g \<in> candidacies (settle E i n' s) i"
    by (auto simp: votes_of_def)
  then show "g \<in> insert (t, i) (votes_of s i)"
  proof cases
    case c: 2
    obtain q a where 2: "(q, VoteRpc a) \<in> requests (settle E i n' s)"
      "rv_Term a = int (fst g)" "rv_CandidateID a = i" "snd g = i"
      using c by (auto simp: candidacies_def)
    show ?thesis
    proof (cases "(q, VoteRpc a) \<in> requests s")
      case True
      then have "(fst g, snd g) \<in> candidacies s i" using 2 by (auto simp: candidacies_def)
      then show ?thesis by (simp add: votes_of_def)
    next
      case False
      then obtain k where k: "k \<in> set (spawned n')" "task_rpc E k = Some (q, VoteRpc a)"
        using 2(1) by (auto simp: settle_def split: if_splits)
      then have "k \<in> set (rpc_tasks n')" using task_rpc_is_rpc [OF k(2)] by (simp add: rpc_tasks_def)
      from assms [OF this k(2) False] 2 show ?thesis by (cases g) auto
    qed
  qed (simp add: votes_of_def)
qed

lemma election_inv:
  fixes n :: "'m node"
  assumes inv: "net_inv Env members s" and i: "i \<in> ids members" and n: "node_inv (Env i) members s i n"
    and wf: "wf_cluster Env members" and nodes: "nodes_result members nodes" and t: "currentTerm n + 1 < 2 ^ 63"
  shows "net_inv Env members (settle (Env i) i (startElectionLocked (Env i) now nodes n) s)"
proof -
  let ?t = "currentTerm n + 1" and ?n' = "startElectionLocked (Env i) now nodes n"
  have self: "self (Env i) = i" using wf by (simp add: wf_cluster_def)
  have inc: "inc64 (currentTerm n) = ?t" using t by simp
  have later: "\<forall>g\<in>votes_of s i. later g (?t, i)" using later_next [OF n] by simp
  from refl [of ?n'] show ?thesis
  proof (cases rule: startElectionLocked_cases)
    case failed
    then have "node_inv (Env i) members s i ?n'"
      using voted_node_inv [OF _ n t later] by (simp add: inc self)
    with inv i show ?thesis by (rule settle_node_inv)
  next
    case no_nodes
    then have "node_inv (Env i) members s i ?n'"
      using voted_node_inv [OF voted_durably_voted n t later] by (simp add: inc self)
    with inv i show ?thesis by (rule settle_node_inv)
  next
    case (single ns)
    then have "claim members s ?t i" using nodes i by (auto simp: nodes_result_def claim_def)
    then have "node_inv (Env i) members s i ?n'"
      using voted_node_inv [OF voted_durably_voted n t later] single by (simp add: inc self)
    with inv i show ?thesis by (rule settle_node_inv)
  next
    case (voting ns)
    let ?s' = "settle (Env i) i ?n' s"
    have m: "ns = members" using voting nodes by (auto simp: nodes_result_def)
    define ps where "ps = filter (\<lambda>p. node_ID p \<noteq> i) members"
    define vt where "vt = voteTask (Env i) ?t (getLastLogInfoLocked ?n') (length (votesReceived n)) members"
    have tasks: "rpc_tasks ?n' = rpc_tasks n @ map vt ps"
      using voting(6) by (simp add: m inc self ps_def vt_def)
    have vk: "votes_kept (Env i) (insert (?t, i) (votes_of s i)) ?n'"
      using voting(3) n later by (simp add: voted_durably_def inc self node_inv_def)
    have vn: "votes_kept (Env i) (votes_of s i) ?n' \<and> term_bounds (Env i) ?n'"
      using voted_node [OF voted_durably_voted n t later] voting(3) by (simp add: inc self)
    have vrpc: "task_rpc (Env i) (vt p) = Some (node_ID p, VoteRpc \<lparr>rv_Term = int ?t, rv_CandidateID = i,
        rv_LastLogIndex = int64 (int (fst (getLastLogInfoLocked ?n'))),
        rv_LastLogTerm = int64 (int (snd (getLastLogInfoLocked ?n')))\<rparr>)" for p
      using t int64_int [of ?t] by (simp add: vt_def voteTask_def self)
    have ext: "extends s ?s'" by (auto simp: settle_def extends_def)
    have P0: "?s' = ?s'\<lparr>replies := replies s \<union> {}\<rparr>" by (simp add: settle_def)
    have "distinct (map node_ID members)" "length members \<noteq> 1"
      using wf voting(2) m by (simp_all add: wf_cluster_def)
    then obtain p where p: "p \<in> set ps"
      using i by (elim other_member) (auto simp: ps_def)
    show ?thesis
    proof (rule settle_inv [OF inv i P0])
      assume up: "\<not> crashed (disk ?n')"
      have sub: "votes_of ?s' i \<subseteq> insert (?t, i) (votes_of s i)"
      proof (rule votes_of_settle)
        fix q a k assume k: "k \<in> set (rpc_tasks ?n')" "task_rpc (Env i) k = Some (q, VoteRpc a)" "(q, VoteRpc a) \<notin> requests s"
        have "k \<notin> set (rpc_tasks n)" using k n by (auto simp: node_inv_def sent_ok_def)
        then obtain p' where "k = vt p'" using tasks k(1) by auto
        with k(2) vrpc show "rv_Term a = int ?t \<and> rv_CandidateID a = i" by auto
      qed
      have own: "(?t, i) \<in> votes_of ?s' i"
      proof -
        have "vt p \<in> set (rpc_tasks ?n')" using p tasks by simp
        then have "vt p \<in> set (spawned ?n')" by (simp add: rpc_tasks_def)
        then show ?thesis
          using vrpc [of p] up by (fastforce simp: votes_of_def candidacies_def settle_def)
      qed
      have "voting_ok members ?s' i ?n'"
        using election_voting_ok [OF ext _ self t _ voting(5) tasks [unfolded vt_def ps_def] _ i own] n wf voting(4)
        by (simp add: node_inv_def wf_cluster_def)
      moreover have "one_vote (votes_of ?s' i)"
        using one_vote_insert [OF _ later sub] inv i by (simp add: net_inv_def proc_inv_def)
      ultimately show "votes_kept (Env i) (votes_of ?s' i) ?n' \<and> voting_ok members ?s' i ?n'
          \<and> one_vote (votes_of ?s' i)"
        using votes_kept_mono [OF vk sub] by blast
    next
      fix k j q assume k: "k \<in> set (rpc_tasks ?n')" "task_rpc (Env i) k = Some (j, q)" "(j, q) \<notin> requests s"
      have "k \<notin> set (rpc_tasks n)" using k n by (auto simp: node_inv_def sent_ok_def)
      then obtain p' where "k = vt p'" using tasks k(1) by auto
      with k(2) vrpc [of p'] t i show "request_ok members ?s' q \<and> (\<forall>a. q = VoteRpc a \<longrightarrow> rv_CandidateID a = i)"
        by (auto simp: request_ok_def intro!: exI [of _ ?t])
    qed (use vn in auto)
  qed
qed

section \<open>Counting votes\<close>

definition counted :: "voteWork \<Rightarrow> 'm node \<Rightarrow> 'm node" where
  "counted w n = (drop_task (VoteTask w) n)
     \<lparr>votesReceived := (votesReceived n)[vw_counter w := votesReceived n ! vw_counter w + 1]\<rparr>"

lemma counted_sel [simp]:
  "length (votesReceived (counted w n)) = length (votesReceived n)" "state (counted w n) = state n"
  "currentTerm (counted w n) = currentTerm n" "votedFor (counted w n) = votedFor n"
  "disk (counted w n) = disk n" "rpc_tasks (counted w n) = rpc_tasks (drop_task (VoteTask w) n)"
  by (simp_all add: counted_def rpc_tasks_def)

lemma set_vote_works: "w \<in> set (vote_works n) \<longleftrightarrow> VoteTask w \<in> set (rpc_tasks n)"
proof -
  have "w \<in> set (vote_work k) \<longleftrightarrow> k = VoteTask w" for k by (cases k) auto
  then show ?thesis by (auto simp: vote_works_def)
qed

lemma vote_counted_set:
  assumes n: "node_inv E members s i n" and w: "VoteTask w \<in> set (rpc_tasks n)"
    and r: "(node_ID (vw_peer w), VoteRpc (vw_args w), VoteRep r) \<in> replies s" "rvr_VoteGranted r"
  obtains S where "S \<subseteq> ids members" "card S = votesReceived n ! vw_counter w + 1"
    "\<forall>p\<in>S. (vw_savedTerm w, i) \<in> votes_of s p"
    "\<forall>v\<in>set (vote_works (drop_task (VoteTask w) n)). vw_counter v = vw_counter w \<longrightarrow>
       vw_savedTerm v = vw_savedTerm w \<and> node_ID (vw_peer v) \<notin> S"
proof -
  let ?c = "vw_counter w" and ?p = "node_ID (vw_peer w)" and ?f = "\<lambda>w. (vw_counter w, node_ID (vw_peer w))"
  have wv: "w \<in> set (vote_works n)" using w by (simp add: set_vote_works)
  have ok: "?c < length (votesReceived n)" "?p \<in> ids members" "rv_Term (vw_args w) = int (vw_savedTerm w)"
    "rv_CandidateID (vw_args w) = i"
    using n wv by (auto simp: node_inv_def voting_ok_def vote_work_ok_def)
  have "counter_ok members s i n ?c" using n ok(1) by (simp add: node_inv_def voting_ok_def)
  then obtain t S where S: "S \<subseteq> ids members" "card S = votesReceived n ! ?c" "\<forall>p\<in>S. (t, i) \<in> votes_of s p"
    "\<forall>v\<in>set (vote_works n). vw_counter v = ?c \<longrightarrow> vw_savedTerm v = t \<and> node_ID (vw_peer v) \<notin> S"
    unfolding counter_ok_def by blast
  have t: "t = vw_savedTerm w" "?p \<notin> S" using S(4) wv by auto
  have g: "(t, i) \<in> votes_of s ?p" using r ok(3,4) by (auto simp: t votes_of_def granted_def)
  have fin: "finite S" by (rule finite_subset [OF S(1)]) (simp add: ids_def)
  have d: "distinct (map ?f (w # vote_works (drop_task (VoteTask w) n)))"
  proof -
    have "mset (map ?f (vote_works n)) = mset (map ?f (w # vote_works (drop_task (VoteTask w) n)))"
      using arg_cong [OF vote_works_drop_mset [OF w], of "image_mset ?f"] by simp
    moreover have "distinct (map ?f (vote_works n))" using n by (simp add: node_inv_def voting_ok_def)
    ultimately show ?thesis using mset_eq_imp_distinct_iff by blast
  qed
  have "vw_savedTerm v = vw_savedTerm w \<and> node_ID (vw_peer v) \<notin> insert ?p S"
    if v: "v \<in> set (vote_works (drop_task (VoteTask w) n))" "vw_counter v = ?c" for v
  proof -
    have "v \<in> set (vote_works n)" using v(1) vote_works_drop(1) by blast
    then have "vw_savedTerm v = t" "node_ID (vw_peer v) \<notin> S" using S(4) v(2) by auto
    moreover have "?f v \<noteq> ?f w" using d v(1) by (auto simp: image_iff)
    ultimately show ?thesis using t(1) v(2) by auto
  qed
  then show ?thesis
    using that [of "insert ?p S"] S(1-3) ok(2) t g fin by auto
qed

lemma counted_node_inv:
  assumes n: "node_inv E members s i n" and w: "VoteTask w \<in> set (rpc_tasks n)"
    and r: "(node_ID (vw_peer w), VoteRpc (vw_args w), VoteRep r) \<in> replies s" "rvr_VoteGranted r"
  shows "node_inv E members s i (counted w n)"
proof -
  let ?n0 = "drop_task (VoteTask w) n" and ?c = "vw_counter w"
  have n0: "node_inv E members s i ?n0" using n by (rule node_inv_drop_task)
  have c: "?c < length (votesReceived n)"
    using n w by (auto simp: node_inv_def voting_ok_def vote_work_ok_def simp flip: set_vote_works)
  obtain S where S: "S \<subseteq> ids members" "card S = votesReceived n ! ?c + 1"
    "\<forall>p\<in>S. (vw_savedTerm w, i) \<in> votes_of s p"
    "\<forall>v\<in>set (vote_works ?n0). vw_counter v = ?c \<longrightarrow> vw_savedTerm v = vw_savedTerm w \<and> node_ID (vw_peer v) \<notin> S"
    using vote_counted_set [OF n w r] by metis
  have vw: "vote_works (counted w n) = vote_works ?n0"
    by (simp add: counted_def vote_works_def rpc_tasks_def)
  have "counter_ok members s i (counted w n) d" if "d < length (votesReceived n)" for d
  proof (cases "d = ?c")
    case True
    then show ?thesis
      using S c unfolding counter_ok_def vw
      by (intro exI [of _ "vw_savedTerm w"] exI [of _ S]) (simp add: counted_def)
  next
    case False
    have "counter_ok members s i ?n0 d" using n0 that by (simp add: node_inv_def voting_ok_def)
    with False show ?thesis unfolding counter_ok_def vw by (simp add: counted_def)
  qed
  then have "voting_ok members s i (counted w n)"
    using n0 by (simp add: node_inv_def voting_ok_def vw vote_work_ok_def)
  then show ?thesis
    using n0 by (simp add: node_inv_def votes_kept_def term_bounds_def views_def sent_ok_def)
qed

lemma node_inv_state:
  assumes "node_inv E members s i n" "claim members s (currentTerm n) i"
  shows "node_inv E members s i (n\<lparr>state := st\<rparr>)"
proof -
  have t: "rpc_tasks (n\<lparr>state := st\<rparr>) = rpc_tasks n" by (simp add: rpc_tasks_def)
  then have "voting_ok members s i (n\<lparr>state := st\<rparr>)"
    using assms by (intro voting_ok_cong [OF t]) (simp_all add: node_inv_def)
  with assms t show ?thesis
    by (simp add: node_inv_def votes_kept_def term_bounds_def views_def sent_ok_def)
qed

lemma vote_reply_node_inv:
  assumes n: "node_inv E members s i n" and w: "VoteTask w \<in> set (spawned n)" and i: "i \<in> ids members"
    and r: "(node_ID (vw_peer w), VoteRpc (vw_args w), VoteRep r) \<in> replies s" "reply_ok (VoteRep r)"
  shows "node_inv E members s i (handleVoteReply E now w r (drop_task (VoteTask w) n))"
proof -
  let ?n0 = "drop_task (VoteTask w) n"
  have n0: "node_inv E members s i ?n0" using n by (rule node_inv_drop_task)
  have w': "VoteTask w \<in> set (rpc_tasks n)" using w by (simp add: rpc_tasks_def)
  have cn: "?n0\<lparr>votesReceived := (votesReceived ?n0)[vw_counter w := votesReceived ?n0 ! vw_counter w + 1]\<rparr> = counted w n"
    by (simp add: counted_def)
  from refl [of "handleVoteReply E now w r ?n0"] show ?thesis
  proof (cases rule: handleVoteReply_cases)
    case follows
    then show ?thesis using r(2) n0 by (auto simp: reply_ok_def intro: node_inv_follows)
  next
    case counted
    then show ?thesis using counted_node_inv [OF n w' r(1)] cn by simp
  next
    case won
    obtain S where S: "S \<subseteq> ids members" "card S = votesReceived n ! vw_counter w + 1"
      "\<forall>p\<in>S. (vw_savedTerm w, i) \<in> votes_of s p"
      using vote_counted_set [OF n w' r(1) won(3)] by metis
    have q: "vw_quorum w = length members div 2 + 1"
      using n w' by (auto simp: node_inv_def voting_ok_def vote_work_ok_def simp flip: set_vote_works)
    have "claim members s (vw_savedTerm w) i"
      unfolding claim_def using S won(4) q i by (auto intro!: exI [of _ S])
    then have "node_inv E members s i ((counted w n)\<lparr>state := Leader\<rparr>)"
      using counted_node_inv [OF n w' r(1) won(3)] won(2) by (intro node_inv_state) simp_all
    moreover have "keeps E ((counted w n)\<lparr>state := Leader\<rparr>) (handleVoteReply E now w r ?n0)"
      using won(5) by (simp add: counted_def)
    ultimately show ?thesis using node_inv_keeps by blast
  qed
qed

section \<open>Answering requests\<close>

lemma int64_less: "int64 i < 2 ^ 63"
proof -
  have "(i + 2 ^ 63) mod 2 ^ 64 < (2 ^ 64 :: int)" by (rule pos_mod_bound) simp
  then show ?thesis by (simp add: int64_def)
qed

lemma int64_less' [simp]: "int64 i < 9223372036854775808"
  using int64_less [of i] by simp

lemma HandleRequestVote_reply_term:
  assumes "HandleRequestVote E now req n = (reply, err, n')"
  shows "rvr_Term reply < 2 ^ 63"
  using assms unfolding HandleRequestVote_def Let_def
  by (auto split: if_split_asm prod.split_asm option.split_asm)

lemma checkPrevLog_term: "checkPrevLog req reply n = Some r \<Longrightarrow> aer_Term r = aer_Term reply"
  unfolding checkPrevLog_def Let_def by (auto split: if_split_asm sum.split_asm)

lemma HandleAppendEntries_reply_term:
  assumes "HandleAppendEntries E now req n = (reply, err, n')"
  shows "aer_Term reply < 2 ^ 63"
  using assms unfolding HandleAppendEntries_def Let_def
  by (auto split: if_split_asm prod.split_asm option.split_asm sum.split_asm dest: checkPrevLog_term)

lemma HandleInstallSnapshot_reply_term:
  assumes "HandleInstallSnapshot E now req n = (reply, err, n')"
  shows "isr_Term reply < 2 ^ 63"
  using assms unfolding HandleInstallSnapshot_def Let_def
  by (auto split: if_split_asm prod.split_asm option.split_asm bool.split_asm)

lemma votes_of_ids:
  assumes "net_inv Env members s" "i \<in> ids members" "g \<in> votes_of s i"
  shows "snd g \<in> ids members"
proof (cases "g \<in> candidacies s i")
  case True
  then show ?thesis using assms(2) by (auto simp: candidacies_def)
next
  case False
  then obtain a r where "(i, VoteRpc a, VoteRep r) \<in> replies s" and c: "rv_CandidateID a = snd g"
    using assms(3) by (auto simp: votes_of_def granted_def)
  then have "(i, VoteRpc a) \<in> requests s" using assms(1) by (auto simp: net_inv_def)
  then have "request_ok members s (VoteRpc a)" using assms(1) by (auto simp: net_inv_def)
  then show ?thesis using c by (auto simp: request_ok_def)
qed

lemma vote_granted_inv:
  assumes inv: "net_inv Env members s" and i: "i \<in> ids members" and n1: "node_inv (Env i) members s i n1"
    and q: "(i, VoteRpc a) \<in> requests s" and t: "rv_Term a = int (currentTerm n1)"
    and later: "\<forall>g\<in>votes_of s i. later g (currentTerm n1, rv_CandidateID a)"
    and v: "voted_durably (Env i) (currentTerm n1) (rv_CandidateID a) n1 n'"
    and n': "votesReceived n' = votesReceived n1" "rpc_tasks n' = rpc_tasks n1"
      "state n' = state n1 \<or> state n' = Follower"
    and r: "reply_ok (VoteRep r)"
  shows "net_inv Env members ((settle (Env i) i n' s)
      \<lparr>replies := replies s \<union> {(i, VoteRpc a, rep) |rep. Some (VoteRep r) = Some rep \<and> \<not> crashed (disk n')}\<rparr>)"
proof -
  let ?t = "currentTerm n1" and ?c = "rv_CandidateID a"
  let ?P = "{(i, VoteRpc a, rep) |rep. Some (VoteRep r) = Some rep \<and> \<not> crashed (disk n')}"
  define s' where "s' = (settle (Env i) i n' s)\<lparr>replies := replies s \<union> ?P\<rparr>"
  have tb: "?t < 2 ^ 63" using n1 by (simp add: node_inv_def term_bounds_def)
  have c: "currentTerm n' = ?t" using v by (simp add: voted_durably_def)
  have vn: "votes_kept (Env i) (votes_of s i) n' \<and> term_bounds (Env i) n'"
    using voted_node [OF voted_durably_voted [OF v] n1 tb later] .
  have vk: "votes_kept (Env i) (insert (?t, ?c) (votes_of s i)) n'"
    using v n1 later by (simp add: voted_durably_def node_inv_def)
  have ext: "extends s s'" by (auto simp: s'_def settle_def extends_def)
  have sent: "sent_ok (Env i) s n'" using n1 n'(2) by (simp add: node_inv_def sent_ok_def)
  have vo: "voting_ok members s i n'"
    using n1 n' c by (intro voting_ok_cong [OF n'(2,1)]) (auto simp: node_inv_def voting_ok_def)
  have rq: "requests s' = requests s"
  proof -
    have "q \<in> requests s" if "k \<in> set (spawned n')" "task_rpc (Env i) k = Some q" for k q
      using that task_rpc_is_rpc [OF that(2)] sent by (cases q) (auto simp: sent_ok_def rpc_tasks_def)
    then show ?thesis by (auto simp: s'_def settle_def)
  qed
  have sub: "votes_of s' i \<subseteq> insert (?t, ?c) (votes_of s i)"
  proof -
    have "candidacies s' i = candidacies s i" by (simp add: candidacies_def rq)
    moreover have "granted s' i \<subseteq> insert (?t, ?c) (granted s i)"
      using t by (auto simp: granted_def s'_def)
    ultimately show ?thesis by (auto simp: votes_of_def)
  qed
  have "one_vote (votes_of s' i)"
    using one_vote_insert [OF _ later sub] inv i by (simp add: net_inv_def proc_inv_def)
  then have up: "votes_kept (Env i) (votes_of s' i) n' \<and> voting_ok members s' i n' \<and> one_vote (votes_of s' i)"
    using votes_kept_mono [OF vk sub] voting_ok_mono [OF ext vo] by blast
  have "net_inv Env members s'"
    by (rule settle_inv [OF inv i s'_def]) (use vn up q r sent in \<open>auto simp: sent_ok_def\<close>)
  then show ?thesis by (simp add: s'_def)
qed

lemma vote_served_inv:
  assumes inv: "net_inv Env members s" and wf: "wf_cluster Env members" and i: "i \<in> ids members"
    and n: "node_inv (Env i) members s i n" and q: "(i, VoteRpc a) \<in> requests s"
    and run: "HandleRequestVote (Env i) now a n = (rep, err, n')"
    and r: "r = (if err = None then Some (VoteRep rep) else None)"
  shows "net_inv Env members ((settle (Env i) i n' s)
      \<lparr>replies := replies s \<union> {(i, VoteRpc a, rep) |rep. r = Some rep \<and> \<not> crashed (disk n')}\<rparr>)"
proof -
  have rep: "reply_ok (VoteRep rep)"
    using HandleRequestVote_reply_term [OF run] by (simp add: reply_ok_def)
  have "request_ok members s (VoteRpc a)" using inv q by (auto simp: net_inv_def)
  then obtain t where t: "t < 2 ^ 63" "rv_Term a = int t" "rv_CandidateID a \<in> ids members"
    by (auto simp: request_ok_def)
  have ct: "int64 (int (currentTerm n)) = int (currentTerm n)"
    using n by (simp add: node_inv_def term_bounds_def)
  from run show ?thesis
  proof (cases rule: HandleRequestVote_cases)
    case stale
    with n rep show ?thesis by (intro settle_served [OF inv i _ q]) (auto simp: r split: if_splits)
  next
    case (current n1)
    have tm: "rv_Term a = int (currentTerm n1)"
      using current(1) t ct by (auto simp: stepped_down_def)
    have n1: "node_inv (Env i) members s i n1"
    proof (cases "n1 = n")
      case False
      have "uint64 (rv_Term a) = t" using t by simp
      then have "stepped_down (Env i) t n n1" "currentTerm n < t" using False current(1) ct t by auto
      then show ?thesis using t(1) n by (rule node_inv_stepped_down)
    qed (simp add: n)
    show ?thesis
    proof (cases "n' = n1 \<and> \<not> rvr_VoteGranted rep")
      case True
      with n1 rep show ?thesis by (intro settle_served [OF inv i _ q]) (auto simp: r split: if_splits)
    next
      case False
      then have voted: "votedFor n1 = [] \<or> votedFor n1 = rv_CandidateID a"
        "votesReceived n' = votesReceived n1" "rpc_tasks n' = rpc_tasks n1" "state n' = state n1 \<or> state n' = Follower"
        "if rvr_VoteGranted rep then voted_durably (Env i) (currentTerm n1) (rv_CandidateID a) n1 n' \<and> err = None
         else voted (Env i) (currentTerm n1) (rv_CandidateID a) n1 n' \<and> err \<noteq> None"
        using current(2) by auto
      have later: "\<forall>g\<in>votes_of s i. later g (currentTerm n1, rv_CandidateID a)"
      proof
        fix g assume g: "g \<in> votes_of s i"
        then have "later g (currentTerm n1, votedFor n1)" using n1 by (simp add: node_inv_def votes_kept_def)
        moreover have "snd g \<noteq> []" using votes_of_ids [OF inv i g] wf by (auto simp: wf_cluster_def ids_def)
        ultimately show "later g (currentTerm n1, rv_CandidateID a)"
          using voted(1) by (auto simp: later_def)
      qed
      show ?thesis
      proof (cases "rvr_VoteGranted rep")
        case True
        then show ?thesis
          using voted vote_granted_inv [OF inv i n1 q tm later _ voted(2-4) rep] by (simp add: r)
      next
        case False
        have "node_inv (Env i) members s i n'"
          using voted False n1 by (intro voted_node_inv [OF _ n1 _ later])
            (auto simp: node_inv_def term_bounds_def voting_ok_def)
        then show ?thesis
          using voted(5) False by (intro settle_served [OF inv i _ q]) (auto simp: r)
      qed
    qed
  qed
qed

lemma leader_msg_bound: "leader_msg members s t l \<Longrightarrow> t < 2 ^ 63"
  by (auto simp: leader_msg_def)

lemma served_inv:
  assumes inv: "net_inv Env members s" and wf: "wf_cluster Env members" and i: "i \<in> ids members"
    and n: "node_inv (Env i) members s i n" and q: "(i, q) \<in> requests s" and run: "serve (Env i) now q n = (r, n')"
  shows "net_inv Env members ((settle (Env i) i n' s)
      \<lparr>replies := replies s \<union> {(i, q, rep) |rep. r = Some rep \<and> \<not> crashed (disk n')}\<rparr>)"
proof -
  have ok: "request_ok members s q" using inv q by (auto simp: net_inv_def)
  show ?thesis
  proof (cases q)
    case (VoteRpc a)
    obtain rep err where "HandleRequestVote (Env i) now a n = (rep, err, n')"
      "r = (if err = None then Some (VoteRep rep) else None)"
      using run by (auto simp: serve_def VoteRpc split: prod.splits)
    then show ?thesis using vote_served_inv [OF inv wf i n] q by (simp add: VoteRpc)
  next
    case (AppendRpc a)
    obtain rep err where h: "HandleAppendEntries (Env i) now a n = (rep, err, n')"
      "r = (if err = None then Some (AppendRep rep) else None)"
      using run by (auto simp: serve_def AppendRpc split: prod.splits)
    have "leader_msg members s (ae_Term a) (ae_LeaderID a)" using ok by (simp add: request_ok_def AppendRpc)
    from node_inv_follows [OF HandleAppendEntries_follows [OF h(1)] leader_msg_bound [OF this] n] show ?thesis
      using HandleAppendEntries_reply_term [OF h(1)] h(2)
      by (intro settle_served [OF inv i _ q]) (auto simp: reply_ok_def split: if_splits)
  next
    case (SnapshotRpc a)
    obtain rep err where h: "HandleInstallSnapshot (Env i) now a n = (rep, err, n')"
      "r = (if err = None then Some (SnapshotRep rep) else None)"
      using run by (auto simp: serve_def SnapshotRpc split: prod.splits)
    have "leader_msg members s (is_Term a) (is_LeaderID a)" using ok by (simp add: request_ok_def SnapshotRpc)
    from node_inv_follows [OF HandleInstallSnapshot_follows [OF h(1)] leader_msg_bound [OF this] n] show ?thesis
      using HandleInstallSnapshot_reply_term [OF h(1)] h(2)
      by (intro settle_served [OF inv i _ q]) (auto simp: reply_ok_def split: if_splits)
  qed
qed

section \<open>The invariant holds\<close>

lemma keeps_spawn: "filter is_rpc ks = [] \<Longrightarrow> keeps E n (n\<lparr>spawned := spawned n @ ks\<rparr>)"
  by (rule keepsI) (simp_all add: rpc_tasks_def)

lemma replies_bound: "net_inv Env members s \<Longrightarrow> (j, q, r) \<in> replies s \<Longrightarrow> reply_ok r"
  by (auto simp: net_inv_def)

lemma local_inv:
  assumes inv: "net_inv Env members s" and wf: "wf_cluster Env members" and i: "i \<in> ids members"
    and n: "node_inv (Env i) members s i n" and step: "node_step (Env i) members (replies s) n n'"
  shows "net_inv Env members (settle (Env i) i n' s)"
proof -
  have self: "self (Env i) = i" using wf by (simp add: wf_cluster_def)
  note drop = node_inv_drop_task [OF n]
  have k: "net_inv Env members (settle (Env i) i n' s)" if "keeps (Env i) m n'" "node_inv (Env i) members s i m" for m n'
    using inv i node_inv_keeps [OF that] by (rule settle_node_inv)
  from step show ?thesis
  proof cases
    case (propose nodes now data r)
    then show ?thesis using k [OF keeps_Replicate n] by blast
  next
    case (giveUp j)
    then show ?thesis using k [OF keeps_small_steps(1) n] by simp
  next
    case batch
    then show ?thesis using k [OF keeps_batchTick n] by simp
  next
    case (timer nodes now timeout)
    have "keeps (Env i) n (n\<lparr>spawned := spawned n @ [BroadcastTask], electionResetEvent := now\<rparr>)"
      by (rule keepsI) (simp_all add: rpc_tasks_def)
    then show ?thesis
      using timer k [OF _ n] election_inv [OF inv i n wf timer(3,4)]
      by (auto simp: timerTick_def Let_def)
  next
    case (broadcast nodes)
    then show ?thesis using broadcast_inv [OF inv i drop self] by simp
  next
    case (voteReply w r now)
    then show ?thesis
      using vote_reply_node_inv [OF n _ i] replies_bound [OF inv] settle_node_inv [OF inv i] by blast
  next
    case (appendReply nodes w r now)
    have "aer_Term r < 2 ^ 63" using replies_bound [OF inv appendReply(4)] by (simp add: reply_ok_def)
    from node_inv_follows [OF handleAppendReply_follows this drop] show ?thesis
      using appendReply(1) settle_node_inv [OF inv i] by simp
  next
    case (snapshotReply w r now)
    have "isr_Term r < 2 ^ 63" using replies_bound [OF inv snapshotReply(3)] by (simp add: reply_ok_def)
    from node_inv_follows [OF handleSnapshotReply_follows this drop] show ?thesis
      using snapshotReply(1) settle_node_inv [OF inv i] by simp
  next
    case (lost k)
    then show ?thesis using settle_node_inv [OF inv i drop] by simp
  next
    case (compact meta)
    then show ?thesis using k [OF keeps_spawn n] by simp
  next
    case (compacting c c' m)
    have "keeps (Env i) (drop_task (CompactTask c) n) n'"
      using keeps_trans [OF keeps_compactionStep [OF compacting(3)] keeps_spawn] compacting(1)
      by (simp split: option.split)
    then show ?thesis using drop by (rule k)
  next
    case stop
    then show ?thesis using k [OF keeps_small_steps(2) n] by simp
  qed
qed

lemma crash_inv:
  assumes inv: "net_inv Env members s" and up: "procs s i = Up n"
  shows "net_inv Env members (s\<lparr>procs := (procs s)(i := Down (disk n) (machine n))\<rparr>)"
proof (rule net_inv_update [OF inv])
  have v: "votes_of (s\<lparr>procs := x\<rparr>) = votes_of s" for x
    by (simp add: fun_eq_iff votes_of_def granted_def candidacies_def)
  assume "i \<in> ids members"
  then have "node_inv (Env i) members s i n" "one_vote (votes_of s i)"
    using inv up by (force simp: net_inv_def)+
  then show "proc_inv (Env i) members (s\<lparr>procs := (procs s)(i := Down (disk n) (machine n))\<rparr>) i (Down (disk n) (machine n))"
    by (simp add: disk_inv_def v node_inv_def votes_kept_def term_bounds_def views_def)
qed (auto simp: extends_def)

lemma os_MkdirAll_files: "os_MkdirAll s = (r, t) \<Longrightarrow> cur t = cur s \<and> poss t = poss s"
  by (auto simp: os_MkdirAll_def dest!: syscall_files split: prod.splits fault.splits)

lemma NewFileLogStore_files:
  assumes "NewFileLogStore crc p s = (r, t)"
  shows "cur t = cur s \<and> poss t = poss s"
proof -
  obtain a u b v where uv: "os_MkdirAll s = (a, u)" "os_ReadFile p u = (b, v)" by fastforce
  then have "t = v" using assms unfolding NewFileLogStore_def
    by (auto split: sum.split_asm error.split_asm)
  with uv show ?thesis using os_MkdirAll_files [OF uv(1)] os_ReadFile_files [OF uv(2)] by simp
qed

lemma NewFileStableStore_files:
  assumes "NewFileStableStore crc p s = (r, t)"
  shows "cur t = cur s \<and> poss t = poss s"
proof -
  obtain a u b v where uv: "os_MkdirAll s = (a, u)" "GetState crc p u = (b, v)" by fastforce
  then have "t = v" using assms unfolding NewFileStableStore_def by (auto split: sum.split_asm)
  with uv show ?thesis using os_MkdirAll_files [OF uv(1)] GetState_files [OF uv(2)] by simp
qed

text \<open>A node that has started has read its vote state from the disk and changed nothing there.\<close>

lemma Start_spec:
  assumes "Start E now n = (None, n')"
  shows "cur (disk n') = cur (disk n) \<and> poss (disk n') = poss (disk n)
    \<and> stable_view (crc32 E) (cur (disk n) (stablePath E)) = Inr (currentTerm n', votedFor n')
    \<and> state n' = Follower \<and> spawned n' = spawned n \<and> votesReceived n' = votesReceived n
    \<and> logStore n' = logStore n"
proof -
  obtain tm v d where g: "GetState (crc32 E) (stablePath E) (disk n) = (Inr (tm, v), d)"
    using assms unfolding Start_def by (auto split: prod.split_asm sum.split_asm)
  obtain r d' where ld: "LoadSnapshot (snapshotPath E) d = (r, d')" by fastforce
  define n2 where n2: "n2 = n\<lparr>disk := d', currentTerm := tm, votedFor := v\<rparr>"
  have l: "nodeLoadSnapshot E (n\<lparr>disk := d, currentTerm := tm, votedFor := v\<rparr>) = (r, n2)"
    by (simp add: nodeLoadSnapshot_def ld n2)
  have d': "cur d' = cur d" "poss d' = poss d" using LoadSnapshot_files [OF ld] by simp_all
  obtain meta data where r: "r = Inr (meta, data)"
    using assms g l unfolding Start_def Let_def by (auto split: sum.split_asm)
  have "disk n' = d' \<and> currentTerm n' = tm \<and> votedFor n' = v \<and> state n' = Follower
      \<and> spawned n' = spawned n \<and> votesReceived n' = votesReceived n \<and> logStore n' = logStore n"
    using assms g l r n2 unfolding Start_def Let_def
    by (auto split: sum.split_asm if_split_asm)
  then show ?thesis using d' GetState_files [OF g] GetState_view [OF g] by simp
qed

lemma bootNode_spec:
  assumes "bootNode E now m d = Inr n"
  shows "cur (disk n) = cur d \<and> poss (disk n) = poss d
    \<and> stable_view (crc32 E) (cur d (stablePath E)) = Inr (currentTerm n, votedFor n)
    \<and> state n = Follower \<and> spawned n = [] \<and> votesReceived n = []"
proof -
  obtain ls d1 where 1: "NewFileLogStore (crc32 E) (walPath E) d = (Inr ls, d1)"
    using assms unfolding bootNode_def by (auto split: prod.split_asm sum.split_asm)
  then obtain d2 where 2: "NewFileStableStore (crc32 E) (stablePath E) d1 = (Inr (), d2)"
    using assms unfolding bootNode_def by (auto split: prod.split_asm sum.split_asm)
  obtain e d3 where 3: "os_MkdirAll d2 = (e, d3)" by fastforce
  have "Start E now (NewDurableRaftReplicator d3 ls m) = (None, n)"
    using assms 1 2 3 unfolding bootNode_def by (auto split: prod.split_asm option.split_asm)
  from Start_spec [OF this] show ?thesis
    using NewFileLogStore_files [OF 1] NewFileStableStore_files [OF 2] os_MkdirAll_files [OF 3]
    by (simp add: NewDurableRaftReplicator_def)
qed

lemma restart_inv:
  assumes inv: "net_inv Env members s" and i: "i \<in> ids members" and down: "procs s i = Down d m"
    and reboot: "reboot d d'" and boot: "bootNode (Env i) now m d' = Inr n"
  shows "net_inv Env members (settle (Env i) i n s)"
proof (rule settle_node_inv [OF inv i])
  note b = bootNode_spec [OF boot]
  have d: "disk_inv (Env i) s i d" using inv i down by (force simp: net_inv_def)
  have "cur d' (stablePath (Env i)) \<in> poss d (stablePath (Env i))"
    and p: "poss d' q = {cur d' q}" for q using reboot by (auto simp: reboot_def)
  then have v: "Inr (currentTerm n, votedFor n) \<in> stable_views (crc32 (Env i)) (stablePath (Env i)) d"
    using b by (auto simp: stable_views_def image_iff) metis
  have views: "views (Env i) n = {Inr (currentTerm n, votedFor n)}"
    using b p by (simp add: views_def stable_views_def)
  show "node_inv (Env i) members s i n"
    using d v b p
    by (auto simp: node_inv_def votes_kept_def wf_fs_def views term_bounds_def disk_inv_def sent_ok_def
        voting_ok_def vote_works_def rpc_tasks_def)
qed

lemma init_inv: "net_init s \<Longrightarrow> net_inv Env members s"
proof -
  assume init: "net_init s"
  have "proc_inv (Env i) members s i (procs s i)" for i
  proof -
    obtain d m where "procs s i = Down d m" "fresh_disk d" using init unfolding net_init_def by blast
    then show ?thesis
      using init by (auto simp: net_init_def disk_inv_def fresh_disk_def wf_fs_def one_vote_def
          stable_views_def stable_view_def votes_of_def granted_def candidacies_def)
  qed
  with init show ?thesis by (auto simp: net_init_def net_inv_def)
qed

lemma step_inv:
  assumes step: "net_step Env members s s'" and inv: "net_inv Env members s" and wf: "wf_cluster Env members"
  shows "net_inv Env members s'"
proof -
  have up: "node_inv (Env i) members s i n" if "i \<in> ids members" "procs s i = Up n" for i n
    using inv that by (force simp: net_inv_def)
  from step show ?thesis
  proof cases
    case (local i n n')
    then have i: "i \<in> ids members" by (simp add: ids_def)
    show ?thesis
      unfolding local(1) by (rule local_inv [OF inv wf i up [OF i local(3)] local(4)])
  next
    case (served i n q now r n')
    then have i: "i \<in> ids members" by (simp add: ids_def)
    show ?thesis
      unfolding served(1) by (rule served_inv [OF inv wf i up [OF i served(3)] served(4,5)])
  next
    case (crash i n)
    show ?thesis unfolding crash(1) by (rule crash_inv [OF inv crash(2)])
  next
    case (restart i d m d' now n)
    then have i: "i \<in> ids members" by (simp add: ids_def)
    show ?thesis
      unfolding restart(1) by (rule restart_inv [OF inv i restart(3-5)])
  qed
qed

lemma reachable_inv: "reachable Env members s \<Longrightarrow> wf_cluster Env members \<Longrightarrow> net_inv Env members s"
  by (induction rule: reachable.induct) (auto intro: init_inv step_inv)

section \<open>Quorums\<close>

locale quorum =
  fixes Quorum :: "'a set \<Rightarrow> bool"
  assumes intersect: "Quorum Q \<Longrightarrow> Quorum R \<Longrightarrow> Q \<inter> R \<noteq> {}"
begin

text \<open>If everybody votes at most once per term, two quorums elect the same candidate.\<close>

lemma one_winner:
  assumes "Quorum Q" "Quorum R" "\<forall>p\<in>Q. (t, c) \<in> votes p" "\<forall>p\<in>R. (t, d) \<in> votes p"
    and "\<And>p. p \<in> Q \<inter> R \<Longrightarrow> one_vote (votes p)"
  shows "c = d"
proof -
  obtain p where p: "p \<in> Q \<inter> R" using intersect [OF assms(1,2)] by blast
  then have "(t, c) \<in> votes p" "(t, d) \<in> votes p" using assms(3,4) by auto
  then show ?thesis using assms(5) [OF p] unfolding one_vote_def by blast
qed

end

definition majority :: "Node list \<Rightarrow> string set \<Rightarrow> bool" where
  "majority members S \<longleftrightarrow> S \<subseteq> ids members \<and> length members div 2 + 1 \<le> card S"

interpretation majority: quorum "majority members" for members
proof
  fix Q R assume q: "majority members Q" "majority members R"
  have fin: "finite (ids members)" and "card (ids members) \<le> length members"
    using card_length [of "map node_ID members"] by (simp_all add: ids_def)
  moreover have "card Q + card R > length members" using q by (auto simp: majority_def)
  moreover have "card (Q \<union> R) \<le> card (ids members)" using q fin by (intro card_mono) (auto simp: majority_def)
  moreover have "finite Q" "finite R" using q fin by (auto simp: majority_def intro: finite_subset)
  ultimately show "Q \<inter> R \<noteq> {}" using card_Un_disjoint [of Q R] by force
qed

section \<open>Election safety\<close>

lemma claim_unique:
  assumes inv: "net_inv Env members s" and c: "claim members s t k" "claim members s t l"
  shows "k = l"
proof (cases "length members = 1")
  case True
  then obtain m where "members = [m]" by (auto simp: length_Suc_conv)
  then show ?thesis using c by (auto simp: claim_def ids_def)
next
  case False
  then obtain Q R where q: "majority members Q" "majority members R"
    "\<forall>p\<in>Q. (t, k) \<in> votes_of s p" "\<forall>p\<in>R. (t, l) \<in> votes_of s p"
    using c by (auto simp: claim_def majority_def)
  moreover have "one_vote (votes_of s p)" if "p \<in> Q \<inter> R" for p
    using q that inv by (auto simp: net_inv_def proc_inv_def majority_def)
  ultimately show ?thesis by (rule majority.one_winner)
qed

text \<open>Who leads a term: a running leader, or the sender of a leader's message.\<close>

definition leads :: "Node list \<Rightarrow> 'm net \<Rightarrow> nat \<Rightarrow> string \<Rightarrow> bool" where
  "leads members s t l \<longleftrightarrow>
     (l \<in> ids members \<and> (\<exists>n. procs s l = Up n \<and> state n = Leader \<and> currentTerm n = t))
   \<or> (\<exists>j a. (j, AppendRpc a) \<in> requests s \<and> ae_Term a = int t \<and> ae_LeaderID a = l)
   \<or> (\<exists>j a. (j, SnapshotRpc a) \<in> requests s \<and> is_Term a = int t \<and> is_LeaderID a = l)"

lemma leads_claim:
  assumes inv: "net_inv Env members s" and l: "leads members s t l"
  shows "claim members s t l"
proof -
  have rq: "request_ok members s q" if "(j, q) \<in> requests s" for j q using inv that by (auto simp: net_inv_def)
  have nd: "node_inv (Env i) members s i n" if "i \<in> ids members" "procs s i = Up n" for i n
    using inv that by (force simp: net_inv_def)
  show ?thesis
    using l nd rq [of _ "AppendRpc _"] rq [of _ "SnapshotRpc _"]
    by (fastforce simp: leads_def node_inv_def voting_ok_def request_ok_def leader_msg_def)
qed

text \<open>
  C1. Election safety: in every reachable state of the cluster, whatever disk operations failed,
  processes crashed and restarted and messages were lost, delayed, duplicated or reordered, at
  most one node leads a term: two running leaders of the same term, and the senders of two
  leader messages (however old) of the same term, are the same node.
\<close>

theorem election_safety:
  assumes "wf_cluster Env members" and "reachable Env members s"
    and "leads members s t k" and "leads members s t l"
  shows "k = l"
proof -
  have inv: "net_inv Env members s" using assms(2,1) by (rule reachable_inv)
  show ?thesis using claim_unique [OF inv leads_claim [OF inv assms(3)] leads_claim [OF inv assms(4)]] .
qed

text \<open>
  C6. Votes are durable: in every reachable state, across crashes and restarts, a member has
  granted its vote to at most one candidate per term (its own candidacies included), and the
  term and vote of the running process, as well as every term and vote a restart could read from
  its disk, are never behind a vote it has granted.
\<close>

theorem votes_durable:
  assumes "wf_cluster Env members" and "reachable Env members s" and "i \<in> ids members"
  shows "one_vote (votes_of s i)
    \<and> (\<forall>n. procs s i = Up n \<longrightarrow> (\<forall>g\<in>votes_of s i. later g (currentTerm n, votedFor n)
         \<and> (\<forall>v. Inr v \<in> views (Env i) n \<longrightarrow> later g v)))
    \<and> (\<forall>d m. procs s i = Down d m \<longrightarrow> (\<forall>g\<in>votes_of s i.
         \<forall>v. Inr v \<in> stable_views (crc32 (Env i)) (stablePath (Env i)) d \<longrightarrow> later g v))"
proof -
  have "net_inv Env members s" using assms(2,1) by (rule reachable_inv)
  then have "proc_inv (Env i) members s i (procs s i)" using assms(3) by (simp add: net_inv_def)
  then show ?thesis by (cases "procs s i") (auto simp: node_inv_def votes_kept_def disk_inv_def)
qed

section \<open>A run\<close>

text \<open>A cluster of one: it boots on an empty disk, times out and leads term 1.\<close>

definition run_env :: "string \<Rightarrow> unit raft_env" where
  "run_env i = \<lparr>self = i, cfg = \<lparr>MaxBatchSize = 1, MaxBatchWaitTime = 0, SnapshotThresholdLogs = 0\<rparr>,
     crc32 = (\<lambda>_. 0), dataDir = ''d'', applyFn = (\<lambda>_ m. (None, m)), serializeFn = (\<lambda>_. Inr (Raw ''x'')),
     restoreFn = (\<lambda>_ m. (None, m))\<rparr>"

definition run_members :: "Node list" where
  "run_members = [\<lparr>node_ID = ''a'', node_Address = ''a:1'', node_Status = NodeStatusAlive, node_Metadata = []\<rparr>]"

definition run_net0 :: "unit net" where
  "run_net0 = \<lparr>procs = (\<lambda>_. Down blank_fs ()), requests = {}, replies = {}\<rparr>"

definition run_node1 :: "unit node" where
  "run_node1 = NewDurableRaftReplicator blank_fs empty_log ()"

lemma run_boot: "bootNode (run_env ''a'') 0 () blank_fs = Inr run_node1"
  by (simp add: bootNode_def NewFileLogStore_def os_MkdirAll_def syscall_def blank_fs_def os_ReadFile_def
      NewFileStableStore_def GetState_def Start_def nodeLoadSnapshot_def LoadSnapshot_def LastIndexAndTerm_def
      empty_log_def run_node1_def NewDurableRaftReplicator_def)

definition run_node2 :: "unit node" where
  "run_node2 = timerTick (run_env ''a'') 1000000000 300000000 (Inr run_members) run_node1"

lemma run_node2: "state run_node2 = Leader" "currentTerm run_node2 = 1" "\<not> crashed (disk run_node2)"
proof -
  obtain r d where w: "writeFileAtomically ''d/raft_stable.json'' (stable_blob (\<lambda>_. 0) 1 ''a'') blank_fs = (r, d)"
    by fastforce
  have up: "faults blank_fs = []" "\<not> crashed blank_fs" by (simp_all add: blank_fs_def)
  have r: "r = None" "\<not> crashed d"
    using writeFileAtomically_no_fault(1,2) [OF up, of "''d/raft_stable.json''" "stable_blob (\<lambda>_. 0) 1 ''a''"]
    unfolding w by simp_all
  have "inc64 0 = 1" by (simp add: inc64_def)
  then show "state run_node2 = Leader" "currentTerm run_node2 = 1" "\<not> crashed (disk run_node2)"
    using w r
    by (simp_all add: run_node2_def timerTick_def run_node1_def NewDurableRaftReplicator_def
        startElectionLocked_def persistStableLocked_def SetState_def run_env_def stablePath_def
        run_members_def becomeLeaderLocked_def getLastLogInfoLocked_def LastIndexAndTerm_def empty_log_def)
qed

definition run_net1 :: "unit net" where
  "run_net1 = settle (run_env ''a'') ''a'' run_node1 run_net0"

definition run_net2 :: "unit net" where
  "run_net2 = settle (run_env ''a'') ''a'' run_node2 run_net1"

lemma run_reachable: "reachable run_env run_members run_net2"
proof -
  have 0: "reachable run_env run_members run_net0"
    by (rule reachable.init) (auto simp: net_init_def run_net0_def fresh_disk_def blank_fs_def)
  have up: "procs run_net1 ''a'' = Up run_node1"
    by (simp add: run_net1_def settle_def run_node1_def NewDurableRaftReplicator_def blank_fs_def)
  have "net_step run_env run_members run_net0 run_net1"
    unfolding run_net1_def
    by (rule net_step.restart [where d = blank_fs and m = "()" and d' = blank_fs and now = 0])
      (auto simp: run_members_def run_net0_def reboot_def run_boot, auto simp: blank_fs_def)
  with 0 have 1: "reachable run_env run_members run_net1" by (rule reachable.step)
  have "node_step (run_env ''a'') run_members (replies run_net1) run_node1 run_node2"
    unfolding run_node2_def
    by (rule node_step.timer) (simp_all add: nodes_result_def run_node1_def NewDurableRaftReplicator_def)
  then have "net_step run_env run_members run_net1 run_net2"
    unfolding run_net2_def by (intro net_step.local [OF _ up]) (simp add: run_members_def)
  with 1 show ?thesis by (rule reachable.step)
qed

lemma run_cluster: "wf_cluster run_env run_members"
  by (simp add: wf_cluster_def run_env_def run_members_def)

lemma run_leads: "leads run_members run_net2 1 ''a''"
  using run_node2 by (simp add: leads_def run_net2_def settle_def ids_def run_members_def)

theorem election_safety_witness:
  "wf_cluster run_env run_members \<and> reachable run_env run_members run_net2
   \<and> leads run_members run_net2 1 ''a'' \<and> \<not> leads run_members run_net2 1 ''b''"
  using run_cluster run_reachable run_leads
    election_safety [OF run_cluster run_reachable run_leads, of "''b''"] by auto

theorem votes_durable_witness:
  "wf_cluster run_env run_members \<and> reachable run_env run_members run_net2
   \<and> ''a'' \<in> ids run_members \<and> one_vote (votes_of run_net2 ''a'')"
  using run_cluster run_reachable votes_durable [OF run_cluster run_reachable, of "''a''"]
  by (simp add: ids_def run_members_def)

end
