(* ===== verification/Server.thy ===== *)
theory Server
  imports ControlPlane RaftNet
begin

text \<open>
  The server of a node (\<^verbatim>\<open>internal/server/hyperconverged/hyperconverged_server.go\<close>, messages in
  \<^verbatim>\<open>internal/server/messages.go\<close>): it routes a message to the control plane, the data plane or the
  consensus handler and turns the outcome into a response.

  A host has the Raft node, whose machine is the metadata service with the disk its database lies
  on, the cluster as seen by the data plane (its own chunk service is the node at its own address)
  and the notices that were sent without waiting.  A handler returns the response, or the panic
  that takes the process down; every other error becomes a response.  Payloads have the type that is
  registered for their message.  A response body is the value it encodes.
\<close>

section \<open>Messages\<close>

datatype request =
    GetAttrRequest string
  | SetAttrRequest string "32 word option" "32 word option" "32 word option" "int option" "int option"
  | LookupRequest string string
  | LookupPathRequest string
  | AccessRequest string "32 word" "32 word" "32 word"
  | ReadRequest string int int
  | WriteRequest string int bytes
  | CreateRequest string string "32 word" "32 word" "32 word"
  | MkdirRequest string string "32 word" "32 word" "32 word"
  | RemoveRequest string string
  | RmdirRequest string string
  | RenameRequest string string string string
  | ReadDirRequest string int int
  | ReadDirPlusRequest string int int
  | FsStatRequest
  | FsInfoRequest
  | TopologyRequest
  | ChunkMessage ChunkRequest
  | RaftMessage rpc
  | UnknownMessage string

datatype body =
    NoBody
  | ErrorText error
  | JsonAttributes Attributes
  | JsonString string
  | JsonBytes bytes
  | JsonInt int
  | JsonInode Inode
  | JsonReadDir "DirEntry list" int bool
  | JsonReadDirPlus "DirEntryPlus list" int bool
  | JsonFsStat FileSystemStats
  | JsonFsInfo FileSystemInfo
  | JsonTopology string
  | JsonRaft rpc_reply
  | RawBody bytes
  | UnknownType string

record Response =
  r_Code :: SandCode
  r_Body :: body

fun is_panic :: "error \<Rightarrow> bool" where
  "is_panic (Panic _) = True"
| "is_panic _ = False"

definition respond :: "body result \<Rightarrow> Response result" where
  "respond r =
     (case r of
        Inl e \<Rightarrow> if is_panic e then Inl e else Inr \<lparr>r_Code = code_of_error e, r_Body = ErrorText e\<rparr>
      | Inr b \<Rightarrow> Inr \<lparr>r_Code = CodeOK, r_Body = b\<rparr>)"

definition no_body :: "error option \<Rightarrow> body result" where
  "no_body e = (case e of None \<Rightarrow> Inr NoBody | Some e \<Rightarrow> Inl e)"

section \<open>The host\<close>

text \<open>
  What a server is built from: the store and the replicator of its metadata service, the Raft node's
  environment, the control and data plane, what nodes do with a chunk request, the hash, the order in
  which goroutines finish, its address and how it answers a topology request.
\<close>

record ('db, 's) server =
  sv_B :: "'db bbolt"
  sv_rep :: "'db replicate"
  sv_raft :: "('db service \<times> fs) raft_env"
  sv_cp :: control_plane
  sv_dp :: data_plane
  sv_serve :: "'s chunk_server"
  sv_sha :: "bytes \<Rightarrow> string"
  sv_sched :: "ChunkLocation list \<Rightarrow> ChunkLocation list"
  sv_self :: string
  sv_topology :: "Node list result \<Rightarrow> ('db service \<times> fs) node \<Rightarrow> string"

record ('db, 's) host =
  h_raft :: "('db service \<times> fs) node"
  h_world :: "'s world"
  h_outbox :: outbox

definition h_meta :: "('db, 's) host \<Rightarrow> 'db service" where
  "h_meta h = fst (machine (h_raft h))"

definition set_meta :: "'db service \<Rightarrow> ('db, 's) host \<Rightarrow> ('db, 's) host" where
  "set_meta s h = h\<lparr>h_raft := (h_raft h)\<lparr>machine := (s, snd (machine (h_raft h)))\<rparr>\<rparr>"

text \<open>What a call of a handler draws on: the context, fresh names, the clock and the cluster service's answer.\<close>

record call =
  c_ctx :: ctxt
  c_ctx' :: ctxt
  c_uuid1 :: string
  c_uuid2 :: string
  c_uuid3 :: string
  c_now :: int
  c_now' :: int
  c_nodes :: "Node list result"

section \<open>Handlers\<close>

definition handleGetAttr :: "('db, 's) server \<Rightarrow> call \<Rightarrow> string \<Rightarrow> ('db, 's) host \<Rightarrow> Response result \<times> ('db, 's) host" where
  "handleGetAttr S k inodeID h = (respond (map_sum id JsonAttributes (cpGetAttr (sv_B S) (c_ctx k) inodeID (h_meta h))), h)"

definition handleSetAttr ::
  "('db, 's) server \<Rightarrow> call \<Rightarrow> string \<Rightarrow> 32 word option \<Rightarrow> 32 word option \<Rightarrow> 32 word option \<Rightarrow> int option \<Rightarrow> int option
   \<Rightarrow> ('db, 's) host \<Rightarrow> Response result \<times> ('db, 's) host" where
  "handleSetAttr S k inodeID mode uid gid atime mtime h =
     (let (r, s) = cpSetAttr (sv_B S) (sv_rep S) (c_ctx k) (c_uuid1 k) (c_now k) inodeID mode uid gid atime mtime (h_meta h)
      in (respond (map_sum id JsonAttributes r), set_meta s h))"

definition handleLookup :: "('db, 's) server \<Rightarrow> call \<Rightarrow> string \<Rightarrow> string \<Rightarrow> ('db, 's) host \<Rightarrow> Response result \<times> ('db, 's) host" where
  "handleLookup S k parentID name h = (respond (map_sum id JsonString (cpLookup (sv_B S) (c_ctx k) parentID name (h_meta h))), h)"

definition handleLookupPath :: "('db, 's) server \<Rightarrow> call \<Rightarrow> string \<Rightarrow> ('db, 's) host \<Rightarrow> Response result \<times> ('db, 's) host" where
  "handleLookupPath S k path h = (respond (map_sum id JsonString (cpLookupPath (sv_B S) (c_ctx k) path (h_meta h))), h)"

definition handleAccess ::
  "('db, 's) server \<Rightarrow> call \<Rightarrow> string \<Rightarrow> 32 word \<Rightarrow> 32 word \<Rightarrow> 32 word \<Rightarrow> ('db, 's) host \<Rightarrow> Response result \<times> ('db, 's) host" where
  "handleAccess S k inodeID uid gid accessMask h =
     (respond (map_sum id (\<lambda>_. NoBody) (cpAccess (sv_B S) (c_ctx k) inodeID uid gid accessMask (h_meta h))), h)"

definition handleRead :: "('db, 's) server \<Rightarrow> call \<Rightarrow> string \<Rightarrow> int \<Rightarrow> int \<Rightarrow> ('db, 's) host \<Rightarrow> Response result \<times> ('db, 's) host" where
  "handleRead S k inodeID offset len h =
     (case PrepareFileRead (sv_B S) (c_ctx k) (sv_cp S) inodeID offset (h_meta h) of
        Inl e \<Rightarrow> (respond (Inl e), h)
      | Inr readCtx \<Rightarrow>
          if rc_ChunkID readCtx = [] then (respond (Inr (JsonBytes [])), h)
          else let (r, w) = ExecuteRead (sv_serve S) (sv_dp S) (rc_ChunkID readCtx) (rc_TargetNodes readCtx) (h_world h)
               in (respond (map_sum id JsonBytes r), h\<lparr>h_world := w\<rparr>))"

text \<open>The end of a failed write: the abort notices are sent (which cannot fail) and the error is the answer.\<close>

definition abortWrite :: "WriteContext \<Rightarrow> error \<Rightarrow> ('db, 's) host \<Rightarrow> Response result \<times> ('db, 's) host" where
  "abortWrite wc e h =
     (if is_panic e then (Inl e, h)
      else case AbortFileWrite (wc_TxnID wc) (wc_ChunkID wc) (wc_TargetNodes wc) of
             (Some _, msgs) \<Rightarrow> (respond (Inl (Errorf ''write failed AND abort failed'')), h\<lparr>h_outbox := h_outbox h @ msgs\<rparr>)
           | (None, msgs) \<Rightarrow> (respond (Inl e), h\<lparr>h_outbox := h_outbox h @ msgs\<rparr>))"

definition handleWrite :: "('db, 's) server \<Rightarrow> call \<Rightarrow> string \<Rightarrow> int \<Rightarrow> bytes \<Rightarrow> ('db, 's) host \<Rightarrow> Response result \<times> ('db, 's) host" where
  "handleWrite S k inodeID offset data h =
     (case PrepareFileWrite (sv_B S) (c_ctx k) (sv_cp S) (c_uuid1 k) (c_uuid2 k) inodeID offset (int (length data)) (h_meta h) of
        Inl e \<Rightarrow> (respond (Inl e), h)
      | Inr wc \<Rightarrow>
          (case ExecuteWrite (sv_serve S) (sv_sha S) (sv_sched S) (sv_dp S) (wc_TxnID wc) (wc_ChunkID wc) offset data
                  (wc_TargetNodes wc) (wc_IsNewChunk wc) (h_world h) of
             (Some e, w) \<Rightarrow> abortWrite wc e (h\<lparr>h_world := w\<rparr>)
           | (None, w) \<Rightarrow>
               (case CommitFileWrite (sv_B S) (sv_rep S) (polled 2 (c_ctx k)) (c_uuid3 k) (c_now k) (c_now' k) (wc_TxnID wc) inodeID
                       (wc_ChunkID wc) (int64 (offset + int (length data))) (wc_IsNewChunk wc) (wc_TargetNodes wc) (h_meta h) of
                  (Some e, _, s) \<Rightarrow> abortWrite wc e (set_meta s (h\<lparr>h_world := w\<rparr>))
                | (None, msgs, s) \<Rightarrow>
                    (respond (Inr (JsonInt (int (length data)))),
                     (set_meta s (h\<lparr>h_world := w\<rparr>))\<lparr>h_outbox := h_outbox h @ msgs\<rparr>))))"

definition handleCreate ::
  "('db, 's) server \<Rightarrow> call \<Rightarrow> string \<Rightarrow> string \<Rightarrow> 32 word \<Rightarrow> 32 word \<Rightarrow> 32 word \<Rightarrow> ('db, 's) host \<Rightarrow> Response result \<times> ('db, 's) host" where
  "handleCreate S k parentID name mode uid gid h =
     (let (r, s) = cpCreate (sv_B S) (sv_rep S) (c_ctx k) (c_uuid1 k) (c_now k) parentID name mode uid gid (h_meta h)
      in (respond (map_sum id JsonInode r), set_meta s h))"

definition handleMkdir ::
  "('db, 's) server \<Rightarrow> call \<Rightarrow> string \<Rightarrow> string \<Rightarrow> 32 word \<Rightarrow> 32 word \<Rightarrow> 32 word \<Rightarrow> ('db, 's) host \<Rightarrow> Response result \<times> ('db, 's) host" where
  "handleMkdir S k parentID name mode uid gid h =
     (let (r, s) = cpMkdir (sv_B S) (sv_rep S) (c_ctx k) (c_uuid1 k) (c_now k) parentID name mode uid gid (h_meta h)
      in (respond (map_sum id JsonInode r), set_meta s h))"

definition handleRemove :: "('db, 's) server \<Rightarrow> call \<Rightarrow> string \<Rightarrow> string \<Rightarrow> ('db, 's) host \<Rightarrow> Response result \<times> ('db, 's) host" where
  "handleRemove S k parentID name h =
     (let (e, s) = cpRemove (sv_B S) (sv_rep S) (c_ctx k) (c_uuid1 k) (c_now k) parentID name (h_meta h)
      in (respond (no_body e), set_meta s h))"

definition handleRmdir :: "('db, 's) server \<Rightarrow> call \<Rightarrow> string \<Rightarrow> string \<Rightarrow> ('db, 's) host \<Rightarrow> Response result \<times> ('db, 's) host" where
  "handleRmdir S k parentID name h =
     (let (e, s) = cpRmdir (sv_B S) (sv_rep S) (c_ctx k) (c_uuid1 k) (c_now k) parentID name (h_meta h)
      in (respond (no_body e), set_meta s h))"

definition handleRename ::
  "('db, 's) server \<Rightarrow> call \<Rightarrow> string \<Rightarrow> string \<Rightarrow> string \<Rightarrow> string \<Rightarrow> ('db, 's) host \<Rightarrow> Response result \<times> ('db, 's) host" where
  "handleRename S k srcParentID srcName dstParentID dstName h =
     (let (e, s) = cpRename (sv_B S) (sv_rep S) (c_ctx k) (c_uuid1 k) (c_now k) srcParentID srcName dstParentID dstName (h_meta h)
      in (respond (no_body e), set_meta s h))"

definition handleReadDir :: "('db, 's) server \<Rightarrow> call \<Rightarrow> string \<Rightarrow> int \<Rightarrow> int \<Rightarrow> ('db, 's) host \<Rightarrow> Response result \<times> ('db, 's) host" where
  "handleReadDir S k inodeID cookie maxEntries h =
     (respond (map_sum id (\<lambda>(es, c, eof). JsonReadDir es c eof) (cpReadDir (sv_B S) (c_ctx k) inodeID cookie maxEntries (h_meta h))), h)"

definition handleReadDirPlus :: "('db, 's) server \<Rightarrow> call \<Rightarrow> string \<Rightarrow> int \<Rightarrow> int \<Rightarrow> ('db, 's) host \<Rightarrow> Response result \<times> ('db, 's) host" where
  "handleReadDirPlus S k inodeID cookie maxEntries h =
     (respond (map_sum id (\<lambda>(es, c, eof). JsonReadDirPlus es c eof)
        (cpReadDirPlus (sv_B S) (c_ctx k) (c_ctx' k) inodeID cookie maxEntries (h_meta h))), h)"

definition handleFsStat :: "('db, 's) server \<Rightarrow> call \<Rightarrow> ('db, 's) host \<Rightarrow> Response result \<times> ('db, 's) host" where
  "handleFsStat S k h = (respond (map_sum id JsonFsStat (cpGetFsStat (sv_B S) (c_ctx k) (h_meta h))), h)"

definition handleFsInfo :: "('db, 's) server \<Rightarrow> call \<Rightarrow> ('db, 's) host \<Rightarrow> Response result \<times> ('db, 's) host" where
  "handleFsInfo S k h = (respond (map_sum id JsonFsInfo (cpGetFsInfo (sv_B S) (c_ctx k) (h_meta h))), h)"

definition handleTopologyRequest :: "('db, 's) server \<Rightarrow> call \<Rightarrow> ('db, 's) host \<Rightarrow> Response result \<times> ('db, 's) host" where
  "handleTopologyRequest S k h = (Inr \<lparr>r_Code = CodeOK, r_Body = JsonTopology (sv_topology S (c_nodes k) (h_raft h))\<rparr>, h)"

text \<open>The five chunk messages: the node's own chunk service does the work; what was read is the raw body.\<close>

definition handleChunkMessage :: "('db, 's) server \<Rightarrow> ChunkRequest \<Rightarrow> ('db, 's) host \<Rightarrow> Response result \<times> ('db, 's) host" where
  "handleChunkMessage S req h =
     (case w_nodes (h_world h) (sv_self S) of
        None \<Rightarrow> (Inl (Panic ''nil chunk service''), h)
      | Some s \<Rightarrow>
          let (r, s') = sv_serve S (sv_self S) req s
          in (respond (map_sum id (\<lambda>d. case req of ReadChunkRequest _ \<Rightarrow> RawBody d | _ \<Rightarrow> NoBody) r),
              h\<lparr>h_world := (h_world h)\<lparr>w_nodes := (w_nodes (h_world h))(sv_self S \<mapsto> s')\<rparr>\<rparr>))"

text \<open>The three Raft messages, by way of the consensus handler.\<close>

definition handleRaftMessage :: "('db, 's) server \<Rightarrow> call \<Rightarrow> rpc \<Rightarrow> ('db, 's) host \<Rightarrow> Response result \<times> ('db, 's) host" where
  "handleRaftMessage S k q h =
     (let (r, n) = serve (sv_raft S) (c_now k) q (h_raft h)
      in (respond (map_sum id JsonRaft (of_opt (Errorf ''consensus request failed'') r)), h\<lparr>h_raft := n\<rparr>))"

fun handleMessage :: "('db, 's) server \<Rightarrow> call \<Rightarrow> request \<Rightarrow> ('db, 's) host \<Rightarrow> Response result \<times> ('db, 's) host" where
  "handleMessage S k (GetAttrRequest i) h = handleGetAttr S k i h"
| "handleMessage S k (SetAttrRequest i m u g a t) h = handleSetAttr S k i m u g a t h"
| "handleMessage S k (LookupRequest p n) h = handleLookup S k p n h"
| "handleMessage S k (LookupPathRequest p) h = handleLookupPath S k p h"
| "handleMessage S k (AccessRequest i u g a) h = handleAccess S k i u g a h"
| "handleMessage S k (ReadRequest i off len) h = handleRead S k i off len h"
| "handleMessage S k (WriteRequest i off data) h = handleWrite S k i off data h"
| "handleMessage S k (CreateRequest p n m u g) h = handleCreate S k p n m u g h"
| "handleMessage S k (MkdirRequest p n m u g) h = handleMkdir S k p n m u g h"
| "handleMessage S k (RemoveRequest p n) h = handleRemove S k p n h"
| "handleMessage S k (RmdirRequest p n) h = handleRmdir S k p n h"
| "handleMessage S k (RenameRequest sp sn dp dn) h = handleRename S k sp sn dp dn h"
| "handleMessage S k (ReadDirRequest i c m) h = handleReadDir S k i c m h"
| "handleMessage S k (ReadDirPlusRequest i c m) h = handleReadDirPlus S k i c m h"
| "handleMessage S k FsStatRequest h = handleFsStat S k h"
| "handleMessage S k FsInfoRequest h = handleFsInfo S k h"
| "handleMessage S k TopologyRequest h = handleTopologyRequest S k h"
| "handleMessage S k (ChunkMessage q) h = handleChunkMessage S q h"
| "handleMessage S k (RaftMessage q) h = handleRaftMessage S k q h"
| "handleMessage S k (UnknownMessage t) h = (Inr \<lparr>r_Code = CodeBadRequest, r_Body = UnknownType t\<rparr>, h)"

text \<open>A notice from the outbox being delivered, or lost, as the network's script says.\<close>

definition deliver :: "('db, 's) server \<Rightarrow> ('db, 's) host \<Rightarrow> ('db, 's) host" where
  "deliver S h =
     (case h_outbox h of
        [] \<Rightarrow> h
      | (addr, req) # rest \<Rightarrow> h\<lparr>h_outbox := rest, h_world := snd (Send (sv_serve S) addr req (h_world h))\<rparr>)"

section \<open>Life cycle\<close>

text \<open>\<open>listening\<close> is the outcome of starting to listen, \<open>closing\<close> that of the communicator's \<^verbatim>\<open>Stop\<close>.\<close>

definition serverStart ::
  "(('db service \<Rightarrow> error option \<times> 'db service)) \<Rightarrow> error option \<Rightarrow> int \<Rightarrow> ('db, 's) server \<Rightarrow> ('db, 's) host
   \<Rightarrow> error option \<times> ('db, 's) server \<times> ('db, 's) host" where
  "serverStart rstart listening now S h =
     (case cpStart (sv_B S) rstart now (sv_cp S) (h_meta h) of
        (Some e, c, s) \<Rightarrow> (Some e, S\<lparr>sv_cp := c\<rparr>, set_meta s h)
      | (None, c, s) \<Rightarrow> (listening, S\<lparr>sv_cp := c\<rparr>, set_meta s h))"

definition serverStop :: "error option \<Rightarrow> error option \<Rightarrow> ('db, 's) server \<Rightarrow> ('db, 's) host \<Rightarrow> error option \<times> ('db, 's) host" where
  "serverStop rstop closing S h = (let (_, s) = cpStop (sv_B S) rstop (h_meta h) in (closing, set_meta s h))"

text \<open>
  The server's handler and the data plane's view of a node agree: what \<^verbatim>\<open>Send\<close> makes of a delivered chunk request is the
  code the handler answers with, and both leave the node in the same state.
\<close>

lemma handleChunkMessage_Send:
  assumes "w_nodes (h_world h) (sv_self S) = Some s" and "w_script (h_world h) = []"
    and "handleChunkMessage S req h = (Inr resp, h')" and "Send (sv_serve S) (sv_self S) req (h_world h) = (Inr cr, w)"
  shows "r_Code resp = cr_Code cr \<and> h_world h' = w"
  using assms by (auto simp: handleChunkMessage_def Send_def next_delivery_def respond_def chunkResponse_def split: prod.splits sum.splits if_splits)

end
