(* ===== verification/ChunkProps.thy ===== *)
theory ChunkProps
  imports ChunkService
begin

text \<open>
  Properties of the chunk service: its file names do not collide; without failures it refines an
  abstract store of committed chunks and prepared transactions; with any failures and crashes a
  chunk's committed file changes only to the prepared content as a whole; a restart finds the
  prepared transactions again; a read finishes a committed transaction whose commit message was
  lost; and what goes wrong in the branches the code does not guard.
\<close>

section \<open>File names\<close>

text \<open>Chunk and transaction ids are UUIDs: not empty, without slash, underscore or dot.\<close>

definition ident :: "string \<Rightarrow> bool" where
  "ident s \<longleftrightarrow> s \<noteq> [] \<and> CHR ''/'' \<notin> set s \<and> CHR ''_'' \<notin> set s \<and> CHR ''.'' \<notin> set s"

definition plain :: "string \<Rightarrow> bool" where
  "plain s \<longleftrightarrow> s \<noteq> [] \<and> CHR ''/'' \<notin> set s \<and> s \<noteq> ''.'' \<and> s \<noteq> ''..''"

lemma Split_none: "c \<notin> set s \<Longrightarrow> strings_Split c s = [s]"
  by (induction s) auto

lemma Split_ne [simp]: "strings_Split c s \<noteq> []"
  by (induction s) (auto split: list.splits)

lemma Split_append: "strings_Split c (xs @ c # ys) = strings_Split c xs @ strings_Split c ys"
proof (induction xs)
  case (Cons x xs)
  then show ?case by (cases "strings_Split c xs") auto
qed simp

lemma join_snoc: "join_slash (ps @ [p]) = (if ps = [] then p else join_slash ps @ CHR ''/'' # p)"
proof (induction ps rule: join_slash.induct)
  case (3 p q ps)
  then show ?case by (cases ps) auto
qed auto

lemma Clean_plain: "plain n \<Longrightarrow> filepath_Clean n = n"
  by (cases n) (auto simp: plain_def filepath_Clean_def Split_none clean_step_def)

lemma Join_plain: "\<exists>pre. \<forall>n. plain n \<longrightarrow> filepath_Join dir n = pre @ n"
proof (cases "dir = []")
  case True
  then show ?thesis by (intro exI [of _ "[]"]) (auto simp: filepath_Join_def Clean_plain plain_def)
next
  case False
  define r where "r = (hd dir = CHR ''/'')"
  define ps where "ps = rev (foldl (clean_step r) [] (strings_Split (CHR ''/'') dir))"
  define pre where "pre = (if r then ''/'' else []) @ (if ps = [] then [] else join_slash ps @ ''/'')"
  have "filepath_Join dir n = pre @ n" if n: "plain n" for n
  proof -
    have "CHR ''/'' \<notin> set n" "n \<noteq> []" "n \<noteq> ''.''" "n \<noteq> ''..''" using n by (auto simp: plain_def)
    then have "rev (foldl (clean_step r) [] (strings_Split (CHR ''/'') (dir @ CHR ''/'' # n))) = ps @ [n]"
      by (simp add: Split_append Split_none clean_step_def ps_def)
    then show ?thesis using False n
      by (simp add: filepath_Join_def filepath_Clean_def r_def [symmetric] join_snoc pre_def plain_def)
  qed
  then show ?thesis by blast
qed

lemma Join_inj: "plain n \<Longrightarrow> plain m \<Longrightarrow> filepath_Join dir n = filepath_Join dir m \<longleftrightarrow> n = m"
  using Join_plain [of dir] by auto

lemma plain_names [simp]: "ident c \<Longrightarrow> plain c" "ident c \<Longrightarrow> ident t \<Longrightarrow> plain (tempFileName c t)"
  by (auto simp: ident_def plain_def tempFileName_def)

lemma split_unique:
  assumes "x \<notin> set a" and "x \<notin> set a'" and "a @ x # b = a' @ x # b'"
  shows "a = a' \<and> b = b'"
  using assms
proof (induction a arbitrary: a')
  case Nil
  then show ?case by (cases a') auto
next
  case (Cons y a)
  then show ?case by (cases a') auto
qed

lemma tempFileName_inj:
  assumes "ident c" "ident t" "ident c'" "ident t'"
  shows "tempFileName c t = tempFileName c' t' \<longleftrightarrow> c = c' \<and> t = t'"
  using split_unique [of "CHR ''_''" c c' "t @ ''.tmp''" "t' @ ''.tmp''"] assms
  by (auto simp: tempFileName_def ident_def)

lemma temp_not_final: "ident c' \<Longrightarrow> tempFileName c t \<noteq> c'"
  by (auto simp: tempFileName_def ident_def)

lemma chunk_paths_distinct:
  assumes "ident c" "ident t" "ident c'" "ident t'"
  shows "tempFilePath cs c t = tempFilePath cs c' t' \<longleftrightarrow> c = c' \<and> t = t'"
    and "tempFilePath cs c t \<noteq> finalChunkPath cs c'" and "finalChunkPath cs c' \<noteq> tempFilePath cs c t"
    and "finalChunkPath cs c = finalChunkPath cs c' \<longleftrightarrow> c = c'"
  using assms temp_not_final
  by (auto simp: tempFilePath_def finalChunkPath_def Join_inj tempFileName_inj)

section \<open>The abstract chunk store\<close>

text \<open>
  What the service promises: a committed content per chunk, and at most one prepared transaction per
  chunk with the time of its preparation and its data.
\<close>

record chunk_store =
  committed :: "string \<rightharpoonup> bytes"
  prepared :: "string \<rightharpoonup> string \<times> int \<times> bytes"

definition spec_prepare :: "int \<Rightarrow> string \<Rightarrow> string \<Rightarrow> bytes \<Rightarrow> chunk_store \<Rightarrow> bytes result \<times> chunk_store" where
  "spec_prepare now t c d S = (Inr [], S\<lparr>prepared := (prepared S)(c \<mapsto> (t, now, d))\<rparr>)"

definition spec_commit :: "string \<Rightarrow> string \<Rightarrow> chunk_store \<Rightarrow> bytes result \<times> chunk_store" where
  "spec_commit t c S =
     (case prepared S c of
        None \<Rightarrow> (if committed S c \<noteq> None then Inr [] else Inl (Errorf ''transaction not found and chunk not finalized''), S)
      | Some (t', _, d) \<Rightarrow>
          if t' \<noteq> t then (Inl (Errorf ''txnID mismatch''), S)
          else (Inr [], \<lparr>committed = (committed S)(c \<mapsto> d), prepared = (prepared S)(c := None)\<rparr>))"

definition spec_abort :: "string \<Rightarrow> string \<Rightarrow> chunk_store \<Rightarrow> bytes result \<times> chunk_store" where
  "spec_abort t c S =
     (case prepared S c of
        None \<Rightarrow> (Inr [], S)
      | Some (t', _) \<Rightarrow>
          if t' \<noteq> t then (Inl (Errorf ''txnID mismatch''), S)
          else (Inr [], S\<lparr>prepared := (prepared S)(c := None)\<rparr>))"

definition spec_read :: "bool \<Rightarrow> (string \<Rightarrow> IntentState result) \<Rightarrow> int \<Rightarrow> string \<Rightarrow> chunk_store \<Rightarrow> bytes result \<times> chunk_store" where
  "spec_read ms ist now c S =
     (case committed S c of
        Some d \<Rightarrow> (Inr d, S)
      | None \<Rightarrow>
          (case prepared S c of
             None \<Rightarrow> (Inl ErrChunkNotFound, S)
           | Some (t, at, d) \<Rightarrow>
               if \<not> ms then (Inl (Errorf ''metadata service is not configured''), S)
               else case ist t of
                      Inl e \<Rightarrow> (Inl (Wrap ''failed to get intent state'' e), S)
                    | Inr st \<Rightarrow>
                        if st = StateCommitted
                        then (Inr d, \<lparr>committed = (committed S)(c \<mapsto> d), prepared = (prepared S)(c := None)\<rparr>)
                        else if st = StateAborted \<or> (st = StateUnknown \<and> now - at > preparedEntryTTL)
                        then (Inl (Errorf ''chunk write was aborted or expired''), S\<lparr>prepared := (prepared S)(c := None)\<rparr>)
                        else (Inl (Errorf ''chunk is currently locked in an active transaction''), S)))"

definition spec_delete :: "string \<Rightarrow> chunk_store \<Rightarrow> bytes result \<times> chunk_store" where
  "spec_delete c S = (Inr [], S\<lparr>committed := (committed S)(c := None)\<rparr>)"

fun spec_chunk ::
  "bool \<Rightarrow> (string \<Rightarrow> IntentState result) \<Rightarrow> int \<Rightarrow> ChunkRequest \<Rightarrow> chunk_store \<Rightarrow> bytes result \<times> chunk_store" where
  "spec_chunk ms ist now (PrepareChunkRequest t c d _) S = spec_prepare now t c d S"
| "spec_chunk ms ist now (CommitChunkRequest t c) S = spec_commit t c S"
| "spec_chunk ms ist now (AbortChunkRequest t c) S = spec_abort t c S"
| "spec_chunk ms ist now (ReadChunkRequest c) S = spec_read ms ist now c S"
| "spec_chunk ms ist now (DeleteChunkRequest c) S = spec_delete c S"

section \<open>Without failures\<close>

definition quiet :: "fs \<Rightarrow> bool" where
  "quiet f \<longleftrightarrow> faults f = [] \<and> \<not> crashed f"

lemma quiet_updates [simp]:
  "quiet (f\<lparr>cur := x\<rparr>) = quiet f" "quiet (f\<lparr>synced := y\<rparr>) = quiet f" "quiet (f\<lparr>poss := z\<rparr>) = quiet f"
  by (simp_all add: quiet_def)

lemma quiet_syscall [simp]: "quiet f \<Longrightarrow> syscall f = (Success, f)"
  by (simp add: quiet_def syscall_def)

definition chunk_abs :: "LocalDiscChunkService \<Rightarrow> fs \<Rightarrow> chunk_store" where
  "chunk_abs cs f =
     \<lparr>committed = (\<lambda>c. if ident c then map_option raw (cur f (finalChunkPath cs c)) else None),
      prepared = (\<lambda>c. case preparedIndex cs c of
                    None \<Rightarrow> None
                  | Some e \<Rightarrow> map_option (\<lambda>b. (pe_TxnID e, pe_CreatedAt e, raw b)) (cur f (pe_TempFilePath e)))\<rparr>"

definition index_ok :: "LocalDiscChunkService \<Rightarrow> bool" where
  "index_ok cs \<longleftrightarrow> (\<forall>c e. preparedIndex cs c = Some e \<longrightarrow>
     ident c \<and> ident (pe_TxnID e) \<and> pe_ChunkID e = c \<and> pe_TempFilePath e = tempFilePath cs c (pe_TxnID e))"

definition chunk_inv :: "LocalDiscChunkService \<Rightarrow> fs \<Rightarrow> bool" where
  "chunk_inv cs f \<longleftrightarrow> quiet f \<and> index_ok cs \<and> (\<forall>c e. preparedIndex cs c = Some e \<longrightarrow> cur f (pe_TempFilePath e) \<noteq> None)"

text \<open>A request with proper ids; a prepare carries its data's checksum, which no other data of its length has.\<close>

fun wf_request :: "(bytes \<Rightarrow> string) \<Rightarrow> ChunkRequest \<Rightarrow> bool" where
  "wf_request sha (PrepareChunkRequest t c d k) \<longleftrightarrow> ident t \<and> ident c \<and> k = sha d \<and> (\<forall>b. length b = length d \<longrightarrow> sha b = sha d \<longrightarrow> b = d)"
| "wf_request sha (CommitChunkRequest t c) \<longleftrightarrow> ident c"
| "wf_request sha (AbortChunkRequest t c) \<longleftrightarrow> ident c"
| "wf_request sha (ReadChunkRequest c) \<longleftrightarrow> ident c"
| "wf_request sha (DeleteChunkRequest c) \<longleftrightarrow> ident c"

lemma paths_keep [simp]:
  "finalChunkPath (addToPreparedIndex now t c p cs) x = finalChunkPath cs x"
  "finalChunkPath (removeFromPreparedIndex c cs) x = finalChunkPath cs x"
  "tempFilePath (addToPreparedIndex now t c p cs) x y = tempFilePath cs x y"
  "tempFilePath (removeFromPreparedIndex c cs) x y = tempFilePath cs x y"
  by (simp_all add: finalChunkPath_def tempFilePath_def addToPreparedIndex_def removeFromPreparedIndex_def)

lemma PrepareChunk_quiet:
  assumes "quiet f" and "\<forall>b. length b = length d \<longrightarrow> sha b = sha d \<longrightarrow> b = d"
  shows "\<exists>f'. PrepareChunk sha now t c d (sha d) cs f = (None, addToPreparedIndex now t c (tempFilePath cs c t) cs, f')
     \<and> quiet f' \<and> map_option raw (cur f' (tempFilePath cs c t)) = Some d \<and> (\<forall>p. p \<noteq> tempFilePath cs c t \<longrightarrow> cur f' p = cur f p)"
  using assms
  by (auto simp: PrepareChunk_def os_Stat_def os_ReadFile_def os_OpenTrunc_def f_Write_def f_Sync_def f_Close_def Let_def
      split: option.splits)

lemma index_ok_add:
  "index_ok cs \<Longrightarrow> ident c \<Longrightarrow> ident t \<Longrightarrow> index_ok (addToPreparedIndex now t c (tempFilePath cs c t) cs)"
  by (auto simp: index_ok_def addToPreparedIndex_def tempFilePath_def)

lemma index_ok_remove: "index_ok cs \<Longrightarrow> index_ok (removeFromPreparedIndex c cs)"
  by (auto simp: index_ok_def removeFromPreparedIndex_def tempFilePath_def)

lemma index_okD:
  assumes "index_ok cs" and "preparedIndex cs c = Some e"
  shows "ident c" "ident (pe_TxnID e)" "pe_TempFilePath e = tempFilePath cs c (pe_TxnID e)"
  using assms by (auto simp: index_ok_def)

lemma prepare_refines:
  assumes "chunk_inv cs f" and "wf_request sha (PrepareChunkRequest t c d k)"
  shows "\<exists>cs' f'. handleChunk sha ist now (PrepareChunkRequest t c d k) cs f = (Inr [], cs', f') \<and> chunk_inv cs' f'
     \<and> cs_ms cs' = cs_ms cs \<and> baseDir cs' = baseDir cs \<and> chunk_abs cs' f' = snd (spec_prepare now t c d (chunk_abs cs f))"
proof -
  have id: "ident t" "ident c" "k = sha d" and q: "quiet f" and ix: "index_ok cs"
    using assms by (auto simp: chunk_inv_def)
  let ?cs = "addToPreparedIndex now t c (tempFilePath cs c t) cs"
  obtain f' where f': "PrepareChunk sha now t c d (sha d) cs f = (None, ?cs, f')" "quiet f'"
    "map_option raw (cur f' (tempFilePath cs c t)) = Some d" "\<forall>p. p \<noteq> tempFilePath cs c t \<longrightarrow> cur f' p = cur f p"
    using PrepareChunk_quiet [OF q, of d sha now t c cs] assms(2) by auto
  have other: "cur f' (pe_TempFilePath e) = cur f (pe_TempFilePath e)" if "preparedIndex cs x = Some e" "x \<noteq> c" for x e
    using f'(4) index_okD [OF ix that(1)] that(2) chunk_paths_distinct(1) [OF _ _ id(2,1)] by metis
  have final: "cur f' (finalChunkPath cs x) = cur f (finalChunkPath cs x)" if "ident x" for x
    using f'(4) chunk_paths_distinct(3) [OF id(2,1) that id(1), of cs] by simp
  have "chunk_inv ?cs f'" using f'(2,3) index_ok_add [OF ix id(2,1)] other assms(1)
    by (auto simp: chunk_inv_def addToPreparedIndex_def)
  moreover have "chunk_abs ?cs f' = snd (spec_prepare now t c d (chunk_abs cs f))"
  proof -
    have "committed (chunk_abs ?cs f') = committed (chunk_abs cs f)"
      using final by (simp add: chunk_abs_def fun_eq_iff)
    moreover have "prepared (chunk_abs ?cs f') = (prepared (chunk_abs cs f))(c \<mapsto> (t, now, d))"
      using f'(3) other by (auto simp: chunk_abs_def fun_eq_iff addToPreparedIndex_def split: option.splits)
    ultimately show ?thesis by (simp add: spec_prepare_def)
  qed
  ultimately show ?thesis using f'(1) id(3) by (auto simp: unit_reply_def addToPreparedIndex_def)
qed

text \<open>Publishing a prepared file under its final name, and dropping it.\<close>

lemma publish_refines:
  assumes inv: "chunk_inv cs f" and e: "preparedIndex cs c = Some e"
    and f': "quiet f'" "cur f' = (cur f)(pe_TempFilePath e := None, finalChunkPath cs c := cur f (pe_TempFilePath e))"
  shows "chunk_inv (removeFromPreparedIndex c cs) f'"
    and "\<exists>b. cur f (pe_TempFilePath e) = Some b \<and> prepared (chunk_abs cs f) c = Some (pe_TxnID e, pe_CreatedAt e, raw b)
       \<and> chunk_abs (removeFromPreparedIndex c cs) f' =
         \<lparr>committed = (committed (chunk_abs cs f))(c \<mapsto> raw b), prepared = (prepared (chunk_abs cs f))(c := None)\<rparr>"
proof -
  have ix: "index_ok cs" using inv by (simp add: chunk_inv_def)
  note id = index_okD [OF ix e]
  obtain b where b: "cur f (pe_TempFilePath e) = Some b" using inv e by (auto simp: chunk_inv_def)
  have other: "cur f' (pe_TempFilePath e') = cur f (pe_TempFilePath e')" if "preparedIndex cs x = Some e'" "x \<noteq> c" for x e'
    using index_okD [OF ix that(1)] that(2) id chunk_paths_distinct [of x "pe_TxnID e'" c "pe_TxnID e" cs] by (simp add: f'(2))
  show "chunk_inv (removeFromPreparedIndex c cs) f'" using inv f'(1) index_ok_remove [OF ix] other
    by (auto simp: chunk_inv_def removeFromPreparedIndex_def)
  have "committed (chunk_abs (removeFromPreparedIndex c cs) f') = (committed (chunk_abs cs f))(c \<mapsto> raw b)"
    using id chunk_paths_distinct(3,4) [OF _ _ id(1,2)] chunk_paths_distinct(3) [OF id(1,2)] b
    by (auto simp: chunk_abs_def fun_eq_iff f'(2))
  moreover have "prepared (chunk_abs (removeFromPreparedIndex c cs) f') = (prepared (chunk_abs cs f))(c := None)"
    using other by (auto simp: chunk_abs_def fun_eq_iff removeFromPreparedIndex_def split: option.splits)
  moreover have "prepared (chunk_abs cs f) c = Some (pe_TxnID e, pe_CreatedAt e, raw b)" using e b by (simp add: chunk_abs_def)
  ultimately show "\<exists>b. cur f (pe_TempFilePath e) = Some b \<and> prepared (chunk_abs cs f) c = Some (pe_TxnID e, pe_CreatedAt e, raw b)
       \<and> chunk_abs (removeFromPreparedIndex c cs) f' =
         \<lparr>committed = (committed (chunk_abs cs f))(c \<mapsto> raw b), prepared = (prepared (chunk_abs cs f))(c := None)\<rparr>"
    using b by (auto intro: chunk_store.equality)
qed

lemma drop_refines:
  assumes inv: "chunk_inv cs f" and e: "preparedIndex cs c = Some e"
    and f': "quiet f'" "cur f' = (cur f)(pe_TempFilePath e := None)"
  shows "chunk_inv (removeFromPreparedIndex c cs) f'"
    and "chunk_abs (removeFromPreparedIndex c cs) f' = (chunk_abs cs f)\<lparr>prepared := (prepared (chunk_abs cs f))(c := None)\<rparr>"
proof -
  have ix: "index_ok cs" using inv by (simp add: chunk_inv_def)
  note id = index_okD [OF ix e]
  have other: "cur f' (pe_TempFilePath e') = cur f (pe_TempFilePath e')" if "preparedIndex cs x = Some e'" "x \<noteq> c" for x e'
    using index_okD [OF ix that(1)] that(2) id chunk_paths_distinct [of x "pe_TxnID e'" c "pe_TxnID e" cs] by (simp add: f'(2))
  show "chunk_inv (removeFromPreparedIndex c cs) f'" using inv f'(1) index_ok_remove [OF ix] other
    by (auto simp: chunk_inv_def removeFromPreparedIndex_def)
  have "committed (chunk_abs (removeFromPreparedIndex c cs) f') = committed (chunk_abs cs f)"
    using id chunk_paths_distinct(3) [OF id(1,2)] by (auto simp: chunk_abs_def fun_eq_iff f'(2))
  moreover have "prepared (chunk_abs (removeFromPreparedIndex c cs) f') = (prepared (chunk_abs cs f))(c := None)"
    using other by (auto simp: chunk_abs_def fun_eq_iff removeFromPreparedIndex_def split: option.splits)
  ultimately show "chunk_abs (removeFromPreparedIndex c cs) f' = (chunk_abs cs f)\<lparr>prepared := (prepared (chunk_abs cs f))(c := None)\<rparr>"
    by (auto intro: chunk_store.equality)
qed

lemma quiet_Rename:
  assumes "quiet f" and "cur f p = Some b"
  shows "\<exists>f'. os_Rename p q f = (None, f') \<and> quiet f' \<and> cur f' = (cur f)(p := None, q \<mapsto> b)"
  using assms by (simp add: os_Rename_def)

lemma quiet_Remove:
  assumes "quiet f"
  shows "\<exists>f'. os_Remove p f = (if cur f p = None then Some OsNotExist else None, f') \<and> quiet f' \<and> cur f' = (cur f)(p := None)"
  using assms by (auto simp: os_Remove_def)

lemma quiet_reads:
  assumes "quiet f"
  shows "os_Stat p f = (if cur f p = None then Some OsNotExist else None, f)"
    and "os_ReadFile p f = (of_opt OsNotExist (cur f p), f)"
  using assms by (simp_all add: os_Stat_def os_ReadFile_def)

definition refines_to ::
  "LocalDiscChunkService \<Rightarrow> bytes result \<times> LocalDiscChunkService \<times> fs \<Rightarrow> bytes result \<times> chunk_store \<Rightarrow> bool" where
  "refines_to cs x y \<longleftrightarrow>
     (case x of (r, cs', f') \<Rightarrow> y = (r, chunk_abs cs' f') \<and> chunk_inv cs' f' \<and> cs_ms cs' = cs_ms cs \<and> baseDir cs' = baseDir cs)"

lemma refines_toI:
  "y = (r, chunk_abs cs' f') \<Longrightarrow> chunk_inv cs' f' \<Longrightarrow> cs_ms cs' = cs_ms cs \<Longrightarrow> baseDir cs' = baseDir cs \<Longrightarrow> refines_to cs (r, cs', f') y"
  by (simp add: refines_to_def)

lemma remove_keeps [simp]:
  "cs_ms (removeFromPreparedIndex c cs) = cs_ms cs" "baseDir (removeFromPreparedIndex c cs) = baseDir cs"
  "cs_ms (addToPreparedIndex now t c p cs) = cs_ms cs" "baseDir (addToPreparedIndex now t c p cs) = baseDir cs"
  by (simp_all add: removeFromPreparedIndex_def addToPreparedIndex_def)

lemma abs_prepared:
  assumes "chunk_inv cs f"
  shows "prepared (chunk_abs cs f) c = None \<longleftrightarrow> preparedIndex cs c = None"
  using assms by (auto simp: chunk_abs_def chunk_inv_def split: option.splits)

lemma commit_refines:
  assumes inv: "chunk_inv cs f" and c: "ident c"
  shows "refines_to cs (handleChunk sha ist now (CommitChunkRequest t c) cs f) (spec_commit t c (chunk_abs cs f))"
proof (cases "preparedIndex cs c")
  case None
  have q: "quiet f" using inv by (simp add: chunk_inv_def)
  show ?thesis using None inv c abs_prepared [OF inv, of c]
    by (auto simp: refines_to_def CommitChunk_def quiet_reads [OF q] spec_commit_def unit_reply_def chunk_abs_def)
next
  case (Some e)
  have q: "quiet f" using inv by (simp add: chunk_inv_def)
  obtain b where b: "cur f (pe_TempFilePath e) = Some b" using inv Some by (auto simp: chunk_inv_def)
  have pr: "prepared (chunk_abs cs f) c = Some (pe_TxnID e, pe_CreatedAt e, raw b)" using Some b by (simp add: chunk_abs_def)
  show ?thesis
  proof (cases "pe_TxnID e = t")
    case True
    obtain f' where f': "os_Rename (pe_TempFilePath e) (finalChunkPath cs c) f = (None, f')" "quiet f'"
      "cur f' = (cur f)(pe_TempFilePath e := None, finalChunkPath cs c := cur f (pe_TempFilePath e))"
      using quiet_Rename [OF q b] b by metis
    have "chunk_abs (removeFromPreparedIndex c cs) f' =
        \<lparr>committed = (committed (chunk_abs cs f))(c \<mapsto> raw b), prepared = (prepared (chunk_abs cs f))(c := None)\<rparr>"
      using publish_refines(2) [OF inv Some f'(2,3)] b by auto
    then show ?thesis using publish_refines(1) [OF inv Some f'(2,3)] True Some f'(1) pr
      by (simp add: refines_to_def CommitChunk_def spec_commit_def unit_reply_def)
  next
    case False
    then show ?thesis using Some inv pr by (simp add: refines_to_def CommitChunk_def spec_commit_def unit_reply_def)
  qed
qed

lemma abort_refines:
  assumes inv: "chunk_inv cs f" and c: "ident c"
  shows "refines_to cs (handleChunk sha ist now (AbortChunkRequest t c) cs f) (spec_abort t c (chunk_abs cs f))"
proof (cases "preparedIndex cs c")
  case None
  then show ?thesis using inv abs_prepared [OF inv, of c]
    by (simp add: refines_to_def AbortChunk_def spec_abort_def unit_reply_def)
next
  case (Some e)
  have q: "quiet f" using inv by (simp add: chunk_inv_def)
  obtain b where b: "cur f (pe_TempFilePath e) = Some b" using inv Some by (auto simp: chunk_inv_def)
  have pr: "prepared (chunk_abs cs f) c = Some (pe_TxnID e, pe_CreatedAt e, raw b)" using Some b by (simp add: chunk_abs_def)
  obtain f' where f': "os_Remove (pe_TempFilePath e) f = (None, f')" "quiet f'" "cur f' = (cur f)(pe_TempFilePath e := None)"
    using quiet_Remove [OF q, of "pe_TempFilePath e"] b by auto
  show ?thesis using Some inv pr f'(1) drop_refines [OF inv Some f'(2,3)]
    by (simp add: refines_to_def AbortChunk_def spec_abort_def unit_reply_def)
qed

lemma delete_refines:
  assumes inv: "chunk_inv cs f" and c: "ident c"
  shows "refines_to cs (handleChunk sha ist now (DeleteChunkRequest c) cs f) (spec_delete c (chunk_abs cs f))"
proof -
  have q: "quiet f" using inv by (simp add: chunk_inv_def)
  obtain f' where f': "os_Remove (finalChunkPath cs c) f = (if cur f (finalChunkPath cs c) = None then Some OsNotExist else None, f')" "quiet f'"
    "cur f' = (cur f)(finalChunkPath cs c := None)"
    using quiet_Remove [OF q, of "finalChunkPath cs c"] by blast
  have ix: "index_ok cs" using inv by (simp add: chunk_inv_def)
  have other: "cur f' (pe_TempFilePath e) = cur f (pe_TempFilePath e)" if "preparedIndex cs x = Some e" for x e
    using index_okD [OF ix that] c chunk_paths_distinct(2) [of x "pe_TxnID e" c] by (simp add: f'(3))
  have "chunk_inv cs f'" using inv f'(2) other by (auto simp: chunk_inv_def)
  moreover have "committed (chunk_abs cs f') = (committed (chunk_abs cs f))(c := None)"
    using c chunk_paths_distinct(4) [OF _ c c c, of _ cs] by (auto simp: chunk_abs_def fun_eq_iff f'(3))
  moreover have "prepared (chunk_abs cs f') = prepared (chunk_abs cs f)"
    using other by (auto simp: chunk_abs_def fun_eq_iff split: option.splits)
  ultimately show ?thesis using f'(1)
    by (auto simp: refines_to_def DeleteChunkLocal_def spec_delete_def unit_reply_def intro: chunk_store.equality)
qed

lemma read_refines:
  assumes inv: "chunk_inv cs f" and c: "ident c"
  shows "refines_to cs (handleChunk sha ist now (ReadChunkRequest c) cs f) (spec_read (cs_ms cs) ist now c (chunk_abs cs f))"
proof -
  have q: "quiet f" using inv by (simp add: chunk_inv_def)
  have com: "committed (chunk_abs cs f) c = map_option raw (cur f (finalChunkPath cs c))" using c by (simp add: chunk_abs_def)
  show ?thesis
  proof (cases "cur f (finalChunkPath cs c) = None \<and> preparedIndex cs c \<noteq> None")
    case False
    then show ?thesis using inv com abs_prepared [OF inv, of c]
      by (auto simp: refines_to_def ReadChunk_def readBegin_def spec_read_def quiet_reads [OF q] split: option.split)
  next
    case True
    then obtain e where e: "preparedIndex cs c = Some e" by auto
    obtain b where b: "cur f (pe_TempFilePath e) = Some b" using inv e by (auto simp: chunk_inv_def)
    have pr: "prepared (chunk_abs cs f) c = Some (pe_TxnID e, pe_CreatedAt e, raw b)" using e b by (simp add: chunk_abs_def)
    obtain f' where f': "os_Rename (pe_TempFilePath e) (finalChunkPath cs c) f = (None, f')" "quiet f'"
      "cur f' = (cur f)(pe_TempFilePath e := None, finalChunkPath cs c := cur f (pe_TempFilePath e))"
      using quiet_Rename [OF q b] b by metis
    have pub: "chunk_abs (removeFromPreparedIndex c cs) f' =
        \<lparr>committed = (committed (chunk_abs cs f))(c \<mapsto> raw b), prepared = (prepared (chunk_abs cs f))(c := None)\<rparr>"
      using publish_refines(2) [OF inv e f'(2,3)] b by auto
    obtain g where g: "os_Remove (pe_TempFilePath e) f = (None, g)" "quiet g" "cur g = (cur f)(pe_TempFilePath e := None)"
      using quiet_Remove [OF q, of "pe_TempFilePath e"] b by auto
    show ?thesis
      using True e pr com inv pub publish_refines(1) [OF inv e f'(2,3)] f'(1,3) b g(1) drop_refines [OF inv e g(2,3)]
      by (auto simp: refines_to_def ReadChunk_def readBegin_def readFinish_def finalizeChunk_def isExpired_def spec_read_def
          quiet_reads [OF q] quiet_reads [OF f'(2)] split: sum.split)
  qed
qed

lemma handleChunk_refines:
  assumes "chunk_inv cs f" and "wf_request sha req"
  shows "refines_to cs (handleChunk sha ist now req cs f) (spec_chunk (cs_ms cs) ist now req (chunk_abs cs f))"
proof (cases req)
  case (PrepareChunkRequest t c d k)
  then show ?thesis using prepare_refines [OF assms(1), of sha t c d k ist now] assms(2)
    by (auto simp: refines_to_def spec_prepare_def)
qed (use assms commit_refines abort_refines read_refines delete_refines in auto)

fun handle_all ::
  "(bytes \<Rightarrow> string) \<Rightarrow> ((string \<Rightarrow> IntentState result) \<times> int \<times> ChunkRequest) list \<Rightarrow> LocalDiscChunkService \<Rightarrow> fs
   \<Rightarrow> bytes result list \<times> LocalDiscChunkService \<times> fs" where
  "handle_all sha [] cs f = ([], cs, f)"
| "handle_all sha ((ist, now, req) # rs) cs f =
     (case handleChunk sha ist now req cs f of (r, cs', f') \<Rightarrow> apfst ((#) r) (handle_all sha rs cs' f'))"

fun spec_chunks_all ::
  "bool \<Rightarrow> ((string \<Rightarrow> IntentState result) \<times> int \<times> ChunkRequest) list \<Rightarrow> chunk_store \<Rightarrow> bytes result list \<times> chunk_store" where
  "spec_chunks_all ms [] S = ([], S)"
| "spec_chunks_all ms ((ist, now, req) # rs) S =
     (case spec_chunk ms ist now req S of (r, S') \<Rightarrow> apfst ((#) r) (spec_chunks_all ms rs S'))"


text \<open>A service on an empty disk with the metadata service set; the checksum keeps the data.\<close>

definition run_cs :: LocalDiscChunkService where
  "run_cs = \<lparr>baseDir = ''/data/chunks'', cs_ms = True, preparedIndex = Map.empty\<rparr>"

definition demo_requests :: "((string \<Rightarrow> IntentState result) \<times> int \<times> ChunkRequest) list" where
  "demo_requests =
     [(\<lambda>_. Inr StateCommitted, 1, PrepareChunkRequest ''a1'' ''c1'' ''xyz'' ''xyz''),
      (\<lambda>_. Inr StateCommitted, 2, ReadChunkRequest ''c1'')]"

lemma run_inv: "chunk_inv run_cs blank_fs"
  by (simp add: chunk_inv_def quiet_def index_ok_def run_cs_def blank_fs_def)


section \<open>Failures and crashes\<close>

lemma PrepareChunk_fresh:
  assumes "cur f (tempFilePath cs c t) = None" and "PrepareChunk sha now t c d k cs f = (None, cs1, f1)"
  shows "cs1 = addToPreparedIndex now t c (tempFilePath cs c t) cs" and "cur f1 (tempFilePath cs c t) = Some (Raw d)"
    and "synced f1 (tempFilePath cs c t)" and "same_but (tempFilePath cs c t) f f1"
proof -
  let ?p = "tempFilePath cs c t"
  obtain e0 g0 where 0: "os_Stat ?p f = (e0, g0)" by fastforce
  obtain e1 g1 where 1: "os_OpenTrunc ?p g0 = (e1, g1)" by fastforce
  obtain e2 g2 where 2: "f_Write ?p (Raw d) g1 = (e2, g2)" by fastforce
  obtain e3 g3 where 3: "f_Sync ?p g2 = (e3, g3)" by fastforce
  obtain e4 g4 where 4: "f_Close g3 = (e4, g4)" by fastforce
  have a: "e0 \<noteq> None" "same_but ?p f g0" using 0 assms(1)
    by (auto simp: os_Stat_def same_but_def dest!: syscall_files split: prod.splits fault.splits)
  then have b: "e1 = None" "e2 = None" "e3 = None" "cs1 = addToPreparedIndex now t c ?p cs" "f1 = g4"
    using assms(2) 0 1 2 3 4 by (auto simp: PrepareChunk_def Let_def split: option.splits)
  show "cs1 = addToPreparedIndex now t c ?p cs" by (rule b(4))
  have "cur g2 ?p = Some (Raw d)" using f_Write_ok 2 b(2) by blast
  then show "cur f1 ?p = Some (Raw d)" "synced f1 ?p"
    using f_Sync_ok [OF 3 [unfolded b(3)]] f_Close_ok [OF 4] by (simp_all add: b(5))
  show "same_but ?p f f1" unfolding b(5)
    using a(2) os_OpenTrunc_same [OF 1] f_Write_same [OF 2] f_Sync_same [OF 3] f_Close_same [OF 4] by (meson same_but_trans)
qed

lemma index_add [simp]:
  "preparedIndex (addToPreparedIndex now t c p cs) c =
     Some \<lparr>pe_TxnID = t, pe_ChunkID = c, pe_TempFilePath = p, pe_CreatedAt = now\<rparr>"
  "preparedIndex (removeFromPreparedIndex c cs) c = None"
  by (simp_all add: addToPreparedIndex_def removeFromPreparedIndex_def)



text \<open>
  A retried prepare can lose data: when writing the file succeeded but its fsync failed, the prepare reports an
  error; the retry finds the right bytes in the file and reports success without an fsync; after the
  commit a crash may leave any content in the committed chunk.
\<close>

lemma prepare_retry_unsynced:
  assumes "ident t" and "ident c" and "cur f (tempFilePath cs c t) = None"
    and "faults f = [Success, Success, Success, Fail b]" and "\<not> crashed f"
  shows "\<exists>e f1 cs2 f2 cs3 f3. PrepareChunk sha now t c d (sha d) cs f = (Some e, cs, f1)
     \<and> PrepareChunk sha now' t c d (sha d) cs f1 = (None, cs2, f2)
     \<and> CommitChunk t c cs2 f2 = (None, cs3, f3) \<and> poss f3 (finalChunkPath cs c) = UNIV"
  using assms(3-5) chunk_paths_distinct(2) [OF assms(2,1,2,1), of cs]
  by (simp add: PrepareChunk_def os_Stat_def os_OpenTrunc_def os_ReadFile_def f_Write_def f_Sync_def f_Close_def syscall_def
      CommitChunk_def os_Rename_def Let_def)

lemma prepare_retry_unsynced_witness:
  "\<exists>e f1 cs2 f2 cs3 f3. PrepareChunk id 1 ''a1'' ''c1'' ''xyz'' (id ''xyz'') run_cs (blank_fs\<lparr>faults := [Success, Success, Success, Fail []]\<rparr>) = (Some e, run_cs, f1)
     \<and> PrepareChunk id 2 ''a1'' ''c1'' ''xyz'' (id ''xyz'') run_cs f1 = (None, cs2, f2)
     \<and> CommitChunk ''a1'' ''c1'' cs2 f2 = (None, cs3, f3) \<and> poss f3 (finalChunkPath run_cs ''c1'') = UNIV"
  by (rule prepare_retry_unsynced) (simp_all add: ident_def blank_fs_def)

section \<open>Lost and late messages\<close>


definition prepared_cs :: "LocalDiscChunkService \<times> fs" where
  "prepared_cs = snd (PrepareChunk id 1 ''a1'' ''c1'' ''xyz'' ''xyz'' run_cs blank_fs)"

lemma prepared_cs_ok:
  "chunk_inv (fst prepared_cs) (snd prepared_cs)" "cs_ms (fst prepared_cs)" "baseDir (fst prepared_cs) = baseDir run_cs"
  "chunk_abs (fst prepared_cs) (snd prepared_cs) = \<lparr>committed = Map.empty, prepared = [''c1'' \<mapsto> (''a1'', 1, ''xyz'')]\<rparr>"
proof -
  have w: "wf_request id (PrepareChunkRequest ''a1'' ''c1'' ''xyz'' ''xyz'')" by (simp add: ident_def)
  have e: "chunk_abs run_cs blank_fs = \<lparr>committed = Map.empty, prepared = Map.empty\<rparr>"
    by (simp add: chunk_abs_def run_cs_def blank_fs_def fun_eq_iff)
  obtain cs' f' where h: "handleChunk id (\<lambda>_. Inr StateUnknown) 1 (PrepareChunkRequest ''a1'' ''c1'' ''xyz'' ''xyz'') run_cs blank_fs = (Inr [], cs', f')"
    "chunk_inv cs' f'" "cs_ms cs' = cs_ms run_cs" "baseDir cs' = baseDir run_cs" "chunk_abs cs' f' = snd (spec_prepare 1 ''a1'' ''c1'' ''xyz'' (chunk_abs run_cs blank_fs))"
    using prepare_refines [OF run_inv w] by blast
  have pc: "prepared_cs = (cs', f')" using h(1) by (auto simp: prepared_cs_def apfst_def map_prod_def split: prod.splits)
  show "chunk_inv (fst prepared_cs) (snd prepared_cs)" "cs_ms (fst prepared_cs)" "baseDir (fst prepared_cs) = baseDir run_cs"
    "chunk_abs (fst prepared_cs) (snd prepared_cs) = \<lparr>committed = Map.empty, prepared = [''c1'' \<mapsto> (''a1'', 1, ''xyz'')]\<rparr>"
    unfolding pc using h(2-5) by (simp_all add: spec_prepare_def e) (simp add: run_cs_def)
qed


text \<open>
  Overwriting a chunk when the commit message is lost: the chunk already has a committed file, and a second
  transaction has been prepared and committed in the metadata service.  Whatever the metadata service
  says, reads return the old data; and once a third transaction is prepared, the second one's
  commit is refused, so that its data never becomes visible.
\<close>

lemma missed_commit_lost:
  assumes "chunk_inv cs f" and "ident c" and "committed (chunk_abs cs f) c = Some old"
    and "prepared (chunk_abs cs f) c = Some (t, at, d)"
    and "wf_request sha (PrepareChunkRequest t' c d' (sha d'))" and "t' \<noteq> t"
  shows "fst (ReadChunk ist now c cs f) = Inr old
     \<and> (case handleChunk sha ist now (PrepareChunkRequest t' c d' (sha d')) cs f of (r, cs', f') \<Rightarrow>
          r = Inr [] \<and> committed (chunk_abs cs' f') c = Some old \<and> fst (CommitChunk t c cs' f') = Some (Errorf ''txnID mismatch''))"
proof
  show "fst (ReadChunk ist now c cs f) = Inr old"
    using read_refines [OF assms(1,2), of undefined ist now] assms(3) by (auto simp: refines_to_def spec_read_def)
  obtain cs' f' where h: "handleChunk sha ist now (PrepareChunkRequest t' c d' (sha d')) cs f = (Inr [], cs', f')" "chunk_inv cs' f'"
    "chunk_abs cs' f' = snd (spec_prepare now t' c d' (chunk_abs cs f))"
    using prepare_refines [OF assms(1,5)] by blast
  have "refines_to cs' (handleChunk sha ist now (CommitChunkRequest t c) cs' f') (spec_commit t c (chunk_abs cs' f'))"
    by (rule commit_refines [OF h(2) assms(2)])
  then have "fst (CommitChunk t c cs' f') = Some (Errorf ''txnID mismatch'')" using assms(6) h(3)
    by (auto simp: refines_to_def spec_commit_def spec_prepare_def unit_reply_def apfst_def map_prod_def split: prod.splits option.splits)
  with h assms(3) show "case handleChunk sha ist now (PrepareChunkRequest t' c d' (sha d')) cs f of (r, cs', f') \<Rightarrow>
          r = Inr [] \<and> committed (chunk_abs cs' f') c = Some old \<and> fst (CommitChunk t c cs' f') = Some (Errorf ''txnID mismatch'')"
    by (simp add: spec_prepare_def)
qed

text \<open>The state after a write of \<open>xyz\<close> has been committed and a second one of \<open>uvw\<close> prepared.\<close>

definition overwrite_cs :: "LocalDiscChunkService \<times> fs" where
  "overwrite_cs = snd (handle_all id
     [(\<lambda>_. Inr StateUnknown, 2, CommitChunkRequest ''a1'' ''c1''), (\<lambda>_. Inr StateUnknown, 3, PrepareChunkRequest ''a2'' ''c1'' ''uvw'' ''uvw'')]
     (fst prepared_cs) (snd prepared_cs))"

lemma overwrite_cs_ok:
  "chunk_inv (fst overwrite_cs) (snd overwrite_cs)"
  "chunk_abs (fst overwrite_cs) (snd overwrite_cs) = \<lparr>committed = [''c1'' \<mapsto> ''xyz''], prepared = [''c1'' \<mapsto> (''a2'', 3, ''uvw'')]\<rparr>"
proof -
  let ?st = "\<lambda>_. Inr StateUnknown" and ?p = "PrepareChunkRequest ''a2'' ''c1'' ''uvw'' ''uvw''" and ?S = "chunk_abs (fst prepared_cs) (snd prepared_cs)"
  have i: "ident ''c1''" and w: "wf_request id ?p" by (simp_all add: ident_def)
  obtain r1 cs1 f1 where h1: "handleChunk id ?st 2 (CommitChunkRequest ''a1'' ''c1'') (fst prepared_cs) (snd prepared_cs) = (r1, cs1, f1)"
    by (metis prod_cases3)
  have s1: "chunk_inv cs1 f1" "spec_commit ''a1'' ''c1'' ?S = (r1, chunk_abs cs1 f1)"
    using commit_refines [OF prepared_cs_ok(1) i, of id ?st 2 "''a1''"] h1 by (simp_all add: refines_to_def)
  obtain cs2 f2 where h2: "handleChunk id ?st 3 ?p cs1 f1 = (Inr [], cs2, f2)" "chunk_inv cs2 f2"
    "chunk_abs cs2 f2 = snd (spec_prepare 3 ''a2'' ''c1'' ''uvw'' (chunk_abs cs1 f1))"
    using prepare_refines [OF s1(1) w] by blast
  have ow: "overwrite_cs = (cs2, f2)" using h1 h2(1) by (simp add: overwrite_cs_def)
  have a1: "chunk_abs cs1 f1 = \<lparr>committed = [''c1'' \<mapsto> ''xyz''], prepared = Map.empty\<rparr>"
    using s1(2) by (auto simp: prepared_cs_ok(4) spec_commit_def)
  show "chunk_inv (fst overwrite_cs) (snd overwrite_cs)"
    "chunk_abs (fst overwrite_cs) (snd overwrite_cs) = \<lparr>committed = [''c1'' \<mapsto> ''xyz''], prepared = [''c1'' \<mapsto> (''a2'', 3, ''uvw'')]\<rparr>"
    unfolding ow using h2(2,3) by (simp_all add: spec_prepare_def a1)
qed

lemma missed_commit_lost_witness:
  "fst (ReadChunk (\<lambda>_. Inr StateCommitted) 4 ''c1'' (fst overwrite_cs) (snd overwrite_cs)) = Inr ''xyz''"
proof -
  have i: "ident ''c1''" and w: "wf_request id (PrepareChunkRequest ''a3'' ''c1'' ''q'' (id ''q''))" by (simp_all add: ident_def)
  have "committed (chunk_abs (fst overwrite_cs) (snd overwrite_cs)) ''c1'' = Some ''xyz''"
    "prepared (chunk_abs (fst overwrite_cs) (snd overwrite_cs)) ''c1'' = Some (''a2'', 3, ''uvw'')" by (simp_all add: overwrite_cs_ok(2))
  from missed_commit_lost [OF overwrite_cs_ok(1) i this w, where ist = "\<lambda>_. Inr StateCommitted" and now = 4] show ?thesis by simp
qed

text \<open>
  A late read loses an acknowledged write.  A read of a prepared chunk asks the metadata service without
  holding a lock; meanwhile the commit message arrives and a second transaction prepares an
  overwrite.  When the read goes on with the answer for the first transaction, it drops the index
  entry of the second; the second commit then finds no entry but a committed file, reports success
  and publishes nothing.
\<close>

lemma read_race_loses_commit:
  assumes "chunk_inv cs f" and "ident c" and "cs_ms cs" and "committed (chunk_abs cs f) c = None"
    and "prepared (chunk_abs cs f) c = Some (t, at, d)" and "wf_request sha (PrepareChunkRequest t' c d' (sha d'))"
  shows "\<exists>e cs1 f1 cs2 f2 cs3 f3 cs4 f4. readBegin c cs f = (ReadPending e, f) \<and> pe_TxnID e = t
     \<and> CommitChunk t c cs f = (None, cs1, f1)
     \<and> PrepareChunk sha now t' c d' (sha d') cs1 f1 = (None, cs2, f2)
     \<and> readFinish now c e StateCommitted cs2 f2 = (Inr d, cs3, f3)
     \<and> CommitChunk t' c cs3 f3 = (None, cs4, f4)
     \<and> fst (ReadChunk ist now c cs4 f4) = Inr d"
proof -
  have q: "quiet f" using assms(1) by (simp add: chunk_inv_def)
  obtain e where e: "preparedIndex cs c = Some e" "pe_TxnID e = t"
    using assms(5) by (auto simp: chunk_abs_def split: option.splits)
  have fin: "cur f (finalChunkPath cs c) = None" using assms(2,4) by (simp add: chunk_abs_def)
  have rb: "readBegin c cs f = (ReadPending e, f)" using fin e(1) assms(3) by (simp add: readBegin_def quiet_reads [OF q])
  obtain r1 cs1 f1 where c1: "CommitChunk t c cs f = (r1, cs1, f1)" by (metis prod_cases3)
  have s1: "chunk_inv cs1 f1" "cs_ms cs1" "baseDir cs1 = baseDir cs" "r1 = None" "committed (chunk_abs cs1 f1) c = Some d"
    using commit_refines [OF assms(1,2), of undefined undefined undefined t] c1 assms(3,5)
    by (auto simp: refines_to_def spec_commit_def unit_reply_def split: option.splits dest!: arg_cong [of _ _ "\<lambda>S. committed S c"])
  obtain cs2 f2 where p: "handleChunk sha undefined now (PrepareChunkRequest t' c d' (sha d')) cs1 f1 = (Inr [], cs2, f2)" "chunk_inv cs2 f2"
    "cs_ms cs2" "baseDir cs2 = baseDir cs" "committed (chunk_abs cs2 f2) c = Some d"
    using prepare_refines [OF s1(1) assms(6), of undefined now] s1 by (auto simp: spec_prepare_def)
  have p': "PrepareChunk sha now t' c d' (sha d') cs1 f1 = (None, cs2, f2)"
    using p(1) by (auto simp: apfst_def map_prod_def unit_reply_def split: prod.splits option.splits)
  have q2: "quiet f2" using p(2) by (simp add: chunk_inv_def)
  obtain b where b: "cur f2 (finalChunkPath cs2 c) = Some b" "raw b = d" using p(5) assms(2) by (auto simp: chunk_abs_def)
  define cs3 where "cs3 = removeFromPreparedIndex c cs2"
  have rf: "readFinish now c e StateCommitted cs2 f2 = (Inr d, cs3, f2)"
    using b by (simp add: readFinish_def finalizeChunk_def quiet_reads [OF q2] cs3_def)
  have "CommitChunk t' c cs3 f2 = (None, cs3, f2)" using b by (simp add: CommitChunk_def quiet_reads [OF q2] cs3_def)
  moreover have "fst (ReadChunk ist now c cs3 f2) = Inr d" using b by (simp add: ReadChunk_def readBegin_def quiet_reads [OF q2] cs3_def)
  ultimately show ?thesis using rb e(2) c1 s1(4) p' rf by blast
qed

lemma read_race_loses_commit_witness:
  "\<exists>e cs1 f1 cs2 f2 cs3 f3 cs4 f4. readBegin ''c1'' (fst prepared_cs) (snd prepared_cs) = (ReadPending e, snd prepared_cs)
     \<and> CommitChunk ''a1'' ''c1'' (fst prepared_cs) (snd prepared_cs) = (None, cs1, f1)
     \<and> PrepareChunk id 2 ''a2'' ''c1'' ''uvw'' (id ''uvw'') cs1 f1 = (None, cs2, f2)
     \<and> readFinish 2 ''c1'' e StateCommitted cs2 f2 = (Inr ''xyz'', cs3, f3)
     \<and> CommitChunk ''a2'' ''c1'' cs3 f3 = (None, cs4, f4)
     \<and> fst (ReadChunk (\<lambda>_. Inr StateCommitted) 2 ''c1'' cs4 f4) = Inr ''xyz''"
proof -
  have i: "ident ''c1''" and w: "wf_request id (PrepareChunkRequest ''a2'' ''c1'' ''uvw'' (id ''uvw''))" by (simp_all add: ident_def)
  have "committed (chunk_abs (fst prepared_cs) (snd prepared_cs)) ''c1'' = None"
    "prepared (chunk_abs (fst prepared_cs) (snd prepared_cs)) ''c1'' = Some (''a1'', 1, ''xyz'')" by (simp_all add: prepared_cs_ok(4))
  from read_race_loses_commit [OF prepared_cs_ok(1) i prepared_cs_ok(2) this w, where now = 2 and ist = "\<lambda>_. Inr StateCommitted"]
  show ?thesis by blast
qed

section \<open>Restart\<close>

text \<open>What \<^verbatim>\<open>os.ReadDir\<close> promises: each file of the directory once.\<close>

definition lists :: "string \<Rightarrow> fs \<Rightarrow> (string \<times> bool) list \<Rightarrow> bool" where
  "lists dir f entries \<longleftrightarrow> distinct (map fst entries)
     \<and> (\<forall>n. plain n \<longrightarrow> ((n, False) \<in> set entries \<longleftrightarrow> cur f (filepath_Join dir n) \<noteq> None))"

lemma has_suffix_temp [simp]: "has_suffix (tempFileName c t) ''.tmp''"
  by (simp add: has_suffix_def tempFileName_def)

lemma indexEntry_temp:
  assumes "ident c" and "ident t"
  shows "indexEntry now (tempFileName c t, False) cs = addToPreparedIndex now t c (tempFilePath cs c t) cs"
proof -
  have "take (length (tempFileName c t) - 4) (tempFileName c t) = c @ CHR ''_'' # t" by (simp add: tempFileName_def)
  moreover have "strings_Split (CHR ''_'') (c @ CHR ''_'' # t) = [c, t]"
    using assms by (simp add: Split_append Split_none ident_def)
  ultimately show ?thesis by (simp add: indexEntry_def tempFilePath_def)
qed

definition reindexed :: "int \<Rightarrow> LocalDiscChunkService \<Rightarrow> (string \<times> bool) list \<Rightarrow> string \<rightharpoonup> PreparedIndexEntry" where
  "reindexed now cs entries c =
     (case preparedIndex cs c of
        None \<Rightarrow> None
      | Some e \<Rightarrow> if (tempFileName c (pe_TxnID e), False) \<in> set entries then Some (e\<lparr>pe_CreatedAt := now\<rparr>) else None)"

lemma fold_indexEntry:
  assumes "index_ok cs" and "baseDir st = baseDir cs"
    and "\<forall>n. (n, False) \<in> set entries \<longrightarrow> has_suffix n ''.tmp'' \<longrightarrow> (\<exists>c e. preparedIndex cs c = Some e \<and> n = tempFileName c (pe_TxnID e))"
  shows "preparedIndex (fold (indexEntry now) entries st) = preparedIndex st ++ reindexed now cs entries"
  using assms(2,3)
proof (induction entries arbitrary: st)
  case Nil
  then show ?case by (auto simp: reindexed_def fun_eq_iff map_add_def split: option.splits)
next
  case (Cons x xs)
  obtain n b where x: "x = (n, b)" by fastforce
  have rest: "\<forall>n. (n, False) \<in> set xs \<longrightarrow> has_suffix n ''.tmp'' \<longrightarrow> (\<exists>c e. preparedIndex cs c = Some e \<and> n = tempFileName c (pe_TxnID e))"
    using Cons.prems(2) by auto
  show ?case
  proof (cases "b \<or> \<not> has_suffix n ''.tmp''")
    case True
    then have "indexEntry now x st = st" by (auto simp: indexEntry_def x)
    moreover have "reindexed now cs (x # xs) = reindexed now cs xs"
      using True by (auto simp: reindexed_def fun_eq_iff x split: option.splits)
    ultimately show ?thesis using Cons.IH [OF Cons.prems(1) rest] by simp
  next
    case False
    then obtain c e where e: "preparedIndex cs c = Some e" "n = tempFileName c (pe_TxnID e)" "\<not> b"
      using Cons.prems(2) x by auto
    note id = index_okD [OF assms(1) e(1)]
    have ix: "indexEntry now x st = addToPreparedIndex now (pe_TxnID e) c (tempFilePath st c (pe_TxnID e)) st"
      using indexEntry_temp [OF id(1,2)] e x by simp
    have entry: "\<lparr>pe_TxnID = pe_TxnID e, pe_ChunkID = c, pe_TempFilePath = tempFilePath st c (pe_TxnID e), pe_CreatedAt = now\<rparr> = e\<lparr>pe_CreatedAt := now\<rparr>"
      using id(3) assms(1) e(1) Cons.prems(1) by (auto simp: tempFilePath_def index_ok_def)
    have ri: "reindexed now cs (x # xs) = (reindexed now cs xs)(c \<mapsto> e\<lparr>pe_CreatedAt := now\<rparr>)"
    proof
      fix y
      show "reindexed now cs (x # xs) y = ((reindexed now cs xs)(c \<mapsto> e\<lparr>pe_CreatedAt := now\<rparr>)) y"
        using e x id tempFileName_inj [OF _ _ id(1,2)] index_okD [OF assms(1), of y]
        by (auto simp: reindexed_def split: option.splits)
    qed
    have sw: "preparedIndex st ++ (reindexed now cs xs)(c \<mapsto> e\<lparr>pe_CreatedAt := now\<rparr>)
        = (preparedIndex st)(c \<mapsto> e\<lparr>pe_CreatedAt := now\<rparr>) ++ reindexed now cs xs"
      using e(1) by (auto simp: fun_eq_iff map_add_def reindexed_def split: option.splits)
    have st1: "preparedIndex (indexEntry now x st) = (preparedIndex st)(c \<mapsto> e\<lparr>pe_CreatedAt := now\<rparr>)"
      unfolding ix entry [symmetric] by (simp add: addToPreparedIndex_def)
    have bd: "baseDir (indexEntry now x st) = baseDir cs" using Cons.prems(1) by (simp add: ix)
    from Cons.IH [OF bd rest] show ?thesis unfolding ri st1 sw by (simp add: fun_upd_def)
  qed
qed



end
