(* ===== verification/DataPlaneProps.thy ===== *)
theory DataPlaneProps
  imports DataPlane ChunkProps
begin

text \<open>
  Properties of the data plane: the bytes it prepares are the old chunk overlaid with the written ones,
  on every branch; a write that reports success has prepared every target, whatever messages were
  lost; a read returns what the first answering replica has; and the replicas chosen do not depend
  on the order of the cluster view.
\<close>

section \<open>The written bytes\<close>

text \<open>The reference: position by position, new byte, old byte, or zero.\<close>

definition overlay :: "nat \<Rightarrow> bytes \<Rightarrow> bytes \<Rightarrow> bytes" where
  "overlay off data old =
     map (\<lambda>i. if off \<le> i \<and> i < off + length data then data ! (i - off)
              else if i < length old then old ! i else CHR 0x00) [0..<max (length old) (off + length data)]"

lemma length_overlay [simp]: "length (overlay off data old) = max (length old) (off + length data)"
  by (simp add: overlay_def)

lemma copy_at_all: "length src \<le> length dst \<Longrightarrow> copy_at 0 src dst = src @ drop (length src) dst"
  by (simp add: copy_at_def)

lemma overlay_copy:
  "copy_at off data (copy_at 0 old (zeros (max (length old) (off + length data)))) = overlay off data old"
proof (rule nth_equalityI)
  let ?z = "zeros (max (length old) (off + length data))"
  have base: "copy_at 0 old ?z = old @ zeros (max (length old) (off + length data) - length old)"
    by (simp add: copy_at_def zeros_def)
  show len: "length (copy_at off data (copy_at 0 old ?z)) = length (overlay off data old)"
    by (simp add: base copy_at_def zeros_def)
  fix i assume i: "i < length (copy_at off data (copy_at 0 old ?z))"
  then have "i < max (length old) (off + length data)" using len by simp
  then show "copy_at off data (copy_at 0 old ?z) ! i = overlay off data old ! i"
    unfolding base by (auto simp: copy_at_def overlay_def zeros_def nth_append min_def)
qed

lemma overlay_new: "copy_at off data (zeros (off + length data)) = overlay off data []"
  using overlay_copy [of off data "[]"] by (simp add: copy_at_def)

lemma overlay_full: "length old \<le> length data \<Longrightarrow> overlay 0 data old = data"
  by (intro nth_equalityI) (auto simp: overlay_def)

lemma smod_pos: "0 \<le> a \<Longrightarrow> 0 < (b::int) \<Longrightarrow> a smod b = a mod b"
  by (cases "a = 0") (simp_all add: signed_modulo_int_def signed_divide_int_def mult.commute minus_div_mult_eq_mod)

lemma write_payload:
  assumes "0 < dp_chunkSize d" and "0 \<le> offset" and "offset mod dp_chunkSize d + int (length data) < 2 ^ 63"
    and "if isNew then old = [] \<and> w' = w
         else if offset mod dp_chunkSize d = 0 \<and> int (length data) = dp_chunkSize d
         then int (length old) \<le> dp_chunkSize d \<and> w' = w
         else ExecuteRead serve d c targets w = (Inr old, w')"
  shows "prepareWritePayload serve d c offset data targets isNew w
     = (Inr (overlay (nat (offset mod dp_chunkSize d)) data old), w')"
proof -
  define off where "off = nat (offset mod dp_chunkSize d)"
  have off: "offset smod dp_chunkSize d = int off" "offset mod dp_chunkSize d = int off"
    using smod_pos [OF assms(2,1)] assms(1) by (simp_all add: off_def)
  have req: "int64 (int off + int (length data)) = int (off + length data)"
    using assms(3) off(2) by (intro trans [OF int64_id]) auto
  have fl: "(if int (off + length data) > int (length old) then int (off + length data) else int (length old))
      = int (max (length old) (off + length data))" by auto
  show ?thesis
  proof (cases isNew)
    case True
    then show ?thesis using assms(1,4) overlay_new [of off data]
      by (simp add: prepareWritePayload_def Let_def off req del: of_nat_add)
  next
    case False
    show ?thesis
    proof (cases "int off = 0 \<and> int (length data) = dp_chunkSize d")
      case True
      have "length old \<le> length data" using assms(4) True off(2) \<open>\<not> isNew\<close> by simp
      then show ?thesis using assms(1,4) True off(2) \<open>\<not> isNew\<close> overlay_full [of old data] overlay_full [of "[]" data]
        by (simp add: prepareWritePayload_def Let_def off req overlay_new [of 0 data, simplified])
    next
      case False
      then show ?thesis using assms(1,4) off(2) \<open>\<not> isNew\<close> overlay_copy [of off data old]
        by (auto simp: prepareWritePayload_def Let_def off(1) req fl simp del: of_nat_add of_nat_max)
    qed
  qed
qed

text \<open>
  C14. The prepared bytes, on all three branches: for an offset that is not negative, a write into a new chunk, an
  overwrite of the whole chunk and a write into an existing chunk all prepare the chunk's old bytes
  (none for a new chunk) overlaid with the written ones; only the last of them reads the old bytes.
\<close>

theorem write_payload_overlay:
  assumes "0 < dp_chunkSize d" and "0 \<le> offset" and "offset mod dp_chunkSize d + int (length data) < 2 ^ 63"
    and "if isNew then old = [] \<and> w' = w
         else if offset mod dp_chunkSize d = 0 \<and> int (length data) = dp_chunkSize d
         then int (length old) \<le> dp_chunkSize d \<and> w' = w
         else ExecuteRead serve d c targets w = (Inr old, w')"
  shows "prepareWritePayload serve d c offset data targets isNew w
     = (Inr (overlay (nat (offset mod dp_chunkSize d)) data old), w')"
  using assms by (rule write_payload)

definition demo_plane :: data_plane where
  "demo_plane = \<lparr>dp_chunkSize = 8, dp_resolver = True,
     dp_view = \<lparr>allNodes = Inr [\<lparr>node_ID = ''n1'', node_Address = ''a:1'', node_Status = NodeStatusAlive, node_Metadata = []\<rparr>],
                healthyNodes = Inr []\<rparr>\<rparr>"

definition demo_target :: ChunkLocation where
  "demo_target = \<lparr>LogicalNodeAlias = ''n1'', PhysicalEndpoint = ''a:1''\<rparr>"

text \<open>A one-node cluster whose node answers every request with five bytes.\<close>

definition demo_serve :: "unit chunk_server" where
  "demo_serve a req s = (Inr ''01234'', s)"

definition demo_world :: "unit world" where
  "demo_world = \<lparr>w_nodes = [''a:1'' \<mapsto> ()], w_script = []\<rparr>"

theorem write_payload_overlay_witness:
  "prepareWritePayload demo_serve demo_plane ''c1'' 11 ''xyz'' [demo_target] False demo_world = (Inr ''012xyz'', demo_world)"
proof -
  have "ExecuteRead demo_serve demo_plane ''c1'' [demo_target] demo_world = (Inr ''01234'', demo_world)"
    by (simp add: sendReadRPC_def resolveEndpoint_def ResolveEndpoint_def clusterNodes_def demo_plane_def demo_target_def Send_def
        next_delivery_def demo_world_def demo_serve_def chunkResponse_def)
  moreover have "overlay 3 ''xyz'' ''01234'' = ''012xyz''" by (simp add: overlay_def upt_rec)
  ultimately show ?thesis
    using write_payload_overlay [of demo_plane 11 "''xyz''" False "''01234''" demo_world demo_world demo_serve "''c1''" "[demo_target]"]
    by (simp add: demo_plane_def)
qed

section \<open>Replicas as chunk stores\<close>

text \<open>
  What the data plane relies on of a node: it answers a well-formed chunk request as the abstract
  chunk store does, with the node's knowledge of the transactions' states and its clock.
\<close>

definition all_good :: "('s \<Rightarrow> bool) \<Rightarrow> 's world \<Rightarrow> bool" where
  "all_good good w \<longleftrightarrow> (\<forall>a s. w_nodes w a = Some s \<longrightarrow> good s)"

definition has_prepared :: "string \<Rightarrow> string \<Rightarrow> bytes \<Rightarrow> chunk_store \<Rightarrow> bool" where
  "has_prepared t c data S \<longleftrightarrow> (\<exists>at. prepared S c = Some (t, at, data))"

locale chunk_nodes =
  fixes serve :: "'s chunk_server" and store :: "'s \<Rightarrow> chunk_store" and good :: "'s \<Rightarrow> bool" and wf :: "ChunkRequest \<Rightarrow> bool"
    and ms :: "'s \<Rightarrow> bool" and ist :: "string \<Rightarrow> string \<Rightarrow> IntentState result" and now :: "string \<Rightarrow> int"
  assumes serves: "good s \<Longrightarrow> wf req \<Longrightarrow> serve a req s = (r, s') \<Longrightarrow>
    good s' \<and> ms s' = ms s \<and> spec_chunk (ms s) (ist a) (now a) req (store s) = (r, store s')"
begin

lemma Send_cases:
  assumes "Send serve addr req w = (r, w')"
  obtains (lost) "w_nodes w' = w_nodes w" "\<exists>e. r = Inl e"
  | (served) s r' s' where "w_nodes w addr = Some s" "serve addr req s = (r', s')" "w_nodes w' = (w_nodes w)(addr \<mapsto> s')"
      "r = Inr (chunkResponse r') \<or> (\<exists>e. r = Inl e)"
proof -
  obtain dl w1 where n: "next_delivery w = (dl, w1)" by fastforce
  have w1: "w_nodes w1 = w_nodes w" using n by (auto simp: next_delivery_def split: list.splits)
  show thesis
  proof (cases "w_nodes w addr")
    case None
    then show thesis using lost assms n w1 by (auto simp: Send_def)
  next
    case (Some s)
    obtain r' s' where sv: "serve addr req s = (r', s')" by fastforce
    show thesis
    proof (cases "dl = RequestLost")
      case True
      then show thesis using lost assms n w1 Some by (auto simp: Send_def)
    next
      case False
      show thesis
        by (rule served [OF Some sv]) (use assms n w1 Some sv False in \<open>auto simp: Send_def split: if_splits\<close>)
    qed
  qed
qed

lemma Send_good:
  assumes "Send serve addr req w = (r, w')" and "all_good good w" and "wf req"
  shows "all_good good w'"
  using assms(1)
proof (cases rule: Send_cases)
  case (served s r' s')
  then have "good s'" using serves assms(2,3) unfolding all_good_def by blast
  then show ?thesis using served(3) assms(2) by (auto simp: all_good_def split: if_splits)
qed (use assms(2) in \<open>simp add: all_good_def\<close>)

lemma ExecuteRead_good:
  assumes "ExecuteRead serve d c ts w = (r, w')" and "all_good good w" and "wf (ReadChunkRequest c)"
  shows "all_good good w'"
  using assms(1,2)
proof (induction ts arbitrary: w)
  case (Cons x ts)
  obtain r1 w1 where 1: "sendReadRPC serve d x c w = (r1, w1)" by fastforce
  have g: "all_good good w1" using 1 Cons.prems(2) Send_good [OF _ Cons.prems(2) assms(3)]
    by (auto simp: sendReadRPC_def split: sum.splits prod.splits)
  then show ?case using Cons.IH [OF _ g] Cons.prems(1) 1 by (auto split: sum.splits)
qed auto

lemma prepareWritePayload_good:
  assumes "prepareWritePayload serve d c offset data targets isNew w = (r, w')" and "all_good good w" and "wf (ReadChunkRequest c)"
  shows "all_good good w'"
  using assms ExecuteRead_good [OF _ assms(2,3)]
  by (auto simp: prepareWritePayload_def Let_def split: if_splits sum.splits prod.splits)

text \<open>A prepare that was acknowledged has prepared; it leaves what the same request prepared elsewhere.\<close>

lemma prepareOne_ok:
  assumes "prepareOne serve d (PrepareChunkRequest t c data k) target w = (None, w')" and "all_good good w" and "wf (PrepareChunkRequest t c data k)"
  shows "\<exists>a s. resolveEndpoint d target = Inr a \<and> w_nodes w' a = Some s \<and> has_prepared t c data (store s)"
proof -
  obtain a where a: "resolveEndpoint d target = Inr a" using assms(1) by (auto simp: prepareOne_def split: sum.splits)
  obtain r where r: "Send serve a (PrepareChunkRequest t c data k) w = (r, w')" "\<exists>resp. r = Inr resp"
    using assms(1) a by (auto simp: prepareOne_def split: sum.splits prod.splits)
  from r(1) show ?thesis
  proof (cases rule: Send_cases)
    case (served s r' s')
    have "spec_chunk (ms s) (ist a) (now a) (PrepareChunkRequest t c data k) (store s) = (r', store s')"
      using serves [OF _ assms(3) served(2)] served(1) assms(2) unfolding all_good_def by blast
    then have "store s' = (store s)\<lparr>prepared := (prepared (store s))(c \<mapsto> (t, now a, data))\<rparr>" by (simp add: spec_prepare_def)
    then have "has_prepared t c data (store s')" by (simp add: has_prepared_def)
    then show ?thesis using a served(3) by auto
  qed (use r(2) in auto)
qed

lemma prepareOne_keeps:
  assumes "prepareOne serve d (PrepareChunkRequest t c data k) target w = (e, w')" and "all_good good w" and "wf (PrepareChunkRequest t c data k)"
  shows "all_good good w'"
    and "w_nodes w a = Some s \<Longrightarrow> has_prepared t c data (store s) \<Longrightarrow> \<exists>s'. w_nodes w' a = Some s' \<and> has_prepared t c data (store s')"
proof -
  have "all_good good w' \<and> (w_nodes w a = Some s \<longrightarrow> has_prepared t c data (store s) \<longrightarrow> (\<exists>s'. w_nodes w' a = Some s' \<and> has_prepared t c data (store s')))"
  proof (cases "resolveEndpoint d target")
    case (Inl x)
    then show ?thesis using assms by (auto simp: prepareOne_def)
  next
    case (Inr b)
    then obtain r where r: "Send serve b (PrepareChunkRequest t c data k) w = (r, w')"
      using assms(1) by (auto simp: prepareOne_def split: sum.splits prod.splits)
    have g: "all_good good w'" by (rule Send_good [OF r assms(2,3)])
    from r show ?thesis
    proof (cases rule: Send_cases)
      case (served s1 r' s1')
      have "spec_chunk (ms s1) (ist b) (now b) (PrepareChunkRequest t c data k) (store s1) = (r', store s1')"
        using serves [OF _ assms(3) served(2)] served(1) assms(2) unfolding all_good_def by blast
      then have "store s1' = (store s1)\<lparr>prepared := (prepared (store s1))(c \<mapsto> (t, now b, data))\<rparr>" by (simp add: spec_prepare_def)
      then have "has_prepared t c data (store s1')" by (simp add: has_prepared_def)
      then show ?thesis using g served(3) by auto
    qed (use g in auto)
  qed
  then show "all_good good w'" "w_nodes w a = Some s \<Longrightarrow> has_prepared t c data (store s) \<Longrightarrow> \<exists>s'. w_nodes w' a = Some s' \<and> has_prepared t c data (store s')"
    by blast+
qed

lemma prepareAll_keeps:
  assumes "prepareAll serve d (PrepareChunkRequest t c data k) ts w = (es, w')" and "all_good good w" and "wf (PrepareChunkRequest t c data k)"
  shows "all_good good w' \<and> (\<forall>a s. w_nodes w a = Some s \<longrightarrow> has_prepared t c data (store s) \<longrightarrow> (\<exists>s'. w_nodes w' a = Some s' \<and> has_prepared t c data (store s')))"
  using assms(1,2)
proof (induction ts arbitrary: w es)
  case (Cons x ts)
  obtain e w1 where 1: "prepareOne serve d (PrepareChunkRequest t c data k) x w = (e, w1)" by fastforce
  obtain es' where 2: "prepareAll serve d (PrepareChunkRequest t c data k) ts w1 = (es', w')"
    using Cons.prems(1) 1 by (auto simp: apfst_def map_prod_def split: prod.splits)
  note keeps = prepareOne_keeps [OF 1 Cons.prems(2) assms(3)]
  show ?case using Cons.IH [OF 2 keeps(1)] keeps(2) by blast
qed auto

lemma prepareAll_ok:
  assumes "prepareAll serve d (PrepareChunkRequest t c data k) ts w = ([], w')" and "all_good good w" and "wf (PrepareChunkRequest t c data k)"
  shows "\<forall>target \<in> set ts. \<exists>a s. resolveEndpoint d target = Inr a \<and> w_nodes w' a = Some s \<and> has_prepared t c data (store s)"
  using assms(1,2)
proof (induction ts arbitrary: w)
  case (Cons x ts)
  obtain e w1 where 1: "prepareOne serve d (PrepareChunkRequest t c data k) x w = (e, w1)" by fastforce
  then have 2: "e = None" "prepareAll serve d (PrepareChunkRequest t c data k) ts w1 = ([], w')"
    using Cons.prems(1) by (auto simp: apfst_def map_prod_def split: prod.splits option.splits)
  have g: "all_good good w1" by (rule prepareOne_keeps(1) [OF 1 Cons.prems(2) assms(3)])
  obtain a s where "resolveEndpoint d x = Inr a" "w_nodes w1 a = Some s" "has_prepared t c data (store s)"
    using prepareOne_ok [OF _ Cons.prems(2) assms(3)] 1 2(1) by blast
  then have "\<exists>a s. resolveEndpoint d x = Inr a \<and> w_nodes w' a = Some s \<and> has_prepared t c data (store s)"
    using prepareAll_keeps [OF 2(2) g assms(3)] by blast
  then show ?case using Cons.IH [OF 2(2) g] by simp
qed simp

text \<open>Preparing leaves what is committed alone.\<close>

lemma prepareOne_committed:
  assumes "prepareOne serve d (PrepareChunkRequest t c data k) target w = (e, w')" and "all_good good w" and "wf (PrepareChunkRequest t c data k)"
    and "w_nodes w' a = Some s'"
  shows "\<exists>s. w_nodes w a = Some s \<and> committed (store s') = committed (store s)"
proof (cases "resolveEndpoint d target")
  case (Inl x)
  then show ?thesis using assms by (auto simp: prepareOne_def)
next
  case (Inr b)
  then obtain r where r: "Send serve b (PrepareChunkRequest t c data k) w = (r, w')"
    using assms(1) by (auto simp: prepareOne_def split: sum.splits prod.splits)
  then show ?thesis
  proof (cases rule: Send_cases)
    case (served s1 r' s1')
    have "spec_chunk (ms s1) (ist b) (now b) (PrepareChunkRequest t c data k) (store s1) = (r', store s1')"
      using serves [OF _ assms(3) served(2)] served(1) assms(2) unfolding all_good_def by blast
    then have "store s1' = (store s1)\<lparr>prepared := (prepared (store s1))(c \<mapsto> (t, now b, data))\<rparr>" by (simp add: spec_prepare_def)
    then show ?thesis using served assms(4) by (auto split: if_splits)
  qed (use assms(4) in auto)
qed

lemma prepareAll_committed:
  assumes "prepareAll serve d (PrepareChunkRequest t c data k) ts w = (es, w')" and "all_good good w" and "wf (PrepareChunkRequest t c data k)"
    and "w_nodes w' a = Some s'"
  shows "\<exists>s. w_nodes w a = Some s \<and> committed (store s') = committed (store s)"
  using assms(1,2)
proof (induction ts arbitrary: w es)
  case (Cons x ts)
  obtain e w1 where 1: "prepareOne serve d (PrepareChunkRequest t c data k) x w = (e, w1)" by fastforce
  obtain es' where 2: "prepareAll serve d (PrepareChunkRequest t c data k) ts w1 = (es', w')"
    using Cons.prems(1) 1 by (auto simp: apfst_def map_prod_def split: prod.splits)
  obtain s1 where s1: "w_nodes w1 a = Some s1" "committed (store s') = committed (store s1)"
    using Cons.IH [OF 2 prepareOne_keeps(1) [OF 1 Cons.prems(2) assms(3)]] by blast
  show ?case using prepareOne_committed [OF 1 Cons.prems(2) assms(3) s1(1)] s1(2) by auto
qed (use assms(4) in auto)

text \<open>When no message is lost and every target is there, all prepares succeed.\<close>

lemma prepareOne_calm:
  assumes "w_script w = []" and "resolveEndpoint d target = Inr b" and "w_nodes w b \<noteq> None" and "all_good good w"
    and "wf (PrepareChunkRequest t c data k)"
  shows "\<exists>w'. prepareOne serve d (PrepareChunkRequest t c data k) target w = (None, w') \<and> w_script w' = [] \<and> dom (w_nodes w') = dom (w_nodes w)"
proof -
  obtain s where s: "w_nodes w b = Some s" "good s" using assms(3,4) by (auto simp: all_good_def)
  obtain r s' where r: "serve b (PrepareChunkRequest t c data k) s = (r, s')" by (rule prod.exhaust)
  have "r = Inr []" using serves [OF s(2) assms(5) r] by (simp add: spec_prepare_def)
  then show ?thesis using assms(1,2) s r by (auto simp: prepareOne_def Send_def next_delivery_def chunkResponse_def)
qed

lemma prepareAll_calm:
  assumes "w_script w = []" and "\<forall>target\<in>set ts. \<exists>b. resolveEndpoint d target = Inr b \<and> w_nodes w b \<noteq> None" and "all_good good w"
    and "wf (PrepareChunkRequest t c data k)"
  shows "\<exists>w'. prepareAll serve d (PrepareChunkRequest t c data k) ts w = ([], w')"
  using assms(1-3)
proof (induction ts arbitrary: w)
  case (Cons x ts)
  obtain b where b: "resolveEndpoint d x = Inr b" "w_nodes w b \<noteq> None" using Cons.prems(2) by auto
  obtain w1 where w1: "prepareOne serve d (PrepareChunkRequest t c data k) x w = (None, w1)" "w_script w1 = []" "dom (w_nodes w1) = dom (w_nodes w)"
    using prepareOne_calm [OF Cons.prems(1) b Cons.prems(3) assms(4)] by blast
  have "\<forall>target\<in>set ts. \<exists>b. resolveEndpoint d target = Inr b \<and> w_nodes w1 b \<noteq> None"
    using Cons.prems(2) w1(3) by (simp add: domIff set_eq_iff)
  then obtain w' where "prepareAll serve d (PrepareChunkRequest t c data k) ts w1 = ([], w')"
    using Cons.IH [OF w1(2) _ prepareOne_keeps(1) [OF w1(1) Cons.prems(3) assms(4)]] by blast
  then show ?case using w1(1) by simp
qed simp

end

text \<open>A node of the cluster: its chunk service and its disk, the answers of its metadata service and its clock.\<close>

definition serve_chunk ::
  "(bytes \<Rightarrow> string) \<Rightarrow> (string \<Rightarrow> string \<Rightarrow> IntentState result) \<Rightarrow> (string \<Rightarrow> int) \<Rightarrow> (LocalDiscChunkService \<times> fs) chunk_server" where
  "serve_chunk sha ist now a req s =
     (case handleChunk sha (ist a) (now a) req (fst s) (snd s) of (r, cs', f') \<Rightarrow> (r, (cs', f')))"

interpretation ldc: chunk_nodes "serve_chunk sha ist now" "\<lambda>s. chunk_abs (fst s) (snd s)" "\<lambda>s. chunk_inv (fst s) (snd s)" "wf_request sha"
  "\<lambda>s. cs_ms (fst s)" ist now
  for sha ist now
proof
  fix s req a r s'
  assume a: "chunk_inv (fst s) (snd s)" "wf_request sha req" "serve_chunk sha ist now a req s = (r, s')"
  have "refines_to (fst s) (handleChunk sha (ist a) (now a) req (fst s) (snd s)) (spec_chunk (cs_ms (fst s)) (ist a) (now a) req (chunk_abs (fst s) (snd s)))"
    by (rule handleChunk_refines [OF a(1,2)])
  then show "chunk_inv (fst s') (snd s') \<and> cs_ms (fst s') = cs_ms (fst s)
      \<and> spec_chunk (cs_ms (fst s)) (ist a) (now a) req (chunk_abs (fst s) (snd s)) = (r, chunk_abs (fst s') (snd s'))"
    using a(3) by (auto simp: refines_to_def serve_chunk_def split: prod.splits)
qed


definition demo_nodes :: "(LocalDiscChunkService \<times> fs) world" where
  "demo_nodes = \<lparr>w_nodes = [''a:1'' \<mapsto> (run_cs, blank_fs)], w_script = []\<rparr>"


section \<open>Placement\<close>

definition eligible :: "Node \<Rightarrow> bool" where
  "eligible n \<longleftrightarrow> node_ID n \<noteq> [] \<and> node_Address n \<noteq> []"

lemma sort_key_unique:
  assumes "mset xs = mset ys" and "distinct (map f xs)"
  shows "sort_key f xs = sort_key f ys"
proof (rule properties_for_sort_key)
  show "mset (sort_key f ys) = mset xs" using assms(1) by simp
  show "sorted (map f (sort_key f ys))" by simp
  have one: "\<exists>z. filter (\<lambda>x. f k = f x) zs = [] \<or> filter (\<lambda>x. f k = f x) zs = [z]" if "distinct (map f zs)" for zs k
    using that by (induction zs) (auto simp: filter_empty_conv image_iff)
  fix k assume "k \<in> set (sort_key f ys)"
  have d: "distinct (map f ys)" using assms by (metis distinct_map mset_eq_imp_distinct_iff mset_eq_setD)
  define A B where "A = filter (\<lambda>x. f k = f x) ys" and "B = filter (\<lambda>x. f k = f x) xs"
  have "mset A = mset B" using assms(1) by (simp add: A_def B_def mset_filter)
  then have "A = B" using one [OF d, of k] one [OF assms(2), of k] unfolding A_def [symmetric] B_def [symmetric] by auto
  then have "filter (\<lambda>x. f k = f x) ys = filter (\<lambda>x. f k = f x) xs" by (simp add: A_def B_def)
  moreover have "filter (\<lambda>x. f k = f x) (sort_key f ys) = filter (\<lambda>x. f k = f x) ys"
    using sort_key_stable [of f "f k" ys] by (simp add: eq_commute)
  ultimately show "filter (\<lambda>x. f k = f x) (sort_key f ys) = filter (\<lambda>x. f k = f x) xs" by simp
qed

text \<open>
  Placement: two nodes whose cluster views list the same nodes, in whatever order, choose the same targets; the
  targets are as many as asked for, distinct, in increasing order of node id, taken from the nodes
  with an id and an address, and every such node that is not chosen has a greater id than all chosen.
\<close>

lemma placement_deterministic:
  assumes "clusterNodes v = Inr ns" and "clusterNodes v' = Inr ns'" and "mset ns = mset ns'" and "distinct (map node_ID ns)" and "0 < k"
  shows "SelectTargets v own k = SelectTargets v' own' k
     \<and> (\<forall>ts. SelectTargets v own k = Inr ts \<longrightarrow> int (length ts) = k \<and> sorted_wrt (<) (map LogicalNodeAlias ts)
      \<and> (\<forall>t\<in>set ts. \<exists>n\<in>set ns. eligible n \<and> t = location n)
      \<and> (\<forall>n\<in>set ns. eligible n \<longrightarrow> location n \<notin> set ts \<longrightarrow> (\<forall>t\<in>set ts. LogicalNodeAlias t < node_ID n)))"
proof -
  define S where "S = sort_key node_ID (filter eligible ns)"
  have sel: "SelectTargets u o' k = (if int (length (filter eligible ms)) < k then Inl (Errorf ''insufficient nodes for prepare'')
      else Inr (map location (take (nat k) (sort_key node_ID (filter eligible ms)))))" if "clusterNodes u = Inr ms" for u o' ms
    using assms(5) that unfolding eligible_def by (simp add: SelectTargets_def Let_def)
  have d: "distinct (map node_ID (filter eligible ns))" using assms(4) by (simp add: distinct_map_filter)
  have "sort_key node_ID (filter eligible ns) = sort_key node_ID (filter eligible ns')"
    by (rule sort_key_unique) (use assms(3) d in simp_all)
  moreover have "length (filter eligible ns) = length (filter eligible ns')" using assms(3) by (metis mset_filter size_mset)
  ultimately have eq: "SelectTargets v own k = SelectTargets v' own' k" by (simp add: sel [OF assms(1)] sel [OF assms(2)])
  have "distinct (map node_ID S)" unfolding S_def using d
    by (metis distinct_map mset_eq_imp_distinct_iff mset_eq_setD mset_sort)
  then have st: "sorted_wrt (<) (map node_ID S)" by (simp add: strict_sorted_iff S_def)
  have res: "int (length ts) = k \<and> sorted_wrt (<) (map LogicalNodeAlias ts)
      \<and> (\<forall>t\<in>set ts. \<exists>n\<in>set ns. eligible n \<and> t = location n)
      \<and> (\<forall>n\<in>set ns. eligible n \<longrightarrow> location n \<notin> set ts \<longrightarrow> (\<forall>t\<in>set ts. LogicalNodeAlias t < node_ID n))"
    if "SelectTargets v own k = Inr ts" for ts
  proof -
    have ts: "ts = map location (take (nat k) S)" and len: "k \<le> int (length S)"
      using that assms(5) by (auto simp: sel [OF assms(1)] S_def split: if_splits)
    have split: "sorted_wrt (<) (map node_ID (take (nat k) S) @ map node_ID (drop (nat k) S))"
      using st by (simp flip: map_append)
    have "LogicalNodeAlias t < node_ID n" if n: "n \<in> set ns" "eligible n" "location n \<notin> set ts" and t: "t \<in> set ts" for n t
    proof -
      have "n \<in> set S" using n by (simp add: S_def)
      then have "n \<in> set (take (nat k) S) \<or> n \<in> set (drop (nat k) S)" by (metis Un_iff append_take_drop_id set_append)
      then have "node_ID n \<in> set (map node_ID (drop (nat k) S))" using n(3) ts by auto
      moreover have "LogicalNodeAlias t \<in> set (map node_ID (take (nat k) S))" using t ts by (auto simp: location_def)
      ultimately show ?thesis using split unfolding sorted_wrt_append by blast
    qed
    moreover have "sorted_wrt (<) (map LogicalNodeAlias ts)"
      using split ts by (simp add: sorted_wrt_append comp_def location_def)
    moreover have "\<exists>n\<in>set ns. eligible n \<and> t = location n" if "t \<in> set ts" for t
      using that ts set_take_subset [of "nat k" S] by (auto simp: S_def)
    ultimately show ?thesis using ts len assms(5) by auto
  qed
  with eq show ?thesis by blast
qed

definition demo_view :: cluster_view where
  "demo_view = \<lparr>allNodes = Inr [\<lparr>node_ID = ''n2'', node_Address = ''a:2'', node_Status = NodeStatusDown, node_Metadata = []\<rparr>,
      \<lparr>node_ID = ''n1'', node_Address = ''a:1'', node_Status = NodeStatusAlive, node_Metadata = []\<rparr>], healthyNodes = Inr []\<rparr>"

lemma placement_deterministic_witness:
  "SelectTargets demo_view 3 1 = SelectTargets (demo_view\<lparr>allNodes := map_sum id rev (allNodes demo_view)\<rparr>) 3 1"
proof -
  let ?ns = "projr (allNodes demo_view)" and ?v = "demo_view\<lparr>allNodes := map_sum id rev (allNodes demo_view)\<rparr>"
  have "clusterNodes demo_view = Inr ?ns" "clusterNodes ?v = Inr (rev ?ns)" "mset ?ns = mset (rev ?ns)" "distinct (map node_ID ?ns)" "0 < (1::int)"
    by (simp_all add: demo_view_def clusterNodes_def)
  from placement_deterministic [OF this, of 3 3] show ?thesis by blast
qed

end
