(* ===== verification/WritePath.thy ===== *)
theory WritePath
  imports Server DataPlaneProps BoltRestore
begin

text \<open>
  The path of a write through a node: the boundary check, the transaction, the commit in the
  replicated metadata, and what a client that got its acknowledgement can rely on.
\<close>

section \<open>Chunk boundaries\<close>

lemma sdiv_pos: "0 \<le> a \<Longrightarrow> 0 < (b::int) \<Longrightarrow> a sdiv b = a div b"
  by (cases "a = 0") (simp_all add: signed_divide_int_def)

lemma sdiv_neg: "a < 0 \<Longrightarrow> 0 < (b::int) \<Longrightarrow> a sdiv b = - ((- a) div b)"
  by (simp add: signed_divide_int_def)

lemma go_div_pos:
  assumes a: "0 \<le> a" "a < 2 ^ 63" "0 < b"
  shows "go_div a b = Inr (a div b)"
proof -
  have d: "0 \<le> a div b" "a div b \<le> a" using a zdiv_mono2 [of a 1 b] by (simp_all add: pos_imp_zdiv_nonneg_iff)
  have "int64 (a div b) = a div b" by (rule int64_id) (use d a(2) zero_less_power [of "2::int" 63] in linarith)+
  then show ?thesis using a by (simp add: go_div_def sdiv_pos)
qed

lemma go_div_neg:
  assumes a: "a < 0" "- (2 ^ 63) \<le> a" "0 < b"
  shows "go_div a b = Inr (- ((- a) div b))"
proof -
  have d: "0 \<le> (- a) div b" "(- a) div b \<le> - a" using a zdiv_mono2 [of "- a" 1 b] by (simp_all add: pos_imp_zdiv_nonneg_iff)
  have "int64 (- ((- a) div b)) = - ((- a) div b)" by (rule int64_id) (use d a(2) zero_less_power [of "2::int" 63] in linarith)+
  then show ?thesis using a by (simp add: go_div_def sdiv_neg)
qed

lemma int64_pred: "int64 (int64 x - 1) = int64 (x - 1)"
proof -
  have "int64 (int64 x - 1) = ((x + 2 ^ 63) mod 2 ^ 64 - 1) mod 2 ^ 64 - 2 ^ 63" by (simp add: int64_def)
  also have "\<dots> = (x + 2 ^ 63 - 1) mod 2 ^ 64 - 2 ^ 63" by (simp only: mod_diff_left_eq)
  also have "\<dots> = int64 (x - 1)" by (simp add: int64_def)
  finally show ?thesis .
qed

lemma same_chunk:
  assumes "0 < (cs::int)" and "0 < len"
  shows "offset div cs = (offset + len - 1) div cs \<longleftrightarrow> offset mod cs + len \<le> cs"
proof -
  define r where "r = offset mod cs"
  have r: "0 \<le> r" "r < cs" using assms(1) by (simp_all add: r_def)
  have e: "offset + len - 1 = (r + len - 1) + offset div cs * cs" by (simp add: r_def)
  have "(offset + len - 1) div cs = offset div cs + (r + len - 1) div cs"
    unfolding e using div_mult_self1 [of cs "r + len - 1" "offset div cs"] assms(1) by simp
  moreover have "(r + len - 1) div cs = 0 \<longleftrightarrow> r + len - 1 < cs"
    using r assms by (auto simp: zdiv_eq_0_iff)
  ultimately show ?thesis by (auto simp: r_def)
qed

lemma within_exact:
  assumes cs: "0 < cp_chunkSize c" "cp_chunkSize c \<le> 2 ^ 62" and o: "0 \<le> offset" "offset < 2 ^ 63" and l: "0 < len" "len < 2 ^ 63"
  shows "isWithinChunkBoundary c offset len = Inr (offset mod cp_chunkSize c + len \<le> cp_chunkSize c \<and> offset + len \<le> 2 ^ 63)"
proof (cases "offset + len \<le> 2 ^ 63")
  case True
  then have "int64 (offset + len - 1) = offset + len - 1" using o l by (intro int64_id) auto
  then show ?thesis using True o l cs same_chunk [OF cs(1) l(1), of offset]
    by (simp add: isWithinChunkBoundary_def int64_pred go_div_pos)
next
  case False
  let ?e = "offset + len - 1 - 2 ^ 64"
  have e: "int64 (offset + len - 1) = ?e" using False o l by (intro int64_over) auto
  have "offset div cp_chunkSize c \<noteq> - ((- ?e) div cp_chunkSize c)"
  proof
    assume eq: "offset div cp_chunkSize c = - ((- ?e) div cp_chunkSize c)"
    have "0 \<le> offset div cp_chunkSize c" "0 \<le> (- ?e) div cp_chunkSize c"
      using o l cs by (simp_all add: pos_imp_zdiv_nonneg_iff)
    then have "offset div cp_chunkSize c = 0" "(- ?e) div cp_chunkSize c = 0" using eq by linarith+
    then have "offset < cp_chunkSize c" "- ?e < cp_chunkSize c"
      using o l cs by (auto simp: zdiv_eq_0_iff)
    then show False using cs(2) l(2) by simp
  qed
  then show ?thesis using False o l cs
    by (simp add: isWithinChunkBoundary_def int64_pred go_div_pos e go_div_neg)
qed



section \<open>Preparing\<close>

lemma PrepareFileWrite_repr:
  assumes "bbolt_api B" and "svc_repr B s a" and "live ctx" and i: "inode_number i = Inr n" "a_inodes a n = Some inode" "i_Type inode = TypeFile"
    and "0 \<le> len" and "isWithinChunkBoundary c offset len = Inr True" and "go_div offset (cp_chunkSize c) = Inr q" and "0 \<le> q"
  shows "PrepareFileWrite B ctx c u t i offset len s =
     (if int (length (a_chunks a n)) \<le> q
      then rbind (SelectTargets (cp_view c) (cp_ownReplicas c) (cp_replicaCount c)) (\<lambda>ts.
             Inr \<lparr>wc_TxnID = t, wc_ChunkID = u, wc_TargetNodes = ts, wc_IsNewChunk = True\<rparr>)
      else Inr \<lparr>wc_TxnID = t, wc_ChunkID = cd_ChunkID (a_chunks a n ! nat q), wc_TargetNodes = cd_Locations (a_chunks a n ! nat q),
             wc_IsNewChunk = False\<rparr>)"
  using assms(4-10) by (auto simp: PrepareFileWrite_def bbolt_api.GetInode_repr [OF assms(1-3)] txInit_def chunk_at_def Let_def rbind_def split: sum.splits)

section \<open>Committing\<close>

text \<open>What a committed write does to the file system: size, chunk list and times of the one file, the transaction's state, the chunk's placement.\<close>

definition written :: "nat \<Rightarrow> string \<Rightarrow> string \<Rightarrow> ChunkLocation list \<Rightarrow> int \<Rightarrow> bool \<Rightarrow> afs \<Rightarrow> afs \<Rightarrow> bool" where
  "written n t c ts eof new a a' \<longleftrightarrow>
     (\<exists>inode inode'. a_inodes a n = Some inode \<and> a_inodes a' = (a_inodes a)(n \<mapsto> inode')
        \<and> i_FileSize inode' = max eof (i_FileSize inode) \<and> i_Type inode' = i_Type inode)
   \<and> a_chunks a' = (a_chunks a)(n := a_chunks a n @ (if new then [\<lparr>cd_ChunkID = c, cd_Locations = ts\<rparr>] else []))
   \<and> a_dents a' = a_dents a
   \<and> (\<exists>x. ci_State x = StateCommitted \<and> a_intents a' = (a_intents a)(t \<mapsto> x))
   \<and> a_places a' = (a_places a)(c \<mapsto> map LogicalNodeAlias ts)"

text \<open>The command a commit submits.\<close>

definition write_command ::
  "string \<Rightarrow> int \<Rightarrow> int \<Rightarrow> string \<Rightarrow> string \<Rightarrow> string \<Rightarrow> int \<Rightarrow> ChunkDescriptor list \<Rightarrow> ChunkLocation list \<Rightarrow> blob" where
  "write_command opid mtime now t inodeID c sz cl ts = json_Marshal_envelope
     \<lparr>env_Type = PayloadChunkIntent,
      env_PosixMeta = Some ((zeroOp OpUpdateInode)\<lparr>op_InodeID := inodeID, op_NewSize := Some sz, op_NewChunkList := Some cl,
        op_SetMTime := Some mtime, op_OpID := opid, op_Timestamp := mtime\<rparr>),
      env_ChunkIntent = Some \<lparr>ci_TxnID = t, ci_ChunkID = c, ci_NodeIDs = extractParticipantIDs ts, ci_State = StateCommitted, ci_Timestamp = now\<rparr>\<rparr>"

lemma CommitFileWrite_submits:
  assumes "bbolt_api B" and "svc_repr B s a" and "live ctx" and "inode_number i = Inr n" and "a_inodes a n = Some inode"
  shows "CommitFileWrite B rep ctx opid mtime now t i c eof new ts s =
     (case rep (write_command opid mtime now t (i_InodeID inode) c (max eof (i_FileSize inode))
             (a_chunks a n @ (if new then [\<lparr>cd_ChunkID = c, cd_Locations = ts\<rparr>] else [])) ts) s of
        (Some e, s') \<Rightarrow> (Some (Wrap ''consensus commit failed'' e), [], s')
      | (None, s') \<Rightarrow> (None, broadcastCommitAsync t c ts, s'))"
  using assms(4,5) by (cases "eof > i_FileSize inode")
    (simp_all add: CommitFileWrite_def bbolt_api.GetInode_repr [OF assms(1-3)] Let_def txCommit_def write_command_def max_def)

lemma repr_inode_number:
  assumes "svc_repr B s a" and "a_inodes a n = Some inode"
  shows "inode_number (i_InodeID inode) = Inr n"
proof -
  have "wf_afs a" using assms(1) repr_wf by (auto simp: svc_repr_def)
  then have "ParseUint (i_InodeID inode) = Inr n" using assms(2) unfolding wf_afs_def by blast
  then show ?thesis by (simp add: inode_number_def)
qed

lemma write_command_applies:
  assumes B: "bbolt_sweep B" "dependable B" and r: "svc_repr B s a"
    and i: "inode_number iid = Inr n" "a_inodes a n = Some inode" and l: "length cl < 2 ^ 64"
    and t: "t \<noteq> []" "length t \<le> MaxKeySize" and c: "c \<noteq> []" "length c \<le> MaxKeySize"
  shows "\<exists>d a' inode' x. ApplyTransaction B now'' (write_command opid mtime now t iid c sz cl ts) s = (None, s\<lparr>db := Some d\<rparr>)
     \<and> svc_repr B (s\<lparr>db := Some d\<rparr>) a' \<and> a_inodes a' = (a_inodes a)(n \<mapsto> inode') \<and> i_FileSize inode' = sz \<and> i_Type inode' = i_Type inode
     \<and> i_InodeID inode' = i_InodeID inode
     \<and> a_chunks a' = (if cl = [] then a_chunks a else (a_chunks a)(n := cl)) \<and> a_dents a' = a_dents a
     \<and> ci_State x = StateCommitted \<and> a_intents a' = (a_intents a)(t \<mapsto> x) \<and> a_places a' = (a_places a)(c \<mapsto> map LogicalNodeAlias ts)"
proof -
  define op where "op = (zeroOp OpUpdateInode)\<lparr>op_InodeID := iid, op_NewSize := Some sz, op_NewChunkList := Some cl,
     op_SetMTime := Some mtime, op_OpID := opid, op_Timestamp := mtime\<rparr>"
  define jop where "jop = json_MetadataOperation op"
  define x where "x = \<lparr>ci_TxnID = t, ci_ChunkID = c, ci_NodeIDs = extractParticipantIDs ts, ci_State = StateCommitted, ci_Timestamp = now\<rparr>"
  define cmd where "cmd = write_command opid mtime now t iid c sz cl ts"
  have cmd: "cmd = JsonEnvelope \<lparr>env_Type = PayloadChunkIntent, env_PosixMeta = Some jop, env_ChunkIntent = Some x\<rparr>"
    by (simp add: cmd_def write_command_def json_Marshal_envelope_def jop_def op_def x_def)
  have j: "op_Type jop = OpUpdateInode" "op_InodeID jop = iid" "op_NewSize jop = Some sz"
    "op_NewChunkList jop = (if cl = [] then None else Some cl)" "op_Name jop = []" "op_DstName jop = []"
    by (simp_all add: jop_def op_def json_MetadataOperation_def zeroOp_def)
  define a1 where "a1 = a\<lparr>a_intents := (a_intents a)(t \<mapsto> x), a_places := (a_places a)(c \<mapsto> extractParticipantIDs ts)\<rparr>"
  define a' where "a' = (spec_chunks jop n a1)\<lparr>a_inodes := (a_inodes a)(n \<mapsto> commitFields now'' jop inode), a_index := Some (next_index a)\<rparr>"
  have sp: "spec_apply now'' cmd a = Inr a'"
    using i j(1,2) by (simp add: spec_apply_def cmd spec_intent_def Let_def spec_intent_meta_def a'_def a1_def x_def)
  have "wf_command cmd" using l by (auto simp: cmd wf_command_def j(4) split: if_splits)
  moreover have "reliable B cmd"
    using B(2) t c j by (simp add: reliable_def dependable_def cmd command_fits_def x_def fits_def roomy_def MaxKeySize_def)
  ultimately obtain d where "ApplyTransaction B now'' cmd s = (None, s\<lparr>db := Some d\<rparr>)" "svc_repr B (s\<lparr>db := Some d\<rparr>) a'"
    using ApplyTransaction_ok [OF B(1) r _ _ sp] by blast
  moreover have "a_inodes a' = (a_inodes a)(n \<mapsto> commitFields now'' jop inode)" "i_FileSize (commitFields now'' jop inode) = sz"
    "i_Type (commitFields now'' jop inode) = i_Type inode" "i_InodeID (commitFields now'' jop inode) = i_InodeID inode"
    "a_chunks a' = (if cl = [] then a_chunks a else (a_chunks a)(n := cl))" "a_dents a' = a_dents a" "ci_State x = StateCommitted"
    "a_intents a' = (a_intents a)(t \<mapsto> x)" "a_places a' = (a_places a)(c \<mapsto> map LogicalNodeAlias ts)"
    by (simp_all add: a'_def a1_def spec_chunks_def commitFields_def touched_def Let_def x_def extractParticipantIDs_def j(3,4))
  ultimately show ?thesis unfolding cmd_def by blast
qed

lemma write_command_written:
  assumes B: "bbolt_sweep B" "dependable B" and r: "svc_repr B s a" and i: "a_inodes a n = Some inode"
    and l: "length (a_chunks a n) + 1 < 2 ^ 64" and t: "t \<noteq> []" "length t \<le> MaxKeySize" and c: "c \<noteq> []" "length c \<le> MaxKeySize"
  shows "\<exists>d a'. ApplyTransaction B now'' (write_command opid mtime now t (i_InodeID inode) c (max eof (i_FileSize inode))
             (a_chunks a n @ (if new then [\<lparr>cd_ChunkID = c, cd_Locations = ts\<rparr>] else [])) ts) s = (None, s\<lparr>db := Some d\<rparr>)
     \<and> svc_repr B (s\<lparr>db := Some d\<rparr>) a' \<and> written n t c ts eof new a a'"
proof -
  let ?cl = "a_chunks a n @ (if new then [\<lparr>cd_ChunkID = c, cd_Locations = ts\<rparr>] else [])"
  have "length ?cl < 2 ^ 64" using l by simp
  from write_command_applies [OF B r repr_inode_number [OF r i] i this t c, of now'' opid mtime now "max eof (i_FileSize inode)" ts]
  obtain d a' inode' x where ap: "ApplyTransaction B now'' (write_command opid mtime now t (i_InodeID inode) c (max eof (i_FileSize inode)) ?cl ts) s = (None, s\<lparr>db := Some d\<rparr>)"
     "svc_repr B (s\<lparr>db := Some d\<rparr>) a'" and a': "a_inodes a' = (a_inodes a)(n \<mapsto> inode')" "i_FileSize inode' = max eof (i_FileSize inode)"
     "i_Type inode' = i_Type inode" "a_chunks a' = (if ?cl = [] then a_chunks a else (a_chunks a)(n := ?cl))" "a_dents a' = a_dents a"
     "ci_State x = StateCommitted" "a_intents a' = (a_intents a)(t \<mapsto> x)" "a_places a' = (a_places a)(c \<mapsto> map LogicalNodeAlias ts)"
    by blast
  have "a_chunks a' = (a_chunks a)(n := ?cl)" using a'(4) by (auto simp: fun_eq_iff)
  then have "written n t c ts eof new a a'" unfolding written_def using i a' by blast
  with ap show ?thesis by blast
qed

lemma CommitFileWrite_applies:
  assumes B: "bbolt_sweep B" "dependable B" and r: "svc_repr B s a" and ctx: "live ctx"
    and i: "inode_number i = Inr n" "a_inodes a n = Some inode" and l: "length (a_chunks a n) + 1 < 2 ^ 64"
    and t: "t \<noteq> []" "length t \<le> MaxKeySize" and c: "c \<noteq> []" "length c \<le> MaxKeySize"
  shows "\<exists>d a'. CommitFileWrite B (direct B now'') ctx opid mtime now t i c eof new ts s
       = (None, broadcastCommitAsync t c ts, s\<lparr>db := Some d\<rparr>)
     \<and> svc_repr B (s\<lparr>db := Some d\<rparr>) a' \<and> written n t c ts eof new a a'"
proof -
  have api: "bbolt_api B" using B(1) by (rule bbolt_sweep.axioms)
  from write_command_written [OF B r i(2) l t c, of now'' opid mtime now eof new ts]
  show ?thesis unfolding CommitFileWrite_submits [OF api r ctx i] direct_def by (elim exE conjE) (simp only: option.case prod.case, blast)
qed

section \<open>An acknowledged write\<close>

lemma code_of_error_neq [simp]: "code_of_error e \<noteq> CodeOK"
  by (simp add: code_of_error_def)

lemma meta_simps [simp]:
  "h_meta (set_meta s h) = s" "h_meta (h\<lparr>h_world := w\<rparr>) = h_meta h" "h_meta (h\<lparr>h_outbox := x\<rparr>) = h_meta h"
  "h_world (set_meta s h) = h_world h" "h_outbox (set_meta s h) = h_outbox h"
  by (simp_all add: h_meta_def set_meta_def)

lemma abortWrite_fails: "abortWrite wc e h = (Inr resp, h') \<Longrightarrow> r_Code resp \<noteq> CodeOK"
  by (auto simp: abortWrite_def respond_def split: if_splits prod.splits option.splits)

lemma handleWrite_OK:
  assumes "handleWrite S k i offset data h = (Inr resp, h')" and "r_Code resp = CodeOK"
  obtains wc w msgs s where
    "PrepareFileWrite (sv_B S) (c_ctx k) (sv_cp S) (c_uuid1 k) (c_uuid2 k) i offset (int (length data)) (h_meta h) = Inr wc"
    "ExecuteWrite (sv_serve S) (sv_sha S) (sv_sched S) (sv_dp S) (wc_TxnID wc) (wc_ChunkID wc) offset data
       (wc_TargetNodes wc) (wc_IsNewChunk wc) (h_world h) = (None, w)"
    "CommitFileWrite (sv_B S) (sv_rep S) (polled 2 (c_ctx k)) (c_uuid3 k) (c_now k) (c_now' k) (wc_TxnID wc) i
       (wc_ChunkID wc) (int64 (offset + int (length data))) (wc_IsNewChunk wc) (wc_TargetNodes wc) (h_meta h) = (None, msgs, s)"
    "h_world h' = w" "h_meta h' = s" "h_outbox h' = h_outbox h @ msgs" "r_Body resp = JsonInt (int (length data))"
proof -
  obtain wc where wc: "PrepareFileWrite (sv_B S) (c_ctx k) (sv_cp S) (c_uuid1 k) (c_uuid2 k) i offset (int (length data)) (h_meta h) = Inr wc"
    using assms by (auto simp: handleWrite_def respond_def split: sum.splits if_splits)
  obtain e w where w: "ExecuteWrite (sv_serve S) (sv_sha S) (sv_sched S) (sv_dp S) (wc_TxnID wc) (wc_ChunkID wc) offset data
       (wc_TargetNodes wc) (wc_IsNewChunk wc) (h_world h) = (e, w)" by fastforce
  have e: "e = None" using assms wc w by (cases e) (auto simp: handleWrite_def dest: abortWrite_fails)
  obtain e' msgs s where s: "CommitFileWrite (sv_B S) (sv_rep S) (polled 2 (c_ctx k)) (c_uuid3 k) (c_now k) (c_now' k) (wc_TxnID wc) i
       (wc_ChunkID wc) (int64 (offset + int (length data))) (wc_IsNewChunk wc) (wc_TargetNodes wc) (h_meta h) = (e', msgs, s)"
    by (metis prod_cases3)
  have e': "e' = None" using assms wc w e s by (cases e') (auto simp: handleWrite_def dest: abortWrite_fails)
  show thesis
    by (rule that [OF wc w [unfolded e] s [unfolded e']]) (use assms wc w s e e' in \<open>auto simp: handleWrite_def respond_def\<close>)
qed

text \<open>
  What happens on the nodes after a write was acknowledged: any requests in any order, with any knowledge of
  the transactions' states, lost messages being no request; only nothing that takes the chunk
  away or replaces it, and no read on a node that takes the transaction for aborted or, not
  knowing it, for expired.
\<close>

fun harmless :: "string \<Rightarrow> string \<Rightarrow> (string \<Rightarrow> IntentState result) \<Rightarrow> int \<Rightarrow> ChunkRequest \<Rightarrow> chunk_store \<Rightarrow> bool" where
  "harmless t c ist now (PrepareChunkRequest t' c' d k) S \<longleftrightarrow> c' \<noteq> c"
| "harmless t c ist now (CommitChunkRequest t' c') S \<longleftrightarrow> True"
| "harmless t c ist now (AbortChunkRequest t' c') S \<longleftrightarrow> c' \<noteq> c \<or> t' \<noteq> t"
| "harmless t c ist now (ReadChunkRequest c') S \<longleftrightarrow>
     (c' = c \<longrightarrow> ist t \<noteq> Inr StateAborted
        \<and> (ist t = Inr StateUnknown \<longrightarrow> (\<forall>at d. prepared S c = Some (t, at, d) \<longrightarrow> \<not> isExpired now at)))"
| "harmless t c ist now (DeleteChunkRequest c') S \<longleftrightarrow> c' \<noteq> c"

inductive chunk_run ::
  "(bytes \<Rightarrow> string) \<Rightarrow> string \<Rightarrow> string \<Rightarrow> (string \<rightharpoonup> LocalDiscChunkService \<times> fs) \<Rightarrow> (string \<rightharpoonup> LocalDiscChunkService \<times> fs) \<Rightarrow> bool"
  for sha t c m where
  start: "chunk_run sha t c m m"
| step: "chunk_run sha t c m m' \<Longrightarrow> m' a = Some s \<Longrightarrow> wf_request sha req
    \<Longrightarrow> harmless t c (ist a) (now a) req (chunk_abs (fst s) (snd s)) \<Longrightarrow> serve_chunk sha ist now a req s = (r, s')
    \<Longrightarrow> chunk_run sha t c m (m'(a \<mapsto> s'))"

text \<open>The chunk is there: published, or prepared by the transaction with nothing published before.\<close>

definition held :: "string \<Rightarrow> string \<Rightarrow> bytes \<Rightarrow> chunk_store \<Rightarrow> bool" where
  "held t c p S \<longleftrightarrow> committed S c = Some p \<and> prepared S c = None \<or> committed S c = None \<and> (\<exists>at. prepared S c = Some (t, at, p))"

lemma held_step:
  assumes "held t c p S" and "harmless t c ist now req S"
  shows "held t c p (snd (spec_chunk ms ist now req S))"
proof (cases req)
  case (ReadChunkRequest c')
  show ?thesis
  proof (cases "c' = c")
    case True
    then show ?thesis using assms ReadChunkRequest
      by (auto simp: held_def spec_read_def isExpired_def split: option.splits sum.splits if_splits)
  next
    case False
    then show ?thesis using assms(1) ReadChunkRequest
      by (auto simp: held_def spec_read_def split: option.splits sum.splits if_splits)
  qed
qed (use assms in \<open>auto simp: held_def spec_prepare_def spec_commit_def spec_abort_def spec_delete_def split: option.splits\<close>)

lemma held_read:
  assumes "held t c p S" and "ist t = Inr StateCommitted" and "ms"
  shows "fst (spec_chunk ms ist now (ReadChunkRequest c) S) = Inr p"
  using assms by (auto simp: held_def spec_read_def)

definition ready :: "LocalDiscChunkService \<times> fs \<Rightarrow> bool" where
  "ready s \<longleftrightarrow> chunk_inv (fst s) (snd s) \<and> cs_ms (fst s)"

interpretation ldm: chunk_nodes "serve_chunk sha ist now" "\<lambda>s. chunk_abs (fst s) (snd s)" ready "wf_request sha" "\<lambda>s. cs_ms (fst s)" ist now
  for sha ist now
proof
  fix s req a r s'
  assume "ready s" "wf_request sha req" "serve_chunk sha ist now a req s = (r, s')"
  then show "ready s' \<and> cs_ms (fst s') = cs_ms (fst s)
      \<and> spec_chunk (cs_ms (fst s)) (ist a) (now a) req (chunk_abs (fst s) (snd s)) = (r, chunk_abs (fst s') (snd s'))"
    using ldc.serves [of s sha req ist now a r s'] by (simp add: ready_def)
qed

definition node_holds :: "string \<Rightarrow> string \<Rightarrow> bytes \<Rightarrow> LocalDiscChunkService \<times> fs \<Rightarrow> bool" where
  "node_holds t c p s \<longleftrightarrow> ready s \<and> held t c p (chunk_abs (fst s) (snd s))"

lemma chunk_run_holds:
  assumes "chunk_run sha t c m m'" and "m a = Some s" and "node_holds t c p s"
  shows "\<exists>s'. m' a = Some s' \<and> node_holds t c p s'"
  using assms
proof (induction rule: chunk_run.induct)
  case (step m' b s1 req ist now r s1')
  then obtain s' where s': "m' a = Some s'" "node_holds t c p s'" by blast
  show ?case
  proof (cases "a = b")
    case True
    then have s1: "s1 = s'" "ready s1" "held t c p (chunk_abs (fst s1) (snd s1))"
      using s' step.hyps(2) by (auto simp: node_holds_def)
    note sv = ldm.serves [OF s1(2) step.hyps(3,5)]
    have "held t c p (chunk_abs (fst s1') (snd s1'))"
      using held_step [OF s1(3) step.hyps(4), of "cs_ms (fst s1)"] sv by simp
    then show ?thesis using True sv by (simp add: node_holds_def)
  qed (use s' in auto)
qed auto

lemma node_holds_read:
  assumes "node_holds t c p s" and "ident c" and "ist a t = Inr StateCommitted"
  shows "fst (serve_chunk sha ist now a (ReadChunkRequest c) s) = Inr p"
proof -
  obtain r s' where rs: "serve_chunk sha ist now a (ReadChunkRequest c) s = (r, s')" by (rule prod.exhaust)
  have "fst (spec_chunk (cs_ms (fst s)) (ist a) (now a) (ReadChunkRequest c) (chunk_abs (fst s) (snd s))) = r"
    using ldm.serves [OF _ _ rs] assms(1,2) by (simp add: node_holds_def del: spec_chunk.simps)
  moreover have "fst (spec_chunk (cs_ms (fst s)) (ist a) (now a) (ReadChunkRequest c) (chunk_abs (fst s) (snd s))) = Inr p"
    by (rule held_read [where t = t]) (use assms in \<open>simp_all add: node_holds_def ready_def\<close>)
  ultimately show ?thesis using rs by (simp del: spec_chunk.simps)
qed

text \<open>
  The setting of the properties below: the replicator applies a command before it returns, the store keeps its laws and takes
  every value, nodes run the chunk service, and both planes have the same chunk size.
\<close>

definition sound_server :: "int \<Rightarrow> ('db, LocalDiscChunkService \<times> fs) server \<Rightarrow> bool" where
  "sound_server now S \<longleftrightarrow> bbolt_sweep (sv_B S) \<and> dependable (sv_B S) \<and> sv_rep S = direct (sv_B S) now
     \<and> (\<exists>ist clock. sv_serve S = serve_chunk (sv_sha S) ist clock) \<and> (\<forall>ts. mset (sv_sched S ts) = mset ts)
     \<and> dp_chunkSize (sv_dp S) = cp_chunkSize (sv_cp S) \<and> 0 < cp_chunkSize (sv_cp S) \<and> cp_chunkSize (sv_cp S) \<le> 2 ^ 62"

definition fresh_name :: "string \<Rightarrow> bool" where
  "fresh_name u \<longleftrightarrow> ident u \<and> length u \<le> MaxKeySize"

lemma fresh_name_simps: "fresh_name u \<Longrightarrow> ident u" "fresh_name u \<Longrightarrow> u \<noteq> []" "fresh_name u \<Longrightarrow> length u \<le> MaxKeySize"
  by (auto simp: fresh_name_def ident_def)

lemma new_chunk_held:
  assumes "ExecuteWrite (serve_chunk sha ist clock) sha sched d t c offset data ts True w0 = (None, w)"
    and "prepareWritePayload (serve_chunk sha ist clock) d c offset data ts True w0 = (Inr p, w0)"
    and good: "all_good ready w0" and wf: "wf_request sha (PrepareChunkRequest t c p (sha p))"
    and "mset (sched ts) = mset ts" and fresh: "\<forall>b s. w_nodes w0 b = Some s \<longrightarrow> committed (chunk_abs (fst s) (snd s)) c = None"
    and t: "target \<in> set ts"
  shows "\<exists>b s. resolveEndpoint d target = Inr b \<and> w_nodes w b = Some s \<and> node_holds t c p s
     \<and> committed (chunk_abs (fst s) (snd s)) c = None"
proof -
  have pa: "prepareAll (serve_chunk sha ist clock) d (PrepareChunkRequest t c p (sha p)) (sched ts) w0 = ([], w)"
    using assms(1,2) by (auto simp: ExecuteWrite_def split: list.splits prod.splits)
  have "target \<in> set (sched ts)" using t assms(5) by (metis mset_eq_setD)
  then obtain b s where b: "resolveEndpoint d target = Inr b" "w_nodes w b = Some s" "has_prepared t c p (chunk_abs (fst s) (snd s))"
    using ldm.prepareAll_ok [OF pa good wf] by blast
  moreover obtain s0 where "w_nodes w0 b = Some s0" "committed (chunk_abs (fst s) (snd s)) = committed (chunk_abs (fst s0) (snd s0))"
    using ldm.prepareAll_committed [OF pa good wf b(2)] by blast
  moreover have "ready s" using ldm.prepareAll_keeps [OF pa good wf] b(2) unfolding all_good_def by blast
  moreover have "committed (chunk_abs (fst s0) (snd s0)) c = None" using fresh calculation(4) by blast
  ultimately have "node_holds t c p s \<and> committed (chunk_abs (fst s) (snd s)) c = None" by (simp add: node_holds_def held_def has_prepared_def)
  then show ?thesis using b by blast
qed

lemma quotient_bound:
  assumes "0 \<le> offset" and "offset < 2 ^ 63" and "0 < b" and "int m \<le> offset div b"
  shows "m + 1 < 2 ^ 64"
proof -
  have "int m \<le> offset" using assms zdiv_mono2 [of offset 1 b] by simp
  then have "int (m + 1) < int (2 ^ 64)" using assms(2) by simp
  then show ?thesis unfolding of_nat_less_iff .
qed

lemma acknowledged_new_chunk:
  assumes S: "sound_server now S" and h: "svc_repr (sv_B S) (h_meta h) a" "all_good ready (h_world h)"
    and ctx: "live (c_ctx k)" and i: "inode_number i = Inr n" "a_inodes a n = Some inode" "i_Type inode = TypeFile"
    and off: "0 \<le> offset" "offset div cp_chunkSize (sv_cp S) = int (length (a_chunks a n))" "data \<noteq> []" "offset + int (length data) < 2 ^ 63"
    and u: "fresh_name (c_uuid1 k)" "fresh_name (c_uuid2 k)"
      "\<forall>b s. w_nodes (h_world h) b = Some s \<longrightarrow> committed (chunk_abs (fst s) (snd s)) (c_uuid1 k) = None"
    and p: "p = overlay (nat (offset mod cp_chunkSize (sv_cp S))) data []" "\<forall>b. length b = length p \<longrightarrow> sv_sha S b = sv_sha S p \<longrightarrow> b = p"
    and ok: "handleWrite S k i offset data h = (Inr resp, h')" "r_Code resp = CodeOK"
  shows "\<exists>ts a'. SelectTargets (cp_view (sv_cp S)) (cp_ownReplicas (sv_cp S)) (cp_replicaCount (sv_cp S)) = Inr ts
     \<and> svc_repr (sv_B S) (h_meta h') a' \<and> written n (c_uuid2 k) (c_uuid1 k) ts (offset + int (length data)) True a a'
     \<and> (\<forall>target\<in>set ts. \<exists>b s. resolveEndpoint (sv_dp S) target = Inr b \<and> w_nodes (h_world h') b = Some s
          \<and> node_holds (c_uuid2 k) (c_uuid1 k) p s)"
proof -
  obtain ist clock where S': "bbolt_sweep (sv_B S)" "dependable (sv_B S)" "sv_rep S = direct (sv_B S) now"
      "sv_serve S = serve_chunk (sv_sha S) ist clock" "\<forall>ts. mset (sv_sched S ts) = mset ts"
      "dp_chunkSize (sv_dp S) = cp_chunkSize (sv_cp S)" "0 < cp_chunkSize (sv_cp S)" "cp_chunkSize (sv_cp S) \<le> 2 ^ 62"
    using S by (auto simp: sound_server_def)
  have api: "bbolt_api (sv_B S)" using S'(1) by (rule bbolt_sweep.axioms)
  let ?c = "c_uuid1 k" and ?t = "c_uuid2 k"
  obtain wc w msgs s where o:
    "PrepareFileWrite (sv_B S) (c_ctx k) (sv_cp S) ?c ?t i offset (int (length data)) (h_meta h) = Inr wc"
    "ExecuteWrite (sv_serve S) (sv_sha S) (sv_sched S) (sv_dp S) (wc_TxnID wc) (wc_ChunkID wc) offset data
       (wc_TargetNodes wc) (wc_IsNewChunk wc) (h_world h) = (None, w)"
    "CommitFileWrite (sv_B S) (sv_rep S) (polled 2 (c_ctx k)) (c_uuid3 k) (c_now k) (c_now' k) (wc_TxnID wc) i
       (wc_ChunkID wc) (int64 (offset + int (length data))) (wc_IsNewChunk wc) (wc_TargetNodes wc) (h_meta h) = (None, msgs, s)"
    "h_world h' = w" "h_meta h' = s"
    using handleWrite_OK [OF ok] by metis
  have len: "0 < int (length data)" "int (length data) < 2 ^ 63" using off by auto
  have off': "offset < 2 ^ 63" using off by linarith
  have within: "isWithinChunkBoundary (sv_cp S) offset (int (length data)) = Inr True"
    using o(1) by (auto simp: PrepareFileWrite_def within_exact [OF S'(7,8) off(1) off' len] split: if_splits)
  then have fits: "offset mod cp_chunkSize (sv_cp S) + int (length data) \<le> cp_chunkSize (sv_cp S)"
    by (simp add: within_exact [OF S'(7,8) off(1) off' len])
  obtain ts where ts: "SelectTargets (cp_view (sv_cp S)) (cp_ownReplicas (sv_cp S)) (cp_replicaCount (sv_cp S)) = Inr ts"
      "wc = \<lparr>wc_TxnID = ?t, wc_ChunkID = ?c, wc_TargetNodes = ts, wc_IsNewChunk = True\<rparr>"
    using o(1) PrepareFileWrite_repr [OF api h(1) ctx i _ within go_div_pos [OF off(1) off' S'(7)], of ?c ?t] off(2)
    by (auto simp: rbind_def split: sum.splits)
  have pay: "prepareWritePayload (sv_serve S) (sv_dp S) ?c offset data ts True (h_world h) = (Inr p, h_world h)"
    using write_payload [of "sv_dp S" offset data True "[]" "h_world h" "h_world h" "sv_serve S" ?c ts] S'(6-8) off(1) fits p(1) by simp
  have wf: "wf_request (sv_sha S) (PrepareChunkRequest ?t ?c p (sv_sha S p))" using u(1,2) p(2) by (simp add: fresh_name_def)
  have hold: "\<exists>b s. resolveEndpoint (sv_dp S) target = Inr b \<and> w_nodes w b = Some s \<and> node_holds ?t ?c p s" if t: "target \<in> set ts" for target
    using new_chunk_held [OF _ pay [unfolded S'(4)] h(2) wf _ u(3) t, of "sv_sched S" w] o(2) ts(2) S'(4,5) by auto
  have "length (a_chunks a n) + 1 < 2 ^ 64" by (rule quotient_bound [OF off(1) off' S'(7) eq_refl [OF off(2) [symmetric]]])
  then obtain d a' where "CommitFileWrite (sv_B S) (direct (sv_B S) now) (polled 2 (c_ctx k)) (c_uuid3 k) (c_now k) (c_now' k) ?t i ?c
       (int64 (offset + int (length data))) True ts (h_meta h) = (None, broadcastCommitAsync ?t ?c ts, (h_meta h)\<lparr>db := Some d\<rparr>)"
     "svc_repr (sv_B S) ((h_meta h)\<lparr>db := Some d\<rparr>) a'" "written n ?t ?c ts (int64 (offset + int (length data))) True a a'"
    using CommitFileWrite_applies [OF S'(1,2) h(1) bbolt_api.live_polled [OF api ctx] i(1,2)] fresh_name_simps u by metis
  moreover have "int64 (offset + int (length data)) = offset + int (length data)" using off by (intro int64_id) auto
  ultimately show ?thesis using o(3-5) ts hold S'(3) by auto
qed

text \<open>
  When no message is lost and every target is there, the write is prepared, whatever the replicator does later, and
  with the replicator of a sound server it succeeds.
\<close>

lemma new_chunk_prepares:
  assumes S: "sound_server now S" and h: "svc_repr (sv_B S) (h_meta h) a" "all_good ready (h_world h)"
    and ctx: "live (c_ctx k)" and i: "inode_number i = Inr n" "a_inodes a n = Some inode" "i_Type inode = TypeFile"
    and off: "0 \<le> offset" "int (length (a_chunks a n)) \<le> offset div cp_chunkSize (sv_cp S)" "offset + int (length data) < 2 ^ 63"
      "offset mod cp_chunkSize (sv_cp S) + int (length data) \<le> cp_chunkSize (sv_cp S)" "data \<noteq> []"
    and u: "fresh_name (c_uuid1 k)" "fresh_name (c_uuid2 k)"
    and p: "p = overlay (nat (offset mod cp_chunkSize (sv_cp S))) data []" "\<forall>b. length b = length p \<longrightarrow> sv_sha S b = sv_sha S p \<longrightarrow> b = p"
    and ts: "SelectTargets (cp_view (sv_cp S)) (cp_ownReplicas (sv_cp S)) (cp_replicaCount (sv_cp S)) = Inr ts"
      "\<forall>target\<in>set ts. \<exists>b. resolveEndpoint (sv_dp S) target = Inr b \<and> w_nodes (h_world h) b \<noteq> None" "w_script (h_world h) = []"
  shows "PrepareFileWrite (sv_B S) (c_ctx k) (sv_cp S) (c_uuid1 k) (c_uuid2 k) i offset (int (length data)) (h_meta h)
      = Inr \<lparr>wc_TxnID = c_uuid2 k, wc_ChunkID = c_uuid1 k, wc_TargetNodes = ts, wc_IsNewChunk = True\<rparr>" (is ?prep)
    and "prepareWritePayload (sv_serve S) (sv_dp S) (c_uuid1 k) offset data ts True (h_world h) = (Inr p, h_world h)" (is ?pay)
    and "\<exists>w. ExecuteWrite (sv_serve S) (sv_sha S) (sv_sched S) (sv_dp S) (c_uuid2 k) (c_uuid1 k) offset data ts True (h_world h) = (None, w)" (is ?ex)
    and "length (a_chunks a n) + 1 < 2 ^ 64"
proof -
  obtain ist clock where S': "bbolt_sweep (sv_B S)" "sv_serve S = serve_chunk (sv_sha S) ist clock" "\<forall>ts. mset (sv_sched S ts) = mset ts"
      "dp_chunkSize (sv_dp S) = cp_chunkSize (sv_cp S)" "0 < cp_chunkSize (sv_cp S)" "cp_chunkSize (sv_cp S) \<le> 2 ^ 62"
    using S by (auto simp: sound_server_def)
  have api: "bbolt_api (sv_B S)" using S'(1) by (rule bbolt_sweep.axioms)
  have off': "offset < 2 ^ 63" "0 < int (length data)" "int (length data) < 2 ^ 63" using off by auto
  have within: "isWithinChunkBoundary (sv_cp S) offset (int (length data)) = Inr True"
    using off by (simp add: within_exact [OF S'(5,6) off(1) off'])
  show ?prep
    using PrepareFileWrite_repr [OF api h(1) ctx i _ within go_div_pos [OF off(1) off'(1) S'(5)], of "c_uuid1 k" "c_uuid2 k"] off(2) ts(1) by simp
  show pay: ?pay
    using write_payload [of "sv_dp S" offset data True "[]" "h_world h" "h_world h" "sv_serve S" "c_uuid1 k" ts] S'(4-6) off(1,4) p(1) by simp
  have wf: "wf_request (sv_sha S) (PrepareChunkRequest (c_uuid2 k) (c_uuid1 k) p (sv_sha S p))" using u(1,2) p(2) by (simp add: fresh_name_def)
  have "\<forall>target\<in>set (sv_sched S ts). \<exists>b. resolveEndpoint (sv_dp S) target = Inr b \<and> w_nodes (h_world h) b \<noteq> None"
    using ts(2) S'(3) by (metis mset_eq_setD)
  then obtain w where "prepareAll (sv_serve S) (sv_dp S) (PrepareChunkRequest (c_uuid2 k) (c_uuid1 k) p (sv_sha S p)) (sv_sched S ts) (h_world h) = ([], w)"
    using ldm.prepareAll_calm [OF ts(3) _ h(2) wf] S'(2) by metis
  then show ?ex using pay by (simp add: ExecuteWrite_def)
  show "length (a_chunks a n) + 1 < 2 ^ 64" by (rule quotient_bound [OF off(1) off'(1) S'(5) off(2)])
qed

lemma new_chunk_write_succeeds:
  assumes S: "sound_server now S" and h: "svc_repr (sv_B S) (h_meta h) a" "all_good ready (h_world h)"
    and ctx: "live (c_ctx k)" and i: "inode_number i = Inr n" "a_inodes a n = Some inode" "i_Type inode = TypeFile"
    and off: "0 \<le> offset" "int (length (a_chunks a n)) \<le> offset div cp_chunkSize (sv_cp S)" "offset + int (length data) < 2 ^ 63"
      "offset mod cp_chunkSize (sv_cp S) + int (length data) \<le> cp_chunkSize (sv_cp S)" "data \<noteq> []"
    and u: "fresh_name (c_uuid1 k)" "fresh_name (c_uuid2 k)"
    and p: "p = overlay (nat (offset mod cp_chunkSize (sv_cp S))) data []" "\<forall>b. length b = length p \<longrightarrow> sv_sha S b = sv_sha S p \<longrightarrow> b = p"
    and ts: "SelectTargets (cp_view (sv_cp S)) (cp_ownReplicas (sv_cp S)) (cp_replicaCount (sv_cp S)) = Inr ts"
      "\<forall>target\<in>set ts. \<exists>b. resolveEndpoint (sv_dp S) target = Inr b \<and> w_nodes (h_world h) b \<noteq> None" "w_script (h_world h) = []"
  shows "\<exists>h'. handleWrite S k i offset data h = (Inr \<lparr>r_Code = CodeOK, r_Body = JsonInt (int (length data))\<rparr>, h')
     \<and> h_outbox h' = h_outbox h @ broadcastCommitAsync (c_uuid2 k) (c_uuid1 k) ts"
proof -
  have S': "bbolt_sweep (sv_B S)" "dependable (sv_B S)" "sv_rep S = direct (sv_B S) now" using S by (auto simp: sound_server_def)
  have api: "bbolt_api (sv_B S)" using S'(1) by (rule bbolt_sweep.axioms)
  note pr = new_chunk_prepares [OF assms]
  obtain w where ex: "ExecuteWrite (sv_serve S) (sv_sha S) (sv_sched S) (sv_dp S) (c_uuid2 k) (c_uuid1 k) offset data ts True (h_world h) = (None, w)"
    using pr(3) by blast
  obtain d where "CommitFileWrite (sv_B S) (direct (sv_B S) now) (polled 2 (c_ctx k)) (c_uuid3 k) (c_now k) (c_now' k) (c_uuid2 k) i (c_uuid1 k)
       (int64 (offset + int (length data))) True ts (h_meta h) = (None, broadcastCommitAsync (c_uuid2 k) (c_uuid1 k) ts, (h_meta h)\<lparr>db := Some d\<rparr>)"
    using CommitFileWrite_applies [OF S'(1,2) h(1) bbolt_api.live_polled [OF api ctx] i(1,2) pr(4)] fresh_name_simps u by metis
  then show ?thesis using pr(1) ex S'(3) by (simp add: handleWrite_def respond_def)
qed


text \<open>A cluster of one node with an empty file, inode 7.\<close>

definition file_service :: "image service" where
  "file_service = snd (ApplyTransaction img_store 6 (meta_command (create_op ''0'' ''7'' ''f'' TypeFile 6)) run_service)"

lemma file_tree:
  "\<exists>a inode. svc_repr img_store file_service a \<and> tree a \<and> a_super a = Some (initialSuperblock 5) \<and> is_dir a 0 \<and> a_dents a 0 = [''f'' \<mapsto> 7]
     \<and> a_inodes a 7 = Some inode \<and> i_InodeID inode = ''7'' \<and> i_Type inode = TypeFile \<and> i_FileSize inode = 0 \<and> a_chunks a 7 = []"
proof -
  have l: "length ''f'' + 8 \<le> MaxKeySize" by (simp add: MaxKeySize_def)
  have n: "a_inodes (init_afs 5) 7 = None" by (simp add: init_afs_def empty_afs_def)
  obtain a d where "ApplyTransaction img_store 6 (meta_command (create_op ''0'' ''7'' ''f'' TypeFile 6)) run_service = (None, run_service\<lparr>db := Some d\<rparr>)"
      "svc_repr img_store (run_service\<lparr>db := Some d\<rparr>) a" "tree a" "created 0 7 (create_op ''0'' ''7'' ''f'' TypeFile 6) (init_afs 5) a"
    using create_command_tree [OF img.bbolt_sweep_axioms img_dependable run_repr(1) tree_init small_numbers(1) root_dir(1) small_numbers(2) n root_dir(2) l]
    by blast
  then show ?thesis
    by (auto simp: file_service_def created_def newInode_def create_op_def init_afs_def empty_afs_def)
qed

lemma file_repr:
  "\<exists>a inode. svc_repr img_store file_service a \<and> a_inodes a 7 = Some inode \<and> i_Type inode = TypeFile \<and> i_FileSize inode = 0 \<and> a_chunks a 7 = []"
  using file_tree by blast

definition demo_server :: "(image, LocalDiscChunkService \<times> fs) server" where
  "demo_server = \<lparr>sv_B = img_store, sv_rep = direct img_store 6,
     sv_raft = \<lparr>self = ''n1'', cfg = \<lparr>MaxBatchSize = 1, MaxBatchWaitTime = 0, SnapshotThresholdLogs = 0\<rparr>,
       crc32 = (\<lambda>_. 0), dataDir = ''d'', applyFn = (\<lambda>b m. (None, m)), serializeFn = (\<lambda>_. Inr (Raw ''x'')), restoreFn = (\<lambda>_ m. (None, m))\<rparr>,
     sv_cp = \<lparr>cp_chunkSize = 8, cp_replicaCount = 1, cp_ownReplicas = 1, cp_view = dp_view demo_plane\<rparr>, sv_dp = demo_plane,
     sv_serve = serve_chunk id (\<lambda>_ _. Inr StateUnknown) (\<lambda>_. 1), sv_sha = id, sv_sched = rev, sv_self = ''a:1'',
     sv_topology = (\<lambda>_ _. ''a:1'')\<rparr>"

definition demo_host :: "(image, LocalDiscChunkService \<times> fs) host" where
  "demo_host = \<lparr>h_raft = NewDurableRaftReplicator blank_fs empty_log (file_service, blank_fs), h_world = demo_nodes, h_outbox = []\<rparr>"

definition demo_call :: call where
  "demo_call = \<lparr>c_ctx = calm, c_ctx' = calm, c_uuid1 = ''c1'', c_uuid2 = ''a1'', c_uuid3 = ''op'', c_now = 6, c_now' = 6, c_nodes = Inr []\<rparr>"

lemma demo_sound: "sound_server 6 demo_server"
  using img.bbolt_sweep_axioms img_dependable by (auto simp: sound_server_def demo_server_def demo_plane_def)

lemma demo_facts:
  "h_meta demo_host = file_service" "sv_B demo_server = img_store" "c_ctx demo_call = calm" "sv_sha demo_server = id" "sv_dp demo_server = demo_plane"
  "c_uuid1 demo_call = ''c1''" "c_uuid2 demo_call = ''a1''" "cp_chunkSize (sv_cp demo_server) = 8" "h_world demo_host = demo_nodes" "h_outbox demo_host = []"
  by (simp_all add: h_meta_def demo_host_def NewDurableRaftReplicator_def demo_server_def demo_call_def)

lemma demo_names: "fresh_name ''c1''" "fresh_name ''a1''"
  by (simp_all add: fresh_name_def ident_def MaxKeySize_def)

lemma demo_targets:
  "SelectTargets (cp_view (sv_cp demo_server)) (cp_ownReplicas (sv_cp demo_server)) (cp_replicaCount (sv_cp demo_server)) = Inr [demo_target]"
  "resolveEndpoint demo_plane demo_target = Inr ''a:1''"
  by (simp_all add: demo_server_def demo_plane_def SelectTargets_def clusterNodes_def demo_target_def location_def resolveEndpoint_def ResolveEndpoint_def)

lemma demo_good: "all_good ready demo_nodes"
  using run_inv by (simp add: all_good_def demo_nodes_def ready_def run_cs_def)

lemma demo_write:
  assumes "0 \<le> offset" and "offset + 3 < 2 ^ 63" and "offset mod 8 = 0"
  shows "\<exists>h'. handleWrite demo_server demo_call ''7'' offset ''xyz'' demo_host = (Inr \<lparr>r_Code = CodeOK, r_Body = JsonInt 3\<rparr>, h')"
proof -
  obtain a inode where a: "svc_repr img_store file_service a" "a_inodes a 7 = Some inode" "i_Type inode = TypeFile" "a_chunks a 7 = []"
    using file_repr by blast
  show ?thesis
    using new_chunk_write_succeeds [OF demo_sound, of demo_host a demo_call "''7''" 7 inode offset "''xyz''" "overlay 0 ''xyz'' []" "[demo_target]"]
      a demo_good demo_names demo_targets run_repr(3) small_numbers assms
    by (simp add: demo_facts pos_imp_zdiv_nonneg_iff, simp add: demo_nodes_def) blast
qed


end
