(* ===== verification/WriteFaults.thy ===== *)
theory WriteFaults
  imports WritePath
begin

text \<open>
  Writes and reads that do not go well: what a refused or failed write leaves behind, and the cases in which the
  code loses or misplaces acknowledged data or stops the process.
\<close>

section \<open>Failed writes\<close>


text \<open>The demonstration cluster with a network that loses the prepare message.\<close>

definition lossy_host :: "(image, LocalDiscChunkService \<times> fs) host" where
  "lossy_host = demo_host\<lparr>h_world := demo_nodes\<lparr>w_script := [RequestLost]\<rparr>\<rparr>"

lemma demo_prepares:
  "PrepareFileWrite img_store calm (sv_cp demo_server) ''c1'' ''a1'' ''7'' 0 3 file_service
     = Inr \<lparr>wc_TxnID = ''a1'', wc_ChunkID = ''c1'', wc_TargetNodes = [demo_target], wc_IsNewChunk = True\<rparr>"
proof -
  obtain a inode where a: "svc_repr img_store file_service a" "a_inodes a 7 = Some inode" "i_Type inode = TypeFile" "a_chunks a 7 = []"
    using file_repr by blast
  show ?thesis
    using new_chunk_prepares(1) [OF demo_sound, of demo_host a demo_call "''7''" 7 inode 0 "''xyz''" "overlay 0 ''xyz'' []" "[demo_target]"]
      a demo_good demo_names demo_targets run_repr(3) small_numbers
    by (simp add: demo_facts) (simp add: demo_nodes_def)
qed


section \<open>A commit whose outcome is not known\<close>

text \<open>The replicator that applies the command and then reports an error, as when its wait is cut short or the leader steps down.\<close>

definition late_error :: "error \<Rightarrow> 'db bbolt \<Rightarrow> int \<Rightarrow> 'db replicate" where
  "late_error e B now b s = (Some e, snd (ApplyTransaction B now b s))"

lemma late_commit:
  assumes B: "bbolt_sweep B" "dependable B" and r: "svc_repr B s a" and ctx: "live ctx"
    and i: "inode_number i = Inr n" "a_inodes a n = Some inode" and l: "length (a_chunks a n) + 1 < 2 ^ 64"
    and t: "t \<noteq> []" "length t \<le> MaxKeySize" and c: "c \<noteq> []" "length c \<le> MaxKeySize"
  shows "\<exists>d a'. CommitFileWrite B (late_error e B now'') ctx opid mtime now t i c eof new ts s
       = (Some (Wrap ''consensus commit failed'' e), [], s\<lparr>db := Some d\<rparr>)
     \<and> svc_repr B (s\<lparr>db := Some d\<rparr>) a' \<and> written n t c ts eof new a a'"
proof -
  have api: "bbolt_api B" using B(1) by (rule bbolt_sweep.axioms)
  from write_command_written [OF B r i(2) l t c, of now'' opid mtime now eof new ts]
  show ?thesis unfolding CommitFileWrite_submits [OF api r ctx i] late_error_def by (elim exE conjE) (simp only: option.case prod.case snd_conv, blast)
qed

lemma abort_then_read:
  assumes "node_holds t c p s" and "committed (chunk_abs (fst s) (snd s)) c = None" and "ident c"
  shows "fst (serve_chunk sha ist clock b (ReadChunkRequest c) (snd (serve_chunk sha ist clock b (AbortChunkRequest t c) s))) = Inl ErrChunkNotFound"
proof -
  obtain r s' where 1: "serve_chunk sha ist clock b (AbortChunkRequest t c) s = (r, s')" by (rule prod.exhaust)
  have r: "ready s" using assms(1) by (simp add: node_holds_def)
  note sv = ldm.serves [OF r _ 1]
  have "chunk_abs (fst s') (snd s') = (chunk_abs (fst s) (snd s))\<lparr>prepared := (prepared (chunk_abs (fst s) (snd s)))(c := None)\<rparr>"
    using sv assms by (auto simp: node_holds_def held_def spec_abort_def)
  then have s': "ready s'" "committed (chunk_abs (fst s') (snd s')) c = None" "prepared (chunk_abs (fst s') (snd s')) c = None"
    using sv assms(2,3) by simp_all
  obtain r2 s2 where 2: "serve_chunk sha ist clock b (ReadChunkRequest c) s' = (r2, s2)" by (rule prod.exhaust)
  show ?thesis using ldm.serves [OF s'(1) _ 2] s'(2,3) assms(3) 1 2 by (simp add: spec_read_def)
qed



section \<open>Two writers\<close>



section \<open>Offsets\<close>

text \<open>
  A negative offset stops the server: on an empty file, a write at a negative offset less than a chunk below zero passes
  the boundary check (the division truncates towards zero) and then panics when the payload is built.
\<close>

lemma negative_offset_panics:
  assumes S: "sound_server now S" and h: "svc_repr (sv_B S) (h_meta h) a" and ctx: "live (c_ctx k)"
    and i: "inode_number i = Inr n" "a_inodes a n = Some inode" "i_Type inode = TypeFile" "a_chunks a n = []"
    and off: "offset < 0" "- offset < cp_chunkSize (sv_cp S)" "data \<noteq> []" "int (length data) \<le> cp_chunkSize (sv_cp S)"
    and ts: "SelectTargets (cp_view (sv_cp S)) (cp_ownReplicas (sv_cp S)) (cp_replicaCount (sv_cp S)) = Inr ts"
  shows "handleWrite S k i offset data h = (Inl (Panic ''slice bounds out of range''), h)"
proof -
  have S': "bbolt_sweep (sv_B S)" "dp_chunkSize (sv_dp S) = cp_chunkSize (sv_cp S)" "0 < cp_chunkSize (sv_cp S)" "cp_chunkSize (sv_cp S) \<le> 2 ^ 62"
    using S by (auto simp: sound_server_def)
  have api: "bbolt_api (sv_B S)" using S'(1) by (rule bbolt_sweep.axioms)
  let ?cs = "cp_chunkSize (sv_cp S)" and ?e = "offset + int (length data) - 1"
  have q: "go_div offset ?cs = Inr 0" using go_div_neg [OF off(1) _ S'(3)] off(1,2) S'(4) by simp
  have e: "- ?cs < ?e" "?e < ?cs" using off by (cases data; simp)+
  have "int64 (int64 (offset + int (length data)) - 1) = ?e" unfolding int64_pred using e S'(4) by (intro int64_id) auto
  moreover have "go_div ?e ?cs = Inr 0"
  proof (cases "?e < 0")
    case True
    then show ?thesis using go_div_neg [OF True _ S'(3)] e S'(4) by simp
  next
    case False
    then show ?thesis using go_div_pos [of ?e ?cs] e S'(3,4) by simp
  qed
  ultimately have within: "isWithinChunkBoundary (sv_cp S) offset (int (length data)) = Inr True"
    by (simp add: isWithinChunkBoundary_def q)
  have prep: "PrepareFileWrite (sv_B S) (c_ctx k) (sv_cp S) (c_uuid1 k) (c_uuid2 k) i offset (int (length data)) (h_meta h)
      = Inr \<lparr>wc_TxnID = c_uuid2 k, wc_ChunkID = c_uuid1 k, wc_TargetNodes = ts, wc_IsNewChunk = True\<rparr>"
    using PrepareFileWrite_repr [OF api h ctx i(1-3) _ within q, of "c_uuid1 k" "c_uuid2 k"] ts i(4) by simp
  have "offset smod ?cs = offset"
    using off(1,2) S'(3) by (simp add: signed_modulo_int_def sdiv_neg)
  then have "prepareWritePayload (sv_serve S) (sv_dp S) (c_uuid1 k) offset data ts True (h_world h)
      = (Inl (Panic ''slice bounds out of range''), h_world h)"
    using off(1) S'(2,3) by (simp add: prepareWritePayload_def Let_def)
  then show ?thesis using prep by (simp add: handleWrite_def ExecuteWrite_def abortWrite_def)
qed

lemma negative_offset_panics_witness:
  "handleWrite demo_server demo_call ''7'' (- 1) ''xyz'' demo_host = (Inl (Panic ''slice bounds out of range''), demo_host)"
proof -
  obtain a inode where a: "svc_repr img_store file_service a" "a_inodes a 7 = Some inode" "i_Type inode = TypeFile" "a_chunks a 7 = []"
    using file_repr by blast
  show ?thesis
    using negative_offset_panics [OF demo_sound _ _ small_numbers(2) a(2-4) _ _ _ _ demo_targets(1), of demo_host demo_call "- 1" "''xyz''"] a(1) run_repr(3)
    by (simp add: demo_facts)
qed

lemma PrepareFileRead_repr:
  assumes "bbolt_api B" and "svc_repr B s a" and "live ctx" and "inode_number i = Inr n" and "a_inodes a n = Some inode"
    and "0 \<le> offset" and "offset < i_FileSize inode" and "offset < 2 ^ 63" and "0 < cp_chunkSize c"
  shows "PrepareFileRead B ctx c i offset s =
     Inr (let q = offset div cp_chunkSize c
          in if int (length (a_chunks a n)) \<le> q then \<lparr>rc_ChunkID = [], rc_TargetNodes = []\<rparr>
             else \<lparr>rc_ChunkID = cd_ChunkID (a_chunks a n ! nat q), rc_TargetNodes = cd_Locations (a_chunks a n ! nat q)\<rparr>)"
proof -
  have "0 \<le> offset div cp_chunkSize c" using assms(6,9) by (simp add: pos_imp_zdiv_nonneg_iff)
  then show ?thesis using assms(4,5,7)
    by (simp add: PrepareFileRead_def bbolt_api.GetInode_repr [OF assms(1-3)] go_div_pos [OF assms(6,8,9)] chunk_at_def Let_def)
qed

text \<open>
  A write past the end of a file's chunks is acknowledged and then cannot be read where it was written: the new chunk is appended
  to the chunk list whatever the offset.  A read at the written offset returns no bytes, and the chunk answers for the
  first offset past the old chunks instead.
\<close>

lemma sparse_write_misplaced:
  assumes S: "sound_server now S" and h: "svc_repr (sv_B S) (h_meta h) a" and ctx: "live (c_ctx k)"
    and i: "inode_number i = Inr n" "a_inodes a n = Some inode" "i_Type inode = TypeFile"
    and off: "0 \<le> offset" "int (length (a_chunks a n)) < offset div cp_chunkSize (sv_cp S)" "data \<noteq> []" "offset + int (length data) < 2 ^ 63"
    and u: "fresh_name (c_uuid1 k)" "fresh_name (c_uuid2 k)" and l: "length (a_chunks a n) + 1 < 2 ^ 64"
    and ok: "handleWrite S k i offset data h = (Inr resp, h')" "r_Code resp = CodeOK"
  shows "handleRead S k i offset len h' = (Inr \<lparr>r_Code = CodeOK, r_Body = JsonBytes []\<rparr>, h')
     \<and> (\<exists>ts. PrepareFileRead (sv_B S) (c_ctx k) (sv_cp S) i (int (length (a_chunks a n)) * cp_chunkSize (sv_cp S)) (h_meta h')
          = Inr \<lparr>rc_ChunkID = c_uuid1 k, rc_TargetNodes = ts\<rparr>)"
proof -
  have S': "bbolt_sweep (sv_B S)" "dependable (sv_B S)" "sv_rep S = direct (sv_B S) now" "0 < cp_chunkSize (sv_cp S)" "cp_chunkSize (sv_cp S) \<le> 2 ^ 62"
    using S by (auto simp: sound_server_def)
  have api: "bbolt_api (sv_B S)" using S'(1) by (rule bbolt_sweep.axioms)
  let ?cs = "cp_chunkSize (sv_cp S)" and ?m = "length (a_chunks a n)"
  obtain wc w msgs s where o:
    "PrepareFileWrite (sv_B S) (c_ctx k) (sv_cp S) (c_uuid1 k) (c_uuid2 k) i offset (int (length data)) (h_meta h) = Inr wc"
    "CommitFileWrite (sv_B S) (sv_rep S) (polled 2 (c_ctx k)) (c_uuid3 k) (c_now k) (c_now' k) (wc_TxnID wc) i
       (wc_ChunkID wc) (int64 (offset + int (length data))) (wc_IsNewChunk wc) (wc_TargetNodes wc) (h_meta h) = (None, msgs, s)"
    "h_meta h' = s"
    using handleWrite_OK [OF ok] by metis
  have len: "0 < int (length data)" "int (length data) < 2 ^ 63" and off': "offset < 2 ^ 63" using off by auto
  have within: "isWithinChunkBoundary (sv_cp S) offset (int (length data)) = Inr True"
    using o(1) by (auto simp: PrepareFileWrite_def within_exact [OF S'(4,5) off(1) off' len] split: if_splits)
  obtain ts where wc: "wc = \<lparr>wc_TxnID = c_uuid2 k, wc_ChunkID = c_uuid1 k, wc_TargetNodes = ts, wc_IsNewChunk = True\<rparr>"
    using o(1) PrepareFileWrite_repr [OF api h ctx i _ within go_div_pos [OF off(1) off' S'(4)], of "c_uuid1 k" "c_uuid2 k"] off(2)
    by (auto simp: rbind_def split: sum.splits)
  have eof: "int64 (offset + int (length data)) = offset + int (length data)" using off by (intro int64_id) auto
  obtain a' where r': "svc_repr (sv_B S) (h_meta h') a'" and w': "written n (c_uuid2 k) (c_uuid1 k) ts (offset + int (length data)) True a a'"
  proof -
    obtain d a' where "CommitFileWrite (sv_B S) (direct (sv_B S) now) (polled 2 (c_ctx k)) (c_uuid3 k) (c_now k) (c_now' k) (c_uuid2 k) i (c_uuid1 k)
         (offset + int (length data)) True ts (h_meta h) = (None, broadcastCommitAsync (c_uuid2 k) (c_uuid1 k) ts, (h_meta h)\<lparr>db := Some d\<rparr>)"
        "svc_repr (sv_B S) ((h_meta h)\<lparr>db := Some d\<rparr>) a'" "written n (c_uuid2 k) (c_uuid1 k) ts (offset + int (length data)) True a a'"
      using CommitFileWrite_applies [OF S'(1,2) h bbolt_api.live_polled [OF api ctx] i(1,2) l] fresh_name_simps u by metis
    then show thesis using that o(2,3) wc S'(3) eof by simp
  qed
  obtain inode' where a': "a_inodes a' n = Some inode'" "offset < i_FileSize inode'" "a_chunks a' n = a_chunks a n @ [\<lparr>cd_ChunkID = c_uuid1 k, cd_Locations = ts\<rparr>]"
    using w' len by (auto simp: written_def less_max_iff_disj)
  have "PrepareFileRead (sv_B S) (c_ctx k) (sv_cp S) i offset (h_meta h') = Inr \<lparr>rc_ChunkID = [], rc_TargetNodes = []\<rparr>"
    using PrepareFileRead_repr [OF api r' ctx i(1) a'(1) off(1) a'(2) off' S'(4)] off(2) a'(3) by (simp add: Let_def)
  moreover have le: "int ?m * ?cs \<le> offset"
  proof -
    have "int ?m * ?cs \<le> offset div ?cs * ?cs" using off(2) S'(4) by simp
    also have "\<dots> \<le> offset" using S'(4) pos_mod_sign [OF S'(4), of offset] by (simp add: minus_mod_eq_div_mult [symmetric])
    finally show ?thesis .
  qed
  moreover have "PrepareFileRead (sv_B S) (c_ctx k) (sv_cp S) i (int ?m * ?cs) (h_meta h') = Inr \<lparr>rc_ChunkID = c_uuid1 k, rc_TargetNodes = ts\<rparr>"
    using PrepareFileRead_repr [OF api r' ctx i(1) a'(1), of "int ?m * ?cs" "sv_cp S"] le a'(2,3) off' S'(4) by (simp add: Let_def)
  ultimately show ?thesis by (auto simp: handleRead_def respond_def)
qed

lemma sparse_write_misplaced_witness:
  "\<exists>h'. handleWrite demo_server demo_call ''7'' 16 ''xyz'' demo_host = (Inr \<lparr>r_Code = CodeOK, r_Body = JsonInt 3\<rparr>, h')
     \<and> handleRead demo_server demo_call ''7'' 16 3 h' = (Inr \<lparr>r_Code = CodeOK, r_Body = JsonBytes []\<rparr>, h')"
proof -
  obtain a inode where a: "svc_repr img_store file_service a" "a_inodes a 7 = Some inode" "i_Type inode = TypeFile" "a_chunks a 7 = []"
    using file_repr by blast
  obtain h' where h': "handleWrite demo_server demo_call ''7'' 16 ''xyz'' demo_host = (Inr \<lparr>r_Code = CodeOK, r_Body = JsonInt 3\<rparr>, h')"
    using demo_write [of 16] by auto
  show ?thesis
    using sparse_write_misplaced [OF demo_sound _ _ small_numbers(2) a(2,3) _ _ _ _ _ _ _ h'] a(1,4) run_repr(3) demo_names h' by (simp add: demo_facts)
qed



end
