(* ===== verification/ClientRouting.thy ===== *)
theory ClientRouting
  imports Server
begin

text \<open>
  How the client library finds a server and retries: the router
  (\<^verbatim>\<open>clients/library/topology/hyperconverged_router.go\<close>), the translation of errors
  (\<^verbatim>\<open>clients/library/errors.go\<close>) and the request manager (\<^verbatim>\<open>clients/library/request_manager.go\<close>).

  What the client talks to is a parameter: a transport with the send operation, the clock, the wait before a
  retry (which may end with the context's error) and the text of a body.  A raw reply is an error or a
  possibly nil response.
\<close>

section \<open>Transport\<close>

type_synonym raw_reply = "Response option result"

record 'w transport =
  tr_send :: "string \<Rightarrow> request \<Rightarrow> 'w \<Rightarrow> raw_reply \<times> 'w"
  tr_now :: "'w \<Rightarrow> int"
  tr_wait :: "nat \<Rightarrow> 'w \<Rightarrow> error option \<times> 'w"
  tr_text :: "body \<Rightarrow> string"

text \<open>\<^verbatim>\<open>strings.TrimSpace\<close> on ASCII text.\<close>

definition is_space :: "char \<Rightarrow> bool" where
  "is_space c \<longleftrightarrow> c \<in> {CHR '' '', CHR 0x09, CHR 0x0A, CHR 0x0B, CHR 0x0C, CHR 0x0D}"

definition strings_TrimSpace :: "string \<Rightarrow> string" where
  "strings_TrimSpace s = rev (dropWhile is_space (rev (dropWhile is_space s)))"

section \<open>The router\<close>

text \<open>The router keeps its seeds also as its list of nodes, which nothing reads.\<close>

record router =
  ro_seeds :: "string list"
  leaderAddr :: string
  lastUpdate :: int

definition NewHyperconvergedRouter :: "string list \<Rightarrow> router" where
  "NewHyperconvergedRouter seeds = \<lparr>ro_seeds = seeds, leaderAddr = [], lastUpdate = zero_time\<rparr>"

definition GetRoute :: "bool \<Rightarrow> router \<Rightarrow> string result" where
  "GetRoute isMutation r = (if leaderAddr r = [] then Inl (Errorf ''no known route available'') else Inr (leaderAddr r))"

definition Invalidate :: "string \<Rightarrow> router \<Rightarrow> router" where
  "Invalidate failedAddr r = (if leaderAddr r = failedAddr then r\<lparr>leaderAddr := []\<rparr> else r)"

definition SetRouteHint :: "int \<Rightarrow> string \<Rightarrow> router \<Rightarrow> router" where
  "SetRouteHint now hint r = r\<lparr>leaderAddr := hint, lastUpdate := now\<rparr>"

fun fetchTopologyFromSeeds :: "'w transport \<Rightarrow> string list \<Rightarrow> 'w \<Rightarrow> string result \<times> 'w" where
  "fetchTopologyFromSeeds T [] w = (Inl (Errorf ''all seeds failed topology ping''), w)"
| "fetchTopologyFromSeeds T (seed # seeds) w =
     (case tr_send T seed TopologyRequest w of
        (Inr (Some resp), w') \<Rightarrow>
          (case r_Body resp of
             JsonTopology addr \<Rightarrow>
               if r_Code resp = CodeOK \<and> strings_TrimSpace addr \<noteq> [] then (Inr (strings_TrimSpace addr), w')
               else fetchTopologyFromSeeds T seeds w'
           | _ \<Rightarrow> fetchTopologyFromSeeds T seeds w')
      | (_, w') \<Rightarrow> fetchTopologyFromSeeds T seeds w')"

definition Refresh :: "'w transport \<Rightarrow> router \<Rightarrow> 'w \<Rightarrow> error option \<times> router \<times> 'w" where
  "Refresh T r w =
     (if tr_now T w - lastUpdate r < 1000000000 \<and> leaderAddr r \<noteq> [] then (None, r, w)
      else case fetchTopologyFromSeeds T (ro_seeds r) w of
             (Inl e, w') \<Rightarrow> (Some e, r, w')
           | (Inr newLeader, w') \<Rightarrow> (None, r\<lparr>leaderAddr := newLeader, lastUpdate := tr_now T w'\<rparr>, w'))"

section \<open>Errors\<close>

datatype ErrorClass = ClassExplicitRejection | ClassAmbiguousFailure | ClassTransportFailure | ClassSemanticError

record SystemError =
  se_Class :: ErrorClass
  se_WrappedErr :: error
  se_RoutingHint :: string

definition Translate :: "(body \<Rightarrow> string) \<Rightarrow> raw_reply \<Rightarrow> SystemError option" where
  "Translate text reply =
     (case reply of
        Inl rawErr \<Rightarrow>
          Some \<lparr>se_Class = (if errors_Is rawErr DeadlineExceeded \<or> errors_Is rawErr ContextCanceled
                           then ClassAmbiguousFailure else ClassTransportFailure), se_WrappedErr = rawErr, se_RoutingHint = []\<rparr>
      | Inr None \<Rightarrow> Some \<lparr>se_Class = ClassAmbiguousFailure, se_WrappedErr = Errorf ''nil response with no error'', se_RoutingHint = []\<rparr>
      | Inr (Some resp) \<Rightarrow>
          if r_Code resp = CodeOK then None
          else if r_Code resp = CodeNotFound \<or> r_Code resp = CodeAlreadyExists
          then Some \<lparr>se_Class = ClassSemanticError, se_WrappedErr = Errorf ''semantic error'', se_RoutingHint = []\<rparr>
          else if r_Code resp = CodeNotLeader \<or> r_Code resp = CodeOther ''WRONG_NODE''
          then Some \<lparr>se_Class = ClassExplicitRejection, se_WrappedErr = Errorf ''explicit rejection'', se_RoutingHint = text (r_Body resp)\<rparr>
          else Some \<lparr>se_Class = ClassAmbiguousFailure, se_WrappedErr = Errorf ''unknown server error'', se_RoutingHint = []\<rparr>)"

section \<open>The request manager\<close>

text \<open>The wait before retry number \<open>attempt\<close>, in nanoseconds; \<open>r\<close> is the random number drawn below 50.\<close>

definition calculateJitter :: "nat \<Rightarrow> int \<Rightarrow> int" where
  "calculateJitter attempt r =
     (let wait = int64 (100000000 * int64 (2 ^ attempt))
      in (if wait > 1000000000 then 1000000000 else wait) + r * 1000000)"

definition getRoute :: "'w transport \<Rightarrow> bool \<Rightarrow> router \<Rightarrow> 'w \<Rightarrow> string result \<times> router \<times> 'w" where
  "getRoute T isMutation ro w =
     (case GetRoute isMutation ro of
        Inr targetAddr \<Rightarrow> (Inr targetAddr, ro, w)
      | Inl e \<Rightarrow>
          (case Refresh T ro w of
             (Some _, ro', w') \<Rightarrow> (Inl e, ro', w')
           | (None, ro', w') \<Rightarrow> (GetRoute isMutation ro', ro', w')))"

text \<open>The part both loops share after a rejection: take the hint or refresh, then wait.\<close>

definition reroute :: "'w transport \<Rightarrow> nat \<Rightarrow> SystemError \<Rightarrow> router \<Rightarrow> 'w \<Rightarrow> error option \<times> router \<times> 'w" where
  "reroute T attempt sysErr ro w =
     (let (ro', w') = (if se_RoutingHint sysErr \<noteq> [] then (SetRouteHint (tr_now T w) (se_RoutingHint sysErr) ro, w)
                       else (case Refresh T ro w of (_, ro', w') \<Rightarrow> (ro', w')));
          (e, w'') = tr_wait T attempt w'
      in (map_option (Wrap ''request cancelled during retry backoff'') e, ro', w''))"

definition maxRetries :: nat where "maxRetries = 3"

function mutationLoop ::
  "'w transport \<Rightarrow> request \<Rightarrow> nat \<Rightarrow> error \<Rightarrow> router \<Rightarrow> 'w \<Rightarrow> raw_reply \<times> router \<times> 'w" where
  "mutationLoop T req attempt lastErr ro w =
     (if maxRetries \<le> attempt then (Inl (Wrap ''mutation failed after 3 attempts'' lastErr), ro, w)
      else case getRoute T True ro w of
        (Inl e, ro1, w1) \<Rightarrow> (Inl e, ro1, w1)
      | (Inr targetAddr, ro1, w1) \<Rightarrow>
          (case tr_send T targetAddr req w1 of
             (reply, w2) \<Rightarrow>
               (case Translate (tr_text T) reply of
                  None \<Rightarrow> (reply, ro1, w2)
                | Some sysErr \<Rightarrow>
                    (case se_Class sysErr of
                       ClassSemanticError \<Rightarrow> (reply, ro1, w2)
                     | ClassAmbiguousFailure \<Rightarrow> (Inl (se_WrappedErr sysErr), Invalidate targetAddr ro1, w2)
                     | ClassTransportFailure \<Rightarrow> (Inl (se_WrappedErr sysErr), Invalidate targetAddr ro1, w2)
                     | ClassExplicitRejection \<Rightarrow>
                         (case reroute T attempt sysErr ro1 w2 of
                            (Some e, ro3, w3) \<Rightarrow> (Inl e, ro3, w3)
                          | (None, ro3, w3) \<Rightarrow> mutationLoop T req (attempt + 1) (se_WrappedErr sysErr) ro3 w3)))))"
  by pat_completeness auto
termination by (relation "measure (\<lambda>(T, req, attempt, _). maxRetries - attempt)") auto

function idempotentLoop ::
  "'w transport \<Rightarrow> request \<Rightarrow> nat \<Rightarrow> error \<Rightarrow> router \<Rightarrow> 'w \<Rightarrow> raw_reply \<times> router \<times> 'w" where
  "idempotentLoop T req attempt lastErr ro w =
     (if maxRetries \<le> attempt then (Inl (Wrap ''idempotent op failed after 3 attempts'' lastErr), ro, w)
      else case getRoute T False ro w of
        (Inl e, ro1, w1) \<Rightarrow> (Inl e, ro1, w1)
      | (Inr targetAddr, ro1, w1) \<Rightarrow>
          (case tr_send T targetAddr req w1 of
             (reply, w2) \<Rightarrow>
               (case Translate (tr_text T) reply of
                  None \<Rightarrow> (reply, ro1, w2)
                | Some sysErr \<Rightarrow>
                    (case se_Class sysErr of
                       ClassSemanticError \<Rightarrow> (reply, ro1, w2)
                     | ClassAmbiguousFailure \<Rightarrow> (Inl (se_WrappedErr sysErr), ro1, w2)
                     | _ \<Rightarrow>
                         (case reroute T attempt sysErr (Invalidate targetAddr ro1) w2 of
                            (Some e, ro3, w3) \<Rightarrow> (Inl e, ro3, w3)
                          | (None, ro3, w3) \<Rightarrow> idempotentLoop T req (attempt + 1) (se_WrappedErr sysErr) ro3 w3)))))"
  by pat_completeness auto
termination by (relation "measure (\<lambda>(T, req, attempt, _). maxRetries - attempt)") auto

declare mutationLoop.simps [simp del] idempotentLoop.simps [simp del]

definition ExecuteMutation :: "'w transport \<Rightarrow> request \<Rightarrow> router \<Rightarrow> 'w \<Rightarrow> raw_reply \<times> router \<times> 'w" where
  "ExecuteMutation T req ro w = mutationLoop T req 0 (Errorf ''nil'') ro w"

definition ExecuteIdempotent :: "'w transport \<Rightarrow> request \<Rightarrow> router \<Rightarrow> 'w \<Rightarrow> raw_reply \<times> router \<times> 'w" where
  "ExecuteIdempotent T req ro w = idempotentLoop T req 0 (Errorf ''nil'') ro w"

end
