(* ===== verification/ClientLib.thy ===== *)
theory ClientLib
  imports ClientRouting
begin

text \<open>
  The client library (\<^verbatim>\<open>clients/library/client.go\<close>): open files with a write buffer each, and the
  operations on paths.  The table of open files is a list of numbered entries (in the unspecified order in which Go walks a
  map); an operation runs under its locks, one after the other.  \<^verbatim>\<open>c == nil\<close> and \<^verbatim>\<open>c.Comm == nil\<close> do not occur.  Go's
  \<^verbatim>\<open>int\<close> has 64 bits.  Of error texts the constant part is kept.  The body of an answer is the
  value the server encodes for that request, none, or text that is not the JSON of one.
\<close>

section \<open>State\<close>

record SandstoreFD =
  fd_FD :: nat
  fd_InodeID :: string
  fd_FilePath :: string
  fd_Mode :: "64 word"
  fd_Offset :: int
  fd_Buffer :: bytes

record 'w client =
  cl_ServerAddr :: string
  cl_router :: router
  OpenFiles :: "(nat \<times> SandstoreFD) list"
  cl_world :: 'w

definition firstUserFD :: nat where "firstUserFD = 3"
definition writeBufferLimit :: nat where "writeBufferLimit = 2 * 1024 * 1024"
definition writeRPCChunkSize :: int where "writeRPCChunkSize = 8 * 1024 * 1024"

definition O_WRONLY :: "64 word" where "O_WRONLY = 1"
definition O_RDWR :: "64 word" where "O_RDWR = 2"
definition O_CREATE :: "64 word" where "O_CREATE = 0x40"

definition NewSandstoreClient :: "'w transport \<Rightarrow> string list \<Rightarrow> 'w \<Rightarrow> 'w client result" where
  "NewSandstoreClient T seeds w =
     (case Refresh T (NewHyperconvergedRouter seeds) w of
        (Some e, _, _) \<Rightarrow> Inl (Wrap ''initial topology bootstrap failed'' e)
      | (None, ro, w') \<Rightarrow>
          Inr \<lparr>cl_ServerAddr = (case GetRoute True ro of Inr a \<Rightarrow> a | Inl _ \<Rightarrow> if seeds \<noteq> [] then hd seeds else []),
               cl_router = ro, OpenFiles = [], cl_world = w'\<rparr>)"

definition no_address :: error where
  "no_address = Errorf ''sandstore server address is empty''"

definition bad_fd :: error where
  "bad_fd = Errorf ''bad file descriptor''"

section \<open>Paths\<close>

text \<open>\<^verbatim>\<open>path.Dir\<close> and \<^verbatim>\<open>path.Base\<close> (\<^verbatim>\<open>path.Clean\<close> is \<^verbatim>\<open>filepath.Clean\<close> on Unix).\<close>

definition before_last_slash :: "string \<Rightarrow> string" where
  "before_last_slash p = rev (dropWhile (\<lambda>c. c \<noteq> CHR ''/'') (rev p))"

definition path_Dir :: "string \<Rightarrow> string" where
  "path_Dir p = filepath_Clean (before_last_slash p)"

definition path_Base :: "string \<Rightarrow> string" where
  "path_Base p =
     (if p = [] then ''.''
      else let q = rev (dropWhile (\<lambda>c. c = CHR ''/'') (rev p)); b = rev (takeWhile (\<lambda>c. c \<noteq> CHR ''/'') (rev q))
           in if b = [] then ''/'' else b)"

definition normalizePath :: "string \<Rightarrow> string result" where
  "normalizePath path =
     (let trimmed = strings_TrimSpace path
      in if trimmed = [] then Inl (Errorf ''invalid path: empty path'')
         else let cleanPath = filepath_Clean trimmed
              in if \<not> has_prefix cleanPath ''/'' then Inl (Errorf ''invalid path: expected absolute path'') else Inr cleanPath)"

definition splitParentAndName :: "string \<Rightarrow> (string \<times> string) result" where
  "splitParentAndName path =
     (if path = ''/'' then Inl (Errorf ''cannot create root path'')
      else let parent = (if path_Dir path = ''.'' \<or> path_Dir path = [] then ''/'' else path_Dir path); name = path_Base path
           in if name = [] \<or> name = ''.'' \<or> name = ''/'' then Inl (Errorf ''invalid path'') else Inr (parent, name))"

text \<open>\<^verbatim>\<open>Mkdir\<close> and \<^verbatim>\<open>Rmdir\<close> split for themselves.\<close>

definition dirAndBase :: "string \<Rightarrow> (string \<times> string) result" where
  "dirAndBase cleanPath =
     (let name = path_Base cleanPath
      in if name = [] \<or> name = ''.'' \<or> name = ''/'' then Inl (Errorf ''invalid path'') else Inr (path_Dir cleanPath, name))"

section \<open>Requests\<close>

definition responseError :: "string \<Rightarrow> Response \<Rightarrow> error" where
  "responseError op resp =
     (if r_Code resp = CodeNotFound then Wrap op OsNotExist
      else if r_Code resp = CodeAlreadyExists then Errorf ''file exists'' else Errorf ''failed'')"

definition send :: "'w transport \<Rightarrow> request \<Rightarrow> bool \<Rightarrow> 'w client \<Rightarrow> Response result \<times> 'w client" where
  "send T req isMutation c =
     (case (if isMutation then ExecuteMutation T req (cl_router c) (cl_world c) else ExecuteIdempotent T req (cl_router c) (cl_world c)) of
        (r, ro, w) \<Rightarrow>
          (case r of Inl e \<Rightarrow> Inl e | Inr None \<Rightarrow> Inl (Panic ''nil pointer dereference'') | Inr (Some resp) \<Rightarrow> Inr resp,
           c\<lparr>cl_router := ro, cl_world := w\<rparr>))"

text \<open>The sending of a request whose answer must be OK, as most operations do it.\<close>

definition call_ok :: "'w transport \<Rightarrow> string \<Rightarrow> request \<Rightarrow> bool \<Rightarrow> 'w client \<Rightarrow> body result \<times> 'w client" where
  "call_ok T op req isMutation c =
     (case send T req isMutation c of
        (Inl e, c') \<Rightarrow> (Inl (Wrap op e), c')
      | (Inr resp, c') \<Rightarrow> (if r_Code resp \<noteq> CodeOK then Inl (responseError op resp) else Inr (r_Body resp), c'))"

text \<open>
  The id in the body of a lookup's answer.  An answer of the server is the JSON text of a string; other bytes are taken as they
  are, unless they begin like JSON text (which they are then not).
\<close>

fun decode_inode_id :: "body \<Rightarrow> string result" where
  "decode_inode_id (JsonString s) = Inr s"
| "decode_inode_id (RawBody b) =
     (let t = strings_TrimSpace b
      in if t = [] \<or> hd t = CHR ''{'' \<or> hd t = CHR 0x22 then Inl (Errorf ''failed to decode lookup response'') else Inr t)"
| "decode_inode_id _ = Inl (Errorf ''failed to decode lookup response'')"

text \<open>The result of \<^verbatim>\<open>lookupPath\<close>: an error, or the response with, if its code is OK, the inode's id.\<close>

definition lookupPath :: "'w transport \<Rightarrow> string \<Rightarrow> 'w client \<Rightarrow> (string \<times> Response) result \<times> 'w client" where
  "lookupPath T path c =
     (case send T (LookupPathRequest path) False c of
        (Inl e, c') \<Rightarrow> (Inl (Wrap ''lookup failed'' e), c')
      | (Inr resp, c') \<Rightarrow>
          (if r_Code resp \<noteq> CodeOK then Inr ([], resp)
           else case decode_inode_id (r_Body resp) of Inl e \<Rightarrow> Inl e | Inr i \<Rightarrow> Inr (i, resp), c'))"

definition lookup_ok :: "'w transport \<Rightarrow> string \<Rightarrow> string \<Rightarrow> 'w client \<Rightarrow> string result \<times> 'w client" where
  "lookup_ok T op path c =
     (case lookupPath T path c of
        (Inl e, c') \<Rightarrow> (Inl e, c')
      | (Inr (i, resp), c') \<Rightarrow> (if r_Code resp \<noteq> CodeOK then Inl (responseError op resp) else Inr i, c'))"

definition createPath :: "'w transport \<Rightarrow> string \<Rightarrow> 64 word \<Rightarrow> 'w client \<Rightarrow> Response result \<times> 'w client" where
  "createPath T path mode c =
     (case splitParentAndName path of
        Inl e \<Rightarrow> (Inl e, c)
      | Inr (parentPath, name) \<Rightarrow>
          (case lookupPath T parentPath c of
             (Inl e, c') \<Rightarrow> (Inl e, c')
           | (Inr (parentID, parentResp), c') \<Rightarrow>
               if r_Code parentResp \<noteq> CodeOK then (Inr parentResp, c')
               else let m = ucast (and mode 0x1FF); createMode = (if m = 0 then 0x1A4 else m)
                    in send T (CreateRequest parentID name createMode 0 0) True c'))"

fun decodeInodeID :: "body \<Rightarrow> string result" where
  "decodeInodeID (JsonInode inode) = (if i_InodeID inode = [] then Inl (Errorf ''create response missing inode id'') else Inr (i_InodeID inode))"
| "decodeInodeID _ = Inl (Errorf ''failed to decode create response'')"

section \<open>Open files\<close>

function freeFD :: "(nat \<times> SandstoreFD) list \<Rightarrow> nat \<Rightarrow> nat result" where
  "freeFD files fd =
     (if map_of files fd = None then Inr fd
      else if fd = MaxUint64 then Inl (Errorf ''no free file descriptor available'')
      else freeFD files (fd + 1))"
  by pat_completeness auto
termination
proof (relation "measure (\<lambda>(files, fd). card {k \<in> fst ` set files. fd \<le> k})")
  fix files :: "(nat \<times> SandstoreFD) list" and fd
  assume "map_of files fd \<noteq> None"
  then have "fd \<in> {k \<in> fst ` set files. fd \<le> k}" by (auto simp: map_of_eq_None_iff)
  moreover have "fd \<notin> {k \<in> fst ` set files. fd + 1 \<le> k}" by simp
  moreover have "{k \<in> fst ` set files. fd + 1 \<le> k} \<subseteq> {k \<in> fst ` set files. fd \<le> k}" by auto
  ultimately have "{k \<in> fst ` set files. fd + 1 \<le> k} \<subset> {k \<in> fst ` set files. fd \<le> k}" by blast
  then show "((files, fd + 1), (files, fd)) \<in> measure (\<lambda>(files, fd). card {k \<in> fst ` set files. fd \<le> k})"
    by (simp add: psubset_card_mono)
qed simp

declare freeFD.simps [simp del]

definition addFD :: "string \<Rightarrow> string \<Rightarrow> 64 word \<Rightarrow> 'w client \<Rightarrow> nat result \<times> 'w client" where
  "addFD inodeID filePath mode c =
     (case freeFD (OpenFiles c) firstUserFD of
        Inl e \<Rightarrow> (Inl e, c)
      | Inr fd \<Rightarrow>
          if fd > 2 ^ 63 - 1 then (Inl (Errorf ''file descriptor exceeds int range''), c)
          else (Inr fd, c\<lparr>OpenFiles := (fd, \<lparr>fd_FD = fd, fd_InodeID = inodeID, fd_FilePath = filePath, fd_Mode = mode, fd_Offset = 0, fd_Buffer = []\<rparr>) # OpenFiles c\<rparr>))"

definition clOpen :: "'w transport \<Rightarrow> string \<Rightarrow> 64 word \<Rightarrow> 'w client \<Rightarrow> nat result \<times> 'w client" where
  "clOpen T path mode c =
     (if cl_ServerAddr c = [] then (Inl no_address, c)
      else case normalizePath path of
        Inl e \<Rightarrow> (Inl e, c)
      | Inr cleanPath \<Rightarrow>
          (case lookupPath T cleanPath c of
             (Inl e, c1) \<Rightarrow> (Inl e, c1)
           | (Inr (inodeID, lookupResp), c1) \<Rightarrow>
               if r_Code lookupResp = CodeOK then addFD inodeID cleanPath mode c1
               else if r_Code lookupResp \<noteq> CodeNotFound \<or> and mode O_CREATE = 0 then (Inl (responseError ''open'' lookupResp), c1)
               else case createPath T cleanPath mode c1 of
                 (Inl e, c2) \<Rightarrow> (Inl e, c2)
               | (Inr createResp, c2) \<Rightarrow>
                   if r_Code createResp = CodeOK
                   then (case decodeInodeID (r_Body createResp) of
                           Inl e \<Rightarrow> (Inl e, c2)
                         | Inr inodeID' \<Rightarrow> addFD inodeID' cleanPath mode c2)
                   else if r_Code createResp = CodeAlreadyExists
                   then (case lookupPath T cleanPath c2 of
                           (Inl e, c3) \<Rightarrow> (Inl e, c3)
                         | (Inr (inodeID', retryResp), c3) \<Rightarrow>
                             if r_Code retryResp \<noteq> CodeOK then (Inl (responseError ''open'' retryResp), c3)
                             else addFD inodeID' cleanPath mode c3)
                   else (Inl (responseError ''create'' createResp), c2)))"

text \<open>The checks that every operation on a descriptor starts with.\<close>

definition withFD :: "int \<Rightarrow> 'w client \<Rightarrow> SandstoreFD result" where
  "withFD fd c =
     (if cl_ServerAddr c = [] then Inl no_address
      else if fd < 0 then Inl bad_fd
      else of_opt bad_fd (map_of (OpenFiles c) (nat fd)))"

definition setFD :: "int \<Rightarrow> SandstoreFD \<Rightarrow> 'w client \<Rightarrow> 'w client" where
  "setFD fd f c = c\<lparr>OpenFiles := map (\<lambda>(k, v). if k = nat fd then (k, f) else (k, v)) (OpenFiles c)\<rparr>"

definition clRead :: "'w transport \<Rightarrow> int \<Rightarrow> int \<Rightarrow> 'w client \<Rightarrow> bytes result \<times> 'w client" where
  "clRead T fd n c =
     (if cl_ServerAddr c = [] then (Inl no_address, c)
      else if fd < 0 then (Inl bad_fd, c)
      else if n < 0 then (Inl (Errorf ''invalid read length''), c)
      else case withFD fd c of
        Inl e \<Rightarrow> (Inl e, c)
      | Inr f \<Rightarrow>
          if and (fd_Mode f) O_WRONLY \<noteq> 0 \<and> and (fd_Mode f) O_RDWR = 0 then (Inl (Errorf ''file not open for reading''), c)
          else case call_ok T ''read'' (ReadRequest (fd_InodeID f) (fd_Offset f) n) False c of
            (Inl e, c1) \<Rightarrow> (Inl e, c1)
          | (Inr b, c1) \<Rightarrow>
              (case b of
                 JsonBytes data \<Rightarrow> (Inr data, setFD fd (f\<lparr>fd_Offset := int64 (fd_Offset f + int (length data))\<rparr>) c1)
               | NoBody \<Rightarrow> (Inr [], setFD fd f c1)
               | _ \<Rightarrow> (Inl (Errorf ''failed to decode read response''), c1)))"

text \<open>
  \<^verbatim>\<open>sendWriteInChunks\<close> from \<open>written\<close> on: the next piece ends at the payload's end or at the next multiple of the chunk
  size, whichever comes first.
\<close>

definition chunkLimit :: "int \<Rightarrow> int" where
  "chunkLimit currOffset =
     (let m = currOffset smod writeRPCChunkSize
      in if m \<noteq> 0 \<and> writeRPCChunkSize - m < writeRPCChunkSize then writeRPCChunkSize - m else writeRPCChunkSize)"

lemma chunkLimit_pos: "0 < chunkLimit x"
  using smod_int_range [of writeRPCChunkSize x] by (simp add: chunkLimit_def Let_def writeRPCChunkSize_def)

function sendWriteInChunks ::
  "'w transport \<Rightarrow> string \<Rightarrow> string \<Rightarrow> int \<Rightarrow> bytes \<Rightarrow> nat \<Rightarrow> 'w client \<Rightarrow> error option \<times> 'w client" where
  "sendWriteInChunks T op inodeID startOffset payload written c =
     (if length payload \<le> written then (None, c)
      else let currOffset = int64 (startOffset + int written);
               end' = min (written + nat (chunkLimit currOffset)) (length payload)
           in case call_ok T op (WriteRequest inodeID currOffset (take (end' - written) (drop written payload))) True c of
                (Inl e, c') \<Rightarrow> (Some e, c')
              | (Inr _, c') \<Rightarrow> sendWriteInChunks T op inodeID startOffset payload end' c')"
  by pat_completeness auto
termination
proof (relation "measure (\<lambda>(T, op, i, s, payload, written, c). length payload - written)")
  fix written :: nat and payload :: bytes and currOffset :: int and end'
  assume "\<not> length payload \<le> written" "end' = min (written + nat (chunkLimit currOffset)) (length payload)"
  then show "((T, op, inodeID, startOffset, payload, end', c'), T, op, inodeID, startOffset, payload, written, c)
      \<in> measure (\<lambda>(T, op, i, s, payload, written, c). length payload - written)" for T :: "'w transport" and op inodeID startOffset and c c' :: "'w client"
    using chunkLimit_pos [of currOffset] by auto
qed simp

declare sendWriteInChunks.simps [simp del]

definition flushBufferedWrites :: "'w transport \<Rightarrow> string \<Rightarrow> SandstoreFD \<Rightarrow> 'w client \<Rightarrow> error option \<times> SandstoreFD \<times> 'w client" where
  "flushBufferedWrites T op f c =
     (if fd_Buffer f = [] then (None, f, c)
      else case sendWriteInChunks T op (fd_InodeID f) (int64 (fd_Offset f - int (length (fd_Buffer f)))) (fd_Buffer f) 0 c of
             (Some e, c') \<Rightarrow> (Some e, f, c')
           | (None, c') \<Rightarrow> (None, f\<lparr>fd_Buffer := []\<rparr>, c'))"

text \<open>\<^verbatim>\<open>Write\<close> after the checks, on the open file.\<close>

definition writeFile :: "'w transport \<Rightarrow> bytes \<Rightarrow> SandstoreFD \<Rightarrow> 'w client \<Rightarrow> int result \<times> SandstoreFD \<times> 'w client" where
  "writeFile T data f c =
     (case (if fd_Buffer f \<noteq> [] \<and> writeBufferLimit < length (fd_Buffer f) + length data then flushBufferedWrites T ''write'' f c else (None, f, c)) of
        (Some e, f1, c1) \<Rightarrow> (Inl e, f1, c1)
      | (None, f1, c1) \<Rightarrow>
          let f2 = f1\<lparr>fd_Buffer := fd_Buffer f1 @ data, fd_Offset := int64 (fd_Offset f1 + int (length data))\<rparr>;
              flushBytes = length (fd_Buffer f2) - writeBufferLimit;
              flushOffset = int64 (fd_Offset f2 - int (length (fd_Buffer f2)))
          in if length (fd_Buffer f2) \<le> writeBufferLimit then (Inr (int (length data)), f2, c1)
             else case sendWriteInChunks T ''write'' (fd_InodeID f2) flushOffset (take flushBytes (fd_Buffer f2)) 0 c1 of
                    (Some e, c2) \<Rightarrow> (Inl e, f2, c2)
                  | (None, c2) \<Rightarrow> (Inr (int (length data)), f2\<lparr>fd_Buffer := drop flushBytes (fd_Buffer f2)\<rparr>, c2))"

definition clWrite :: "'w transport \<Rightarrow> int \<Rightarrow> bytes \<Rightarrow> 'w client \<Rightarrow> int result \<times> 'w client" where
  "clWrite T fd data c =
     (case withFD fd c of
        Inl e \<Rightarrow> (Inl e, c)
      | Inr f \<Rightarrow>
          if and (fd_Mode f) O_WRONLY = 0 \<and> and (fd_Mode f) O_RDWR = 0 then (Inl (Errorf ''file not open for writing''), c)
          else if data = [] then (Inr 0, c)
          else case writeFile T data f c of (r, f', c') \<Rightarrow> (r, setFD fd f' c'))"

definition clFsync :: "'w transport \<Rightarrow> int \<Rightarrow> 'w client \<Rightarrow> error option \<times> 'w client" where
  "clFsync T fd c =
     (case withFD fd c of
        Inl e \<Rightarrow> (Some e, c)
      | Inr f \<Rightarrow> (case flushBufferedWrites T ''fsync'' f c of (e, f', c') \<Rightarrow> (e, setFD fd f' c')))"

definition clClose :: "'w transport \<Rightarrow> int \<Rightarrow> 'w client \<Rightarrow> error option \<times> 'w client" where
  "clClose T fd c =
     (case withFD fd c of
        Inl e \<Rightarrow> (Some e, c)
      | Inr f \<Rightarrow>
          (case flushBufferedWrites T ''close'' f (c\<lparr>OpenFiles := filter (\<lambda>(k, _). k \<noteq> nat fd) (OpenFiles c)\<rparr>) of (e, _, c') \<Rightarrow> (e, c')))"

section \<open>Operations on paths\<close>

definition with_path :: "string \<Rightarrow> 'w client \<Rightarrow> string result" where
  "with_path path c = (if cl_ServerAddr c = [] then Inl no_address else normalizePath path)"

definition clRemove :: "'w transport \<Rightarrow> string \<Rightarrow> 'w client \<Rightarrow> error option \<times> 'w client" where
  "clRemove T path c =
     (case with_path path c of
        Inl e \<Rightarrow> (Some e, c)
      | Inr cleanPath \<Rightarrow>
     (case splitParentAndName cleanPath of
        Inl e \<Rightarrow> (Some e, c)
      | Inr (parentPath, name) \<Rightarrow>
          let target = find (\<lambda>(_, f). fd_FilePath f = cleanPath) (OpenFiles c)
          in case (case target of Some (_, f) \<Rightarrow> (Inr (fd_InodeID f), c) | None \<Rightarrow> lookup_ok T ''remove'' cleanPath c) of
               (Inl e, c1) \<Rightarrow> (Some e, c1)
             | (Inr inodeID, c1) \<Rightarrow>
                 if inodeID = [] then (Some (Errorf ''remove failed: missing inode id''), c1)
                 else case lookup_ok T ''remove'' parentPath c1 of
                   (Inl e, c2) \<Rightarrow> (Some e, c2)
                 | (Inr parentID, c2) \<Rightarrow>
                     (case call_ok T ''remove'' (RemoveRequest parentID name) True c2 of
                        (Inl e, c3) \<Rightarrow> (Some e, c3)
                      | (Inr _, c3) \<Rightarrow>
                          (None, case target of
                                   None \<Rightarrow> c3
                                 | Some (fd, _) \<Rightarrow> c3\<lparr>OpenFiles := filter (\<lambda>(k, _). k \<noteq> fd) (OpenFiles c3)\<rparr>))))"

definition clRename :: "'w transport \<Rightarrow> string \<Rightarrow> string \<Rightarrow> 'w client \<Rightarrow> error option \<times> 'w client" where
  "clRename T src dst c =
     (case rbind (with_path src c) (\<lambda>cleanSrc. rbind (normalizePath dst) (\<lambda>cleanDst.
             rbind (splitParentAndName cleanSrc) (\<lambda>s. rbind (splitParentAndName cleanDst) (\<lambda>d. Inr (cleanSrc, cleanDst, s, d))))) of
        Inl e \<Rightarrow> (Some e, c)
      | Inr (cleanSrc, cleanDst, (srcParentPath, srcName), (dstParentPath, dstName)) \<Rightarrow>
          (case lookup_ok T ''rename'' srcParentPath c of
             (Inl e, c1) \<Rightarrow> (Some e, c1)
           | (Inr srcParentID, c1) \<Rightarrow>
          (case lookup_ok T ''rename'' dstParentPath c1 of
             (Inl e, c2) \<Rightarrow> (Some e, c2)
           | (Inr dstParentID, c2) \<Rightarrow>
          (case call_ok T ''rename'' (RenameRequest srcParentID srcName dstParentID dstName) True c2 of
             (Inl e, c3) \<Rightarrow> (Some e, c3)
           | (Inr _, c3) \<Rightarrow>
               (None, c3\<lparr>OpenFiles := map (\<lambda>(k, f). (k, if fd_FilePath f = cleanSrc then f\<lparr>fd_FilePath := cleanDst\<rparr> else f)) (OpenFiles c3)\<rparr>)))))"

text \<open>What \<^verbatim>\<open>Mkdir\<close> and \<^verbatim>\<open>Rmdir\<close> share: the parent is looked up and the request sent.\<close>

definition inParent ::
  "'w transport \<Rightarrow> string \<Rightarrow> string \<Rightarrow> (string \<Rightarrow> string \<Rightarrow> request) \<Rightarrow> 'w client \<Rightarrow> error option \<times> 'w client" where
  "inParent T op path req c =
     (case rbind (with_path path c) dirAndBase of
        Inl e \<Rightarrow> (Some e, c)
      | Inr (parentPath, name) \<Rightarrow>
          (case lookup_ok T op parentPath c of
             (Inl e, c1) \<Rightarrow> (Some e, c1)
           | (Inr parentID, c1) \<Rightarrow>
               (case call_ok T op (req parentID name) True c1 of
                  (Inl e, c2) \<Rightarrow> (Some e, c2)
                | (Inr _, c2) \<Rightarrow> (None, c2))))"

definition clMkdir :: "'w transport \<Rightarrow> string \<Rightarrow> 64 word \<Rightarrow> 'w client \<Rightarrow> error option \<times> 'w client" where
  "clMkdir T path mode c = inParent T ''mkdir'' path (\<lambda>parentID name. MkdirRequest parentID name (ucast (and mode 0x1FF)) 0 0) c"

definition clRmdir :: "'w transport \<Rightarrow> string \<Rightarrow> 'w client \<Rightarrow> error option \<times> 'w client" where
  "clRmdir T path c = inParent T ''rmdir'' path RmdirRequest c"

text \<open>The paging loop of \<^verbatim>\<open>ListDir\<close>; it has no result if the server never says that the listing is complete.\<close>

partial_function (option) listPages ::
  "'w transport \<Rightarrow> string \<Rightarrow> DirEntry list \<Rightarrow> int \<Rightarrow> 'w client \<Rightarrow> (DirEntry list result \<times> 'w client) option" where
  "listPages T inodeID allEntries cookie c =
     (case call_ok T ''listdir'' (ReadDirRequest inodeID cookie 100) False c of
        (Inl e, c') \<Rightarrow> Some (Inl e, c')
      | (Inr b, c') \<Rightarrow>
          (case b of
             JsonReadDir entries cookie' eof \<Rightarrow>
               if eof then Some (Inr (allEntries @ entries), c') else listPages T inodeID (allEntries @ entries) cookie' c'
           | _ \<Rightarrow> Some (Inl (Errorf ''failed to decode listdir response''), c')))"

definition clListDir :: "'w transport \<Rightarrow> string \<Rightarrow> 'w client \<Rightarrow> (DirEntry list result \<times> 'w client) option" where
  "clListDir T path c =
     (case with_path path c of
        Inl e \<Rightarrow> Some (Inl e, c)
      | Inr cleanPath \<Rightarrow>
          (case lookup_ok T ''listdir'' cleanPath c of
             (Inl e, c1) \<Rightarrow> Some (Inl e, c1)
           | (Inr inodeID, c1) \<Rightarrow> listPages T inodeID [] 0 c1))"

definition zero_attributes :: Attributes where
  "zero_attributes = \<lparr>a_InodeID = [], a_Type = TypeFile, a_Mode = 0, a_Size = 0, a_AccessTime = zero_time, a_ModifyTime = zero_time,
     a_ChangeTime = zero_time, a_UID = 0, a_GID = 0\<rparr>"

definition clStat :: "'w transport \<Rightarrow> string \<Rightarrow> 'w client \<Rightarrow> Attributes result \<times> 'w client" where
  "clStat T path c =
     (case with_path path c of
        Inl e \<Rightarrow> (Inl e, c)
      | Inr cleanPath \<Rightarrow>
          (case lookup_ok T ''stat'' cleanPath c of
             (Inl e, c1) \<Rightarrow> (Inl e, c1)
           | (Inr inodeID, c1) \<Rightarrow>
               (case call_ok T ''stat'' (GetAttrRequest inodeID) False c1 of
                  (Inl e, c2) \<Rightarrow> (Inl e, c2)
                | (Inr b, c2) \<Rightarrow>
                    (case b of
                       JsonAttributes a \<Rightarrow> Inr a
                     | NoBody \<Rightarrow> Inr zero_attributes
                     | _ \<Rightarrow> Inl (Errorf ''failed to decode stat response''), c2))))"

end
