(* ===== verification/ClientProps.thy ===== *)
theory ClientProps
  imports ClientLib WritePath
begin

text \<open>
  What the client library does with its requests: a mutation is repeated only after an explicit rejection, buffered writes
  reach the server complete and in pieces that stay within a chunk, a listing is complete; and what a read
  does to buffered writes.

  A transport is observed by a log of what was sent and what came back (\<open>logged\<close>), which does not
  change its behaviour.
\<close>

section \<open>Logging\<close>

type_synonym exchange = "string \<times> request \<times> raw_reply"

definition logged :: "'w transport \<Rightarrow> ('w \<times> exchange list) transport" where
  "logged T =
     \<lparr>tr_send = (\<lambda>a q (w, l). let (r, w') = tr_send T a q w in (r, w', l @ [(a, q, r)])),
      tr_now = (\<lambda>(w, l). tr_now T w),
      tr_wait = (\<lambda>n (w, l). let (e, w') = tr_wait T n w in (e, w', l)),
      tr_text = tr_text T\<rparr>"

lemma logged_sel [simp]:
  "tr_send (logged T) a q (w, l) = (let (r, w') = tr_send T a q w in (r, w', l @ [(a, q, r)]))"
  "tr_now (logged T) (w, l) = tr_now T w"
  "tr_wait (logged T) n (w, l) = (let (e, w') = tr_wait T n w in (e, w', l))"
  "tr_text (logged T) = tr_text T"
  by (simp_all add: logged_def)

definition sends :: "request \<Rightarrow> exchange list \<Rightarrow> exchange list" where
  "sends q l = filter (\<lambda>e. fst (snd e) = q) l"

lemma sends_simps [simp]: "sends q [] = []" "sends q (l @ m) = sends q l @ sends q m" "sends q (x # l) = (if fst (snd x) = q then x # sends q l else sends q l)"
  by (simp_all add: sends_def)

lemma sends_same: "x \<in> set (sends q l) \<Longrightarrow> fst (snd x) = q"
  by (simp add: sends_def)

definition rejects :: "raw_reply \<Rightarrow> bool" where
  "rejects r = (case r of Inr (Some resp) \<Rightarrow> r_Code resp = CodeNotLeader \<or> r_Code resp = CodeOther ''WRONG_NODE'' | _ \<Rightarrow> False)"

definition pings :: "exchange list \<Rightarrow> bool" where
  "pings l \<longleftrightarrow> (\<forall>e\<in>set l. fst (snd e) = TopologyRequest)"

lemma pings_simps [simp]: "pings []" "pings (l @ m) \<longleftrightarrow> pings l \<and> pings m" "pings (x # l) \<longleftrightarrow> fst (snd x) = TopologyRequest \<and> pings l"
  by (auto simp: pings_def)

lemma sends_pings: "pings l \<Longrightarrow> q \<noteq> TopologyRequest \<Longrightarrow> sends q l = []"
  by (auto simp: pings_def sends_def filter_empty_conv)

lemma fetchTopologyFromSeeds_logged:
  "\<exists>n. pings n \<and> fetchTopologyFromSeeds (logged T) seeds (w, l) =
     (case fetchTopologyFromSeeds T seeds w of (r, w') \<Rightarrow> (r, w', l @ n))"
proof (induction seeds arbitrary: w l)
  case Nil
  show ?case by (intro exI [of _ "[]"]) simp
next
  case (Cons seed seeds)
  obtain r w' where r: "tr_send T seed TopologyRequest w = (r, w')" by fastforce
  obtain n where n: "pings n" "fetchTopologyFromSeeds (logged T) seeds (w', l @ [(seed, TopologyRequest, r)]) =
     (case fetchTopologyFromSeeds T seeds w' of (r', w'') \<Rightarrow> (r', w'', (l @ [(seed, TopologyRequest, r)]) @ n))"
    using Cons.IH by blast
  have "fetchTopologyFromSeeds (logged T) (seed # seeds) (w, l) =
      (case fetchTopologyFromSeeds T (seed # seeds) w of (r', w'') \<Rightarrow> (r', w'', l @ [(seed, TopologyRequest, r)]))
    \<or> fetchTopologyFromSeeds (logged T) (seed # seeds) (w, l) =
      (case fetchTopologyFromSeeds T (seed # seeds) w of (r', w'') \<Rightarrow> (r', w'', l @ (seed, TopologyRequest, r) # n))"
    using n(2) by (auto simp: r split: sum.splits option.splits body.splits prod.splits)
  then show ?case
  proof
    assume "fetchTopologyFromSeeds (logged T) (seed # seeds) (w, l) =
      (case fetchTopologyFromSeeds T (seed # seeds) w of (r', w'') \<Rightarrow> (r', w'', l @ [(seed, TopologyRequest, r)]))"
    then show ?thesis by (intro exI [of _ "[(seed, TopologyRequest, r)]"]) simp
  next
    assume "fetchTopologyFromSeeds (logged T) (seed # seeds) (w, l) =
      (case fetchTopologyFromSeeds T (seed # seeds) w of (r', w'') \<Rightarrow> (r', w'', l @ (seed, TopologyRequest, r) # n))"
    then show ?thesis using n(1) by (intro exI [of _ "(seed, TopologyRequest, r) # n"]) simp
  qed
qed

lemma Refresh_logged:
  "\<exists>n. pings n \<and> Refresh (logged T) ro (w, l) = (case Refresh T ro w of (e, ro', w') \<Rightarrow> (e, ro', w', l @ n))"
proof -
  obtain n where "pings n" "fetchTopologyFromSeeds (logged T) (ro_seeds ro) (w, l) =
     (case fetchTopologyFromSeeds T (ro_seeds ro) w of (r, w') \<Rightarrow> (r, w', l @ n))"
    using fetchTopologyFromSeeds_logged [of T "ro_seeds ro" w l] by blast
  then show ?thesis
    by (cases "tr_now T w - lastUpdate ro < 1000000000 \<and> leaderAddr ro \<noteq> []")
      (auto simp: Refresh_def intro: exI [of _ "[]"] exI [of _ n] split: prod.splits sum.splits)
qed

lemma getRoute_logged:
  "\<exists>n. pings n \<and> getRoute (logged T) m ro (w, l) = (case getRoute T m ro w of (r, ro', w') \<Rightarrow> (r, ro', w', l @ n))"
proof -
  obtain n where "pings n" "Refresh (logged T) ro (w, l) = (case Refresh T ro w of (e, ro', w') \<Rightarrow> (e, ro', w', l @ n))"
    using Refresh_logged [of T ro w l] by blast
  then show ?thesis
    by (cases "GetRoute m ro") (auto simp: getRoute_def intro: exI [of _ "[]"] exI [of _ n] split: prod.splits option.splits)
qed

lemma reroute_logged:
  "\<exists>n. pings n \<and> reroute (logged T) attempt se ro (w, l) = (case reroute T attempt se ro w of (e, ro', w') \<Rightarrow> (e, ro', w', l @ n))"
proof -
  obtain n where "pings n" "Refresh (logged T) ro (w, l) = (case Refresh T ro w of (e, ro', w') \<Rightarrow> (e, ro', w', l @ n))"
    using Refresh_logged [of T ro w l] by blast
  then show ?thesis
    by (cases "se_RoutingHint se = []")
      (auto simp: reroute_def Let_def intro: exI [of _ "[]"] exI [of _ n] split: prod.splits option.splits)
qed

section \<open>Mutations\<close>

text \<open>What a run of a request leaves in the log.\<close>

definition request_log :: "request \<Rightarrow> exchange list \<Rightarrow> bool" where
  "request_log q l \<longleftrightarrow> (\<forall>e\<in>set l. fst (snd e) = q \<or> fst (snd e) = TopologyRequest)"

lemma request_log_simps [simp]:
  "request_log q []" "request_log q (l @ m) \<longleftrightarrow> request_log q l \<and> request_log q m" "request_log q (x # l) \<longleftrightarrow> (fst (snd x) = q \<or> fst (snd x) = TopologyRequest) \<and> request_log q l"
  by (auto simp: request_log_def)

lemma pings_request_log [simp]: "pings l \<Longrightarrow> request_log q l"
  by (auto simp: pings_def request_log_def)

definition answered :: "raw_reply \<Rightarrow> exchange list \<Rightarrow> bool" where
  "answered r ss \<longleftrightarrow> (case r of Inr _ \<Rightarrow> ss \<noteq> [] \<and> snd (snd (last ss)) = r | Inl _ \<Rightarrow> True)"

definition once :: "exchange list \<Rightarrow> bool" where
  "once ss \<longleftrightarrow> (\<forall>e\<in>set (butlast ss). rejects (snd (snd e)))"

lemma Translate_rejection: "Translate text r = Some se \<Longrightarrow> se_Class se = ClassExplicitRejection \<Longrightarrow> rejects r"
  by (auto simp: Translate_def rejects_def split: sum.splits option.splits if_splits)

lemma mutationLoop_logged:
  assumes q: "q \<noteq> TopologyRequest"
  shows "\<exists>n. mutationLoop (logged T) q attempt err ro (w, l) = (case mutationLoop T q attempt err ro w of (r, ro', w') \<Rightarrow> (r, ro', w', l @ n))
     \<and> request_log q n \<and> length (sends q n) \<le> maxRetries - attempt \<and> once (sends q n)
     \<and> answered (fst (mutationLoop T q attempt err ro w)) (sends q n)"
proof (induction "maxRetries - attempt" arbitrary: attempt err ro w l)
  case 0
  then show ?case by (intro exI [of _ "[]"]) (simp add: mutationLoop.simps once_def answered_def)
next
  case (Suc m)
  have a: "\<not> maxRetries \<le> attempt" "m = maxRetries - (attempt + 1)" using Suc.hyps(2) by auto
  obtain n where n: "pings n" "getRoute (logged T) True ro (w, l) = (case getRoute T True ro w of (r, ro', w') \<Rightarrow> (r, ro', w', l @ n))"
    using getRoute_logged [of T True ro w l] by blast
  have sn: "sends q n = []" using n(1) q by (rule sends_pings)
  obtain g ro1 w1 where g: "getRoute T True ro w = (g, ro1, w1)" by (metis prod_cases3)
  show ?case
  proof (cases g)
    case (Inl e)
    then show ?thesis using a(1) n g sn by (intro exI [of _ n]) (simp add: mutationLoop.simps [of _ _ attempt] once_def answered_def)
  next
    case (Inr addr)
    obtain r w2 where r: "tr_send T addr q w1 = (r, w2)" by fastforce
    let ?n = "n @ [(addr, q, r)]"
    show ?thesis
    proof (cases "\<exists>se. Translate (tr_text T) r = Some se \<and> se_Class se = ClassExplicitRejection")
      case False
      then show ?thesis using a(1) n g sn Inr r
        by (intro exI [of _ ?n])
          (auto simp: mutationLoop.simps [of _ _ attempt] once_def answered_def split: option.splits ErrorClass.splits sum.splits)
    next
      case True
      then obtain se where se: "Translate (tr_text T) r = Some se" "se_Class se = ClassExplicitRejection" by blast
      obtain k where k: "pings k" "reroute (logged T) attempt se ro1 (w2, l @ ?n) =
          (case reroute T attempt se ro1 w2 of (e, ro', w') \<Rightarrow> (e, ro', w', (l @ ?n) @ k))"
        using reroute_logged [of T attempt se ro1 w2 "l @ ?n"] by blast
      have sk: "sends q k = []" using k(1) q by (rule sends_pings)
      obtain e ro3 w3 where e: "reroute T attempt se ro1 w2 = (e, ro3, w3)" by (metis prod_cases3)
      show ?thesis
      proof (cases e)
        case (Some e')
        then show ?thesis using a(1) n g sn Inr r se k sk e
          by (intro exI [of _ "?n @ k"]) (simp add: mutationLoop.simps [of _ _ attempt] once_def answered_def)
      next
        case None
        obtain p where p: "mutationLoop (logged T) q (attempt + 1) (se_WrappedErr se) ro3 (w3, (l @ ?n) @ k) =
            (case mutationLoop T q (attempt + 1) (se_WrappedErr se) ro3 w3 of (r, ro', w') \<Rightarrow> (r, ro', w', ((l @ ?n) @ k) @ p))"
          "request_log q p" "length (sends q p) \<le> maxRetries - (attempt + 1)" "once (sends q p)"
          "answered (fst (mutationLoop T q (attempt + 1) (se_WrappedErr se) ro3 w3)) (sends q p)"
          using Suc.hyps(1) [OF a(2), of "se_WrappedErr se" ro3 w3 "(l @ ?n) @ k"] by blast
        have "once (sends q (?n @ k @ p))" using p(4) Translate_rejection [OF se] by (simp add: once_def sn sk)
        moreover have "mutationLoop T q attempt err ro w = mutationLoop T q (attempt + 1) (se_WrappedErr se) ro3 w3"
          using a(1) g Inr r se e None by (simp add: mutationLoop.simps [of _ _ attempt])
        moreover have "mutationLoop (logged T) q attempt err ro (w, l) = mutationLoop (logged T) q (attempt + 1) (se_WrappedErr se) ro3 (w3, (l @ ?n) @ k)"
          using a(1) n g Inr r se e k None by (simp add: mutationLoop.simps [of _ _ attempt])
        ultimately show ?thesis using p n(1) k(1) sn sk a(1)
          by (intro exI [of _ "?n @ k @ p"]) (auto simp: answered_def split: sum.splits prod.splits)
      qed
    qed
  qed
qed

text \<open>A transport that plays back replies, for examples.\<close>

definition scripted :: "raw_reply list transport" where
  "scripted =
     \<lparr>tr_send = (\<lambda>_ _ w. case w of [] \<Rightarrow> (Inl ErrMessageSendFailed, []) | r # rs \<Rightarrow> (r, rs)),
      tr_now = (\<lambda>_. 0), tr_wait = (\<lambda>_ w. (None, w)), tr_text = (\<lambda>b. case b of RawBody t \<Rightarrow> t | _ \<Rightarrow> [])\<rparr>"

definition known_route :: "string \<Rightarrow> router" where
  "known_route addr = \<lparr>ro_seeds = [], leaderAddr = addr, lastUpdate = 0\<rparr>"

definition ok_reply :: "body \<Rightarrow> raw_reply" where
  "ok_reply b = Inr (Some \<lparr>r_Code = CodeOK, r_Body = b\<rparr>)"

definition not_leader :: "string \<Rightarrow> raw_reply" where
  "not_leader hint = Inr (Some \<lparr>r_Code = CodeNotLeader, r_Body = RawBody hint\<rparr>)"

lemma Translate_ok [simp]: "Translate text (ok_reply b) = None"
  by (simp add: Translate_def ok_reply_def)

text \<open>
  C13. A mutation is never repeated blindly.  However the network and the servers behave, \<^verbatim>\<open>ExecuteMutation\<close> sends the request at
  most three times, and every time but the last the answer was an explicit rejection, so that no request that may
  have been executed is sent again; a response it returns is the answer to the last sending.
\<close>

theorem mutation_at_most_once:
  assumes "q \<noteq> TopologyRequest" and "ExecuteMutation (logged T) q ro (w, []) = (r, ro', w', l)"
  shows "length (sends q l) \<le> 3 \<and> (\<forall>e\<in>set (butlast (sends q l)). rejects (snd (snd e)))
     \<and> (\<forall>resp. r = Inr resp \<longrightarrow> sends q l \<noteq> [] \<and> snd (snd (last (sends q l))) = Inr resp)"
  using mutationLoop_logged [OF assms(1), of T 0 "Errorf ''nil''" ro w "[]"] assms(2)
  by (cases "mutationLoop T q 0 (Errorf ''nil'') ro w" rule: prod_cases3) (auto simp: ExecuteMutation_def once_def answered_def maxRetries_def)

theorem mutation_at_most_once_witness:
  "\<exists>l. ExecuteMutation (logged scripted) (RemoveRequest ''1'' ''a'') (known_route ''n1'') ([not_leader ''n2'', ok_reply NoBody, ok_reply NoBody], [])
         = (ok_reply NoBody, known_route ''n2'', [ok_reply NoBody], l)
     \<and> sends (RemoveRequest ''1'' ''a'') l = [(''n1'', RemoveRequest ''1'' ''a'', not_leader ''n2''), (''n2'', RemoveRequest ''1'' ''a'', ok_reply NoBody)]
     \<and> rejects (not_leader ''n2'')"
proof -
  let ?q = "RemoveRequest ''1'' ''a''" and ?l = "[(''n1'', RemoveRequest ''1'' ''a'', not_leader ''n2''), (''n2'', RemoveRequest ''1'' ''a'', ok_reply NoBody)]"
  have run: "ExecuteMutation (logged scripted) ?q (known_route ''n1'') ([not_leader ''n2'', ok_reply NoBody, ok_reply NoBody], [])
         = (ok_reply NoBody, known_route ''n2'', [ok_reply NoBody], ?l)"
    by (simp add: ExecuteMutation_def mutationLoop.simps maxRetries_def getRoute_def GetRoute_def known_route_def scripted_def
        Translate_def not_leader_def ok_reply_def reroute_def SetRouteHint_def)
  with mutation_at_most_once [OF _ run] show ?thesis by auto
qed

lemma idempotentLoop_logged:
  assumes q: "q \<noteq> TopologyRequest"
  shows "\<exists>n. idempotentLoop (logged T) q attempt err ro (w, l) = (case idempotentLoop T q attempt err ro w of (r, ro', w') \<Rightarrow> (r, ro', w', l @ n))
     \<and> request_log q n"
proof (induction "maxRetries - attempt" arbitrary: attempt err ro w l)
  case 0
  then show ?case by (intro exI [of _ "[]"]) (simp add: idempotentLoop.simps)
next
  case (Suc m)
  have a: "\<not> maxRetries \<le> attempt" "m = maxRetries - (attempt + 1)" using Suc.hyps(2) by auto
  obtain n where n: "pings n" "getRoute (logged T) False ro (w, l) = (case getRoute T False ro w of (r, ro', w') \<Rightarrow> (r, ro', w', l @ n))"
    using getRoute_logged [of T False ro w l] by blast
  obtain g ro1 w1 where g: "getRoute T False ro w = (g, ro1, w1)" by (metis prod_cases3)
  show ?case
  proof (cases g)
    case (Inl e)
    then show ?thesis using a(1) n g by (intro exI [of _ n]) (simp add: idempotentLoop.simps [of _ _ attempt])
  next
    case (Inr addr)
    obtain r w2 where r: "tr_send T addr q w1 = (r, w2)" by fastforce
    let ?n = "n @ [(addr, q, r)]" and ?ro = "Invalidate addr ro1"
    show ?thesis
    proof (cases "\<exists>se. Translate (tr_text T) r = Some se \<and> se_Class se \<in> {ClassExplicitRejection, ClassTransportFailure}")
      case False
      then show ?thesis using a(1) n g Inr r
        by (intro exI [of _ ?n]) (auto simp: idempotentLoop.simps [of _ _ attempt] split: option.splits ErrorClass.splits)
    next
      case True
      then obtain se where se: "Translate (tr_text T) r = Some se" "se_Class se \<in> {ClassExplicitRejection, ClassTransportFailure}" by blast
      obtain k where k: "pings k" "reroute (logged T) attempt se ?ro (w2, l @ ?n) =
          (case reroute T attempt se ?ro w2 of (e, ro', w') \<Rightarrow> (e, ro', w', (l @ ?n) @ k))"
        using reroute_logged [of T attempt se ?ro w2 "l @ ?n"] by blast
      obtain e ro3 w3 where e: "reroute T attempt se ?ro w2 = (e, ro3, w3)" by (metis prod_cases3)
      show ?thesis
      proof (cases e)
        case (Some e')
        then show ?thesis using a(1) n g Inr r se k e
          by (intro exI [of _ "?n @ k"]) (auto simp: idempotentLoop.simps [of _ _ attempt])
      next
        case None
        obtain p where p: "idempotentLoop (logged T) q (attempt + 1) (se_WrappedErr se) ro3 (w3, (l @ ?n) @ k) =
            (case idempotentLoop T q (attempt + 1) (se_WrappedErr se) ro3 w3 of (r, ro', w') \<Rightarrow> (r, ro', w', ((l @ ?n) @ k) @ p))" "request_log q p"
          using Suc.hyps(1) [OF a(2), of "se_WrappedErr se" ro3 w3 "(l @ ?n) @ k"] by blast
        then show ?thesis using a(1) n g Inr r se k e None
          by (intro exI [of _ "?n @ k @ p"]) (auto simp: idempotentLoop.simps [of _ _ attempt] split: prod.splits)
      qed
    qed
  qed
qed

section \<open>A cluster of these servers\<close>

text \<open>What the client relies on of a cluster that never redirects, and what follows.\<close>

locale plain_cluster =
  fixes T :: "'w transport"
  assumes never_rejects: "tr_send T addr q w = (r, w') \<Longrightarrow> \<not> rejects r"
begin

lemma mutation_result:
  "ExecuteMutation T q ro w =
     (case getRoute T True ro w of
        (Inl e, ro1, w1) \<Rightarrow> (Inl e, ro1, w1)
      | (Inr addr, ro1, w1) \<Rightarrow>
          (case tr_send T addr q w1 of
             (r, w2) \<Rightarrow>
               (case Translate (tr_text T) r of
                  None \<Rightarrow> (r, ro1, w2)
                | Some se \<Rightarrow> if se_Class se = ClassSemanticError then (r, ro1, w2) else (Inl (se_WrappedErr se), Invalidate addr ro1, w2))))"
  using never_rejects Translate_rejection
  by (fastforce simp: ExecuteMutation_def mutationLoop.simps [of _ _ 0] maxRetries_def split: prod.splits sum.splits option.splits ErrorClass.splits)

lemma logged_plain: "plain_cluster (logged T)"
proof
  fix addr q and w :: "'w \<times> exchange list" and r w'
  assume "tr_send (logged T) addr q w = (r, w')"
  then show "\<not> rejects r" using never_rejects by (cases w) (auto simp: split: prod.splits)
qed

lemma sent_once:
  assumes "q \<noteq> TopologyRequest" and "ExecuteMutation (logged T) q ro (w, []) = (r, ro', w', l)"
  shows "length (sends q l) \<le> 1"
proof -
  obtain g ro1 w1 where g: "getRoute T True ro w = (g, ro1, w1)" by (metis prod_cases3)
  obtain n where n: "pings n" "getRoute (logged T) True ro (w, []) = (g, ro1, w1, n)"
    using getRoute_logged [of T True ro w "[]"] g by auto
  have "l = n \<or> (\<exists>a rep. l = n @ [(a, q, rep)])"
    using assms(2) n(2) unfolding plain_cluster.mutation_result [OF logged_plain]
    by (auto split: sum.splits prod.splits option.splits if_splits)
  then show ?thesis using sends_pings [OF n(1) assms(1)] by auto
qed

end

text \<open>
  A client and one server: a message reaches the server under its address, number \<open>m\<close> with the call \<open>k m\<close>; a panic takes
  the connection down.
\<close>

definition node_transport :: "('db, 's) server \<Rightarrow> (nat \<Rightarrow> call) \<Rightarrow> string \<Rightarrow> (nat \<times> ('db, 's) host) transport" where
  "node_transport S k addr =
     \<lparr>tr_send = (\<lambda>a q (m, h).
        if a \<noteq> addr then (Inl ErrMessageSendFailed, m, h)
        else case handleMessage S (k m) q h of
               (Inl _, h') \<Rightarrow> (Inl ErrMessageSendFailed, m + 1, h')
             | (Inr resp, h') \<Rightarrow> (Inr (Some resp), m + 1, h')),
      tr_now = (\<lambda>(m, _). c_now (k m)), tr_wait = (\<lambda>_ w. (None, w)), tr_text = (\<lambda>_. [])\<rparr>"

lemma respond_code: "respond r = Inr resp \<Longrightarrow> r_Code resp \<in> {CodeOK, CodeAlreadyExists, CodeNotFound, CodeInternal}"
  by (auto simp: respond_def code_of_error_def split: sum.splits if_splits)

lemma handleMessage_code:
  assumes "handleMessage S k q h = (Inr resp, h')"
  shows "r_Code resp \<in> {CodeOK, CodeAlreadyExists, CodeNotFound, CodeInternal, CodeBadRequest}"
proof -
  have "(\<exists>r. respond r = Inr resp) \<or> r_Code resp \<in> {CodeOK, CodeBadRequest}"
    using assms
    by (cases q)
      (auto simp: handleGetAttr_def handleSetAttr_def handleLookup_def handleLookupPath_def handleAccess_def handleRead_def handleWrite_def
        abortWrite_def handleCreate_def handleMkdir_def handleRemove_def handleRmdir_def handleRename_def handleReadDir_def handleReadDirPlus_def
        handleFsStat_def handleFsInfo_def handleTopologyRequest_def handleChunkMessage_def handleRaftMessage_def Let_def
        split: sum.splits prod.splits option.splits if_splits)
  then show ?thesis using respond_code by blast
qed

interpretation nt: plain_cluster "node_transport S k addr" for S k addr
proof
  fix a q w r w'
  assume "tr_send (node_transport S k addr) a q w = (r, w')"
  then show "\<not> rejects r"
    using handleMessage_code
    by (cases w) (fastforce simp: node_transport_def rejects_def split: if_splits prod.splits sum.splits)
qed

text \<open>
  C38. A server never redirects a client: whatever the request and whether or not the node leads, the answer's code is none of those
  that the client takes for a rejection with a hint.  Against such a server a mutation is sent at most
  once, and the branch of \<^verbatim>\<open>ExecuteMutation\<close> that follows a leader hint is never taken.
\<close>

theorem server_never_redirects:
  assumes "q \<noteq> TopologyRequest" and "ExecuteMutation (logged (node_transport S k addr)) q ro (w, []) = (r, ro', w', l)"
  shows "length (sends q l) \<le> 1 \<and> (\<forall>m h. \<not> rejects (fst (tr_send (node_transport S k addr) addr q (m, h))))"
  using nt.sent_once [OF assms] nt.never_rejects [of S k addr addr q] by (metis prod.collapse)

lemma node_delivers:
  assumes "handleMessage S (k m) q h = (Inr resp, h')" and "leaderAddr ro = addr" and "addr \<noteq> []" and "r_Code resp = CodeOK"
  shows "ExecuteMutation (node_transport S k addr) q ro ((m, h)) = (Inr (Some resp), ro, m + 1, h')"
    and "ExecuteIdempotent (node_transport S k addr) q ro ((m, h)) = (Inr (Some resp), ro, m + 1, h')"
  using assms
  by (simp_all add: ExecuteMutation_def ExecuteIdempotent_def mutationLoop.simps idempotentLoop.simps maxRetries_def getRoute_def GetRoute_def
      node_transport_def Translate_def)

theorem server_never_redirects_witness:
  "\<exists>h' l. ExecuteMutation (logged (node_transport demo_server (\<lambda>_. demo_call) ''a:1'')) (WriteRequest ''7'' 0 ''xyz'') (known_route ''a:1'') ((0, demo_host), [])
         = (ok_reply (JsonInt 3), known_route ''a:1'', (1, h'), l) \<and> length (sends (WriteRequest ''7'' 0 ''xyz'') l) \<le> 1"
proof -
  let ?T = "node_transport demo_server (\<lambda>_. demo_call) ''a:1''" and ?q = "WriteRequest ''7'' 0 ''xyz''"
  obtain h' where "handleMessage demo_server demo_call ?q demo_host = (Inr \<lparr>r_Code = CodeOK, r_Body = JsonInt 3\<rparr>, h')"
    using demo_write [of 0] by auto
  then have "ExecuteMutation ?T ?q (known_route ''a:1'') (0, demo_host) = (ok_reply (JsonInt 3), known_route ''a:1'', 1, h')"
    using node_delivers(1) [of demo_server "\<lambda>_. demo_call" 0 ?q demo_host _ h' "known_route ''a:1''" "''a:1''"]
    by (simp add: known_route_def ok_reply_def del: handleMessage.simps)
  then obtain l where run: "ExecuteMutation (logged ?T) ?q (known_route ''a:1'') ((0, demo_host), []) = (ok_reply (JsonInt 3), known_route ''a:1'', (1, h'), l)"
    using mutationLoop_logged [of ?q ?T 0 "Errorf ''nil''" "known_route ''a:1''" "(0, demo_host)" "[]"] by (auto simp: ExecuteMutation_def)
  show ?thesis using run server_never_redirects [OF _ run] by auto
qed

section \<open>Buffered writes\<close>

text \<open>The writes to a file that were acknowledged, as pairs of offset and data; and data laid out in consecutive pieces.\<close>

definition acked :: "string \<Rightarrow> exchange \<Rightarrow> (int \<times> bytes) list" where
  "acked i x =
     (case fst (snd x) of
        WriteRequest i' off d \<Rightarrow> (case snd (snd x) of Inr (Some resp) \<Rightarrow> if i' = i \<and> r_Code resp = CodeOK then [(off, d)] else [] | _ \<Rightarrow> [])
      | _ \<Rightarrow> [])"

definition written_at :: "string \<Rightarrow> exchange list \<Rightarrow> (int \<times> bytes) list" where
  "written_at i l = concat (map (acked i) l)"

lemma written_at_simps [simp]: "written_at i [] = []" "written_at i (l @ m) = written_at i l @ written_at i m" "written_at i (x # l) = acked i x @ written_at i l"
  by (simp_all add: written_at_def)

fun tiles :: "int \<Rightarrow> (int \<times> bytes) list \<Rightarrow> bytes \<Rightarrow> bool" where
  "tiles off [] d \<longleftrightarrow> d = []"
| "tiles off ((o', p) # ps) d \<longleftrightarrow> o' = off \<and> take (length p) d = p \<and> tiles (off + int (length p)) ps (drop (length p) d)"

lemma tiles_append: "tiles off xs d \<Longrightarrow> tiles (off + int (length d)) ys e \<Longrightarrow> tiles off (xs @ ys) (d @ e)"
proof (induction off xs d rule: tiles.induct)
  case (2 off o' p ps d)
  from "2.prems"(1) have "length p \<le> length d" by (auto dest: arg_cong [of _ _ length])
  then show ?case using 2 by (simp add: algebra_simps)
qed simp

definition chunk_pieces :: "(int \<times> bytes) list \<Rightarrow> bool" where
  "chunk_pieces ps \<longleftrightarrow> (\<forall>(off, p)\<in>set ps. p \<noteq> [] \<and> off mod writeRPCChunkSize + int (length p) \<le> writeRPCChunkSize)"

lemma acked_nothing:
  "fst (snd x) = TopologyRequest \<Longrightarrow> acked i x = []" "fst (snd x) = ReadRequest j off n \<Longrightarrow> acked i x = []" "rejects (snd (snd x)) \<Longrightarrow> acked i x = []"
  by (auto simp: acked_def rejects_def split: request.splits sum.splits option.splits)

lemma written_at_nothing: "(\<And>x. x \<in> set l \<Longrightarrow> acked i x = []) \<Longrightarrow> written_at i l = []"
  by (induction l) auto

lemma written_at_sends:
  assumes "request_log q l" shows "written_at i l = written_at i (sends q l)"
  using assms by (induction l) (auto simp: acked_nothing)

abbreviation log_of :: "('w \<times> exchange list) client \<Rightarrow> exchange list" where
  "log_of c \<equiv> snd (cl_world c)"

lemma call_ok_write:
  assumes "call_ok (logged T) op (WriteRequest i off d) True c = (Inr b, c')"
  shows "OpenFiles c' = OpenFiles c \<and> cl_ServerAddr c' = cl_ServerAddr c \<and> (\<exists>n. log_of c' = log_of c @ n \<and> written_at i n = [(off, d)])"
proof -
  let ?q = "WriteRequest i off d"
  obtain w l where w: "cl_world c = (w, l)" by fastforce
  obtain r ro' w' where r: "mutationLoop T ?q 0 (Errorf ''nil'') (cl_router c) w = (r, ro', w')" by (metis prod_cases3)
  obtain n where n: "mutationLoop (logged T) ?q 0 (Errorf ''nil'') (cl_router c) (w, l) = (r, ro', w', l @ n)"
    "request_log ?q n" "once (sends ?q n)" "answered r (sends ?q n)"
    using mutationLoop_logged [of ?q T 0 "Errorf ''nil''" "cl_router c" w l] r by auto
  obtain resp where resp: "r = Inr (Some resp)" "r_Code resp = CodeOK" "c' = c\<lparr>cl_router := ro', cl_world := (w', l @ n)\<rparr>"
    using assms n(1) w by (auto simp: call_ok_def send_def ExecuteMutation_def split: sum.splits option.splits if_splits)
  have ne: "sends ?q n \<noteq> []" "snd (snd (last (sends ?q n))) = Inr (Some resp)" using n(4) resp(1) by (auto simp: answered_def)
  have "fst (snd (last (sends ?q n))) = ?q" using sends_same [OF last_in_set [OF ne(1)]] .
  then have last: "last (sends ?q n) = (fst (last (sends ?q n)), ?q, Inr (Some resp))" using ne(2) by (metis prod.collapse)
  have "written_at i n = written_at i (butlast (sends ?q n) @ [last (sends ?q n)])" using written_at_sends [OF n(2)] ne(1) by simp
  also have "\<dots> = [(off, d)]"
    using written_at_nothing [of "butlast (sends ?q n)" i] n(3) acked_nothing(3) by (subst last) (simp add: resp(2) once_def acked_def)
  finally show ?thesis using resp(3) w by simp
qed

lemma chunkLimit_fits:
  assumes "0 \<le> off" shows "off mod writeRPCChunkSize + chunkLimit off \<le> writeRPCChunkSize"
  using smod_mod_positive [OF assms, of writeRPCChunkSize] by (auto simp: chunkLimit_def Let_def writeRPCChunkSize_def)

lemma sendWriteInChunks_tiles:
  assumes "sendWriteInChunks (logged T) op i start payload m c = (None, c')" and "0 \<le> start" and "start + int (length payload) < 2 ^ 63" and "m \<le> length payload"
  shows "OpenFiles c' = OpenFiles c \<and> cl_ServerAddr c' = cl_ServerAddr c
    \<and> (\<exists>n. log_of c' = log_of c @ n \<and> tiles (start + int m) (written_at i n) (drop m payload) \<and> chunk_pieces (written_at i n))"
  using assms
proof (induction "length payload - m" arbitrary: m c rule: less_induct)
  case less
  show ?case
  proof (cases "length payload \<le> m")
    case True
    then show ?thesis using less.prems by (auto simp: sendWriteInChunks.simps chunk_pieces_def intro: exI [of _ "[]"])
  next
    case False
    define off where "off = start + int m"
    define k where "k = min (m + nat (chunkLimit off)) (length payload)"
    let ?p = "take (k - m) (drop m payload)"
    have off: "0 \<le> off" "int64 off = off" using less.prems(2,3) False by (auto simp: off_def)
    have k: "m < k" "k \<le> length payload" using False chunkLimit_pos [of off] by (auto simp: k_def)
    obtain r c1 where c1: "call_ok (logged T) op (WriteRequest i off ?p) True c = (r, c1)" by fastforce
    obtain b where b: "r = Inr b" "sendWriteInChunks (logged T) op i start payload k c1 = (None, c')"
      using less.prems(1) False off(2) c1
      by (simp add: sendWriteInChunks.simps [of _ _ _ _ _ m] off_def [symmetric] k_def [symmetric] split: sum.splits)
    obtain n where n: "log_of c1 = log_of c @ n" "written_at i n = [(off, ?p)]" and same: "OpenFiles c1 = OpenFiles c" "cl_ServerAddr c1 = cl_ServerAddr c"
      using call_ok_write c1 b(1) by blast
    have "length payload - k < length payload - m" using k(1) False by simp
    then obtain n' where n': "log_of c' = log_of c1 @ n'" "tiles (start + int k) (written_at i n') (drop k payload)" "chunk_pieces (written_at i n')"
      and same': "OpenFiles c' = OpenFiles c1" "cl_ServerAddr c' = cl_ServerAddr c1"
      using less.hyps [OF _ b(2) less.prems(2,3) k(2)] by blast
    have len: "length ?p = k - m" "int (k - m) \<le> chunkLimit off" using k chunkLimit_pos [of off] by (auto simp: k_def)
    have "tiles off (written_at i (n @ n')) (drop m payload)"
      using n(2) n'(2) k len by (simp add: off_def int_diff_cases of_nat_diff)
    moreover have "chunk_pieces (written_at i (n @ n'))"
      using n(2) n'(3) len chunkLimit_fits [OF off(1)] k by (auto simp: chunk_pieces_def)
    ultimately show ?thesis using n n' same same' by (intro conjI exI [of _ "n @ n'"]) (simp_all add: off_def)
  qed
qed

text \<open>Between two logs, \<open>d\<close> was written to the file from offset \<open>off\<close> on, in consecutive pieces within a chunk.\<close>

definition pushed :: "string \<Rightarrow> exchange list \<Rightarrow> exchange list \<Rightarrow> int \<Rightarrow> bytes \<Rightarrow> bool" where
  "pushed i l l' off d \<longleftrightarrow> (\<exists>n. l' = l @ n \<and> tiles off (written_at i n) d \<and> chunk_pieces (written_at i n))"

lemma pushed_nothing: "pushed i l l off []"
  unfolding pushed_def by (intro exI [of _ "[]"]) (simp add: chunk_pieces_def)

lemma pushed_trans: "pushed i l l1 off d \<Longrightarrow> pushed i l1 l2 (off + int (length d)) e \<Longrightarrow> pushed i l l2 off (d @ e)"
  unfolding pushed_def chunk_pieces_def
  by (elim exE conjE, rule_tac x = "n @ na" in exI) (auto simp: tiles_append)

lemma map_of_replaced: "map_of xs k = Some f \<Longrightarrow> map_of (map (\<lambda>(k', v). if k' = k then (k', g) else (k', v)) xs) k = Some g"
  by (induction xs) (auto split: if_splits)

lemma setFD_world [simp]: "cl_world (setFD fd f c) = cl_world c"
  by (simp add: setFD_def)

lemma withFD_setFD:
  assumes "withFD fd c = Inr f" and "OpenFiles c' = OpenFiles c" and "cl_ServerAddr c' = cl_ServerAddr c"
  shows "withFD fd (setFD fd g c') = Inr g"
  using assms by (auto simp: withFD_def setFD_def of_opt_def map_of_replaced split: if_splits option.splits)

text \<open>A file that can be flushed: its buffer ends at its offset and there is room up to the largest offset.\<close>

definition flushable :: "SandstoreFD \<Rightarrow> nat \<Rightarrow> bool" where
  "flushable f n \<longleftrightarrow> int (length (fd_Buffer f)) \<le> fd_Offset f \<and> fd_Offset f + int n < 2 ^ 63 \<and> length (fd_Buffer f) \<le> writeBufferLimit"

lemma flushBufferedWrites_pushes:
  assumes "flushBufferedWrites (logged T) op f c = (None, f', c')" and "int (length (fd_Buffer f)) \<le> fd_Offset f" and "fd_Offset f < 2 ^ 63"
  shows "f' = f\<lparr>fd_Buffer := []\<rparr> \<and> OpenFiles c' = OpenFiles c \<and> cl_ServerAddr c' = cl_ServerAddr c
    \<and> pushed (fd_InodeID f) (log_of c) (log_of c') (fd_Offset f - int (length (fd_Buffer f))) (fd_Buffer f)"
proof (cases "fd_Buffer f = []")
  case True
  then show ?thesis using assms(1) by (auto simp: flushBufferedWrites_def pushed_nothing intro!: SandstoreFD.equality)
next
  case False
  have "int64 (fd_Offset f - int (length (fd_Buffer f))) = fd_Offset f - int (length (fd_Buffer f))" using assms(2,3) by (intro int64_id) auto
  then show ?thesis
    using False assms sendWriteInChunks_tiles [of T op "fd_InodeID f" "fd_Offset f - int (length (fd_Buffer f))" "fd_Buffer f" 0 c c']
    by (auto simp: flushBufferedWrites_def pushed_def split: prod.splits option.splits)
qed

lemma writeFile_pushes:
  assumes w: "writeFile (logged T) d f c = (Inr r, f', c')" and f: "flushable f (length d)"
  shows "r = int (length d) \<and> OpenFiles c' = OpenFiles c \<and> cl_ServerAddr c' = cl_ServerAddr c
    \<and> f' = f\<lparr>fd_Offset := fd_Offset f + int (length d), fd_Buffer := fd_Buffer f'\<rparr> \<and> length (fd_Buffer f') \<le> writeBufferLimit
    \<and> (\<exists>out. out @ fd_Buffer f' = fd_Buffer f @ d
          \<and> pushed (fd_InodeID f) (log_of c) (log_of c') (fd_Offset f - int (length (fd_Buffer f))) out)"
proof -
  define pre where "pre = (if fd_Buffer f \<noteq> [] \<and> writeBufferLimit < length (fd_Buffer f) + length d then flushBufferedWrites (logged T) ''write'' f c else (None, f, c))"
  obtain e f1 c1 where pre: "pre = (e, f1, c1)" by (metis prod_cases3)
  have e: "e = None" using w pre by (auto simp: writeFile_def pre_def [symmetric] split: option.splits)
  have off: "int (length (fd_Buffer f)) \<le> fd_Offset f" "fd_Offset f < 2 ^ 63" using f by (auto simp: flushable_def)
  have f1: "f1 = f\<lparr>fd_Buffer := fd_Buffer f1\<rparr>" "OpenFiles c1 = OpenFiles c" "cl_ServerAddr c1 = cl_ServerAddr c"
      "length (fd_Buffer f1) \<le> length (fd_Buffer f)"
    and out1: "\<exists>out. out @ fd_Buffer f1 = fd_Buffer f \<and> pushed (fd_InodeID f) (log_of c) (log_of c1) (fd_Offset f - int (length (fd_Buffer f))) out"
    using pre e flushBufferedWrites_pushes [OF _ off, of T "''write''" c f1 c1] pushed_nothing
    by (auto simp: pre_def intro!: exI [of _ "[]"] split: if_splits)
  obtain out where out: "out @ fd_Buffer f1 = fd_Buffer f" "pushed (fd_InodeID f) (log_of c) (log_of c1) (fd_Offset f - int (length (fd_Buffer f))) out"
    using out1 by blast
  have o1: "fd_Offset f1 = fd_Offset f" "fd_InodeID f1 = fd_InodeID f" using f1(1) by (metis SandstoreFD.select_convs SandstoreFD.surjective SandstoreFD.update_convs)+
  define buf where "buf = fd_Buffer f1 @ d"
  define start where "start = fd_Offset f + int (length d) - int (length buf)"
  have start: "start = fd_Offset f - int (length (fd_Buffer f)) + int (length out)" using arg_cong [OF out(1), of length] by (simp add: start_def buf_def)
  have st: "0 \<le> start" "start + int (length buf) < 2 ^ 63" "int64 (fd_Offset f + int (length d)) = fd_Offset f + int (length d)" "int64 start = start"
    using f off start by (auto simp: flushable_def start_def)
  let ?f2 = "f1\<lparr>fd_Buffer := buf, fd_Offset := fd_Offset f + int (length d)\<rparr>" and ?k = "length buf - writeBufferLimit"
  obtain e2 c2 where e2: "sendWriteInChunks (logged T) ''write'' (fd_InodeID f) start (take ?k buf) 0 c1 = (e2, c2)" by fastforce
  have upd: "f1\<lparr>fd_Buffer := b, fd_Offset := x\<rparr> = f\<lparr>fd_Offset := x, fd_Buffer := b\<rparr>"
    "f1\<lparr>fd_Offset := x, fd_Buffer := b\<rparr> = f\<lparr>fd_Offset := x, fd_Buffer := b\<rparr>" for b x
    using f1(1) by (cases f, cases f1, simp)+
  have len: "length (fd_Buffer f1) + length d = length buf" by (simp add: buf_def)
  have rest: "(if length buf \<le> writeBufferLimit then r = int (length d) \<and> f' = ?f2 \<and> c' = c1
      else e2 = None \<and> r = int (length d) \<and> f' = ?f2\<lparr>fd_Buffer := drop ?k buf\<rparr> \<and> c' = c2)"
    using w st e2 unfolding writeFile_def pre_def [symmetric] pre e
    by (cases e2) (auto simp: Let_def o1 len buf_def [symmetric] start_def [symmetric] split: if_splits)
  show ?thesis
  proof (cases "length buf \<le> writeBufferLimit")
    case True
    then have "r = int (length d)" "f' = ?f2" "c' = c1" using rest by auto
    then show ?thesis using True f1(2,3) out by (auto simp: buf_def upd)
  next
    case False
    then have c2: "sendWriteInChunks (logged T) ''write'' (fd_InodeID f) start (take ?k buf) 0 c1 = (None, c2)"
      "r = int (length d)" "f' = ?f2\<lparr>fd_Buffer := drop ?k buf\<rparr>" "c' = c2"
      using rest e2 by auto
    have "pushed (fd_InodeID f) (log_of c1) (log_of c2) start (take ?k buf)" and same: "OpenFiles c2 = OpenFiles c1" "cl_ServerAddr c2 = cl_ServerAddr c1"
      using sendWriteInChunks_tiles [OF c2(1)] st by (auto simp: pushed_def)
    then have "pushed (fd_InodeID f) (log_of c) (log_of c2) (fd_Offset f - int (length (fd_Buffer f))) (out @ take ?k buf)"
      using pushed_trans [OF out(2)] start by simp
    moreover have "(out @ take ?k buf) @ drop ?k buf = fd_Buffer f @ d" using out(1) by (simp only: append_assoc append_take_drop_id) (simp add: buf_def)
    ultimately show ?thesis using c2 same f1(2,3) False by (intro conjI exI [of _ "out @ take ?k buf"]) (auto simp: upd)
  qed
qed

fun write_all :: "'w transport \<Rightarrow> int \<Rightarrow> bytes list \<Rightarrow> 'w client \<Rightarrow> bool \<times> 'w client" where
  "write_all T fd [] c = (True, c)"
| "write_all T fd (d # ds) c = (case clWrite T fd d c of (Inl _, c') \<Rightarrow> (False, c') | (Inr _, c') \<Rightarrow> write_all T fd ds c')"

lemma clWrite_pushes:
  assumes "clWrite (logged T) fd d c = (Inr r, c')" and f: "withFD fd c = Inr f" "flushable f (length d)"
  shows "\<exists>f' out. withFD fd c' = Inr f' \<and> f' = f\<lparr>fd_Offset := fd_Offset f + int (length d), fd_Buffer := fd_Buffer f'\<rparr>
     \<and> length (fd_Buffer f') \<le> writeBufferLimit \<and> out @ fd_Buffer f' = fd_Buffer f @ d
     \<and> pushed (fd_InodeID f) (log_of c) (log_of c') (fd_Offset f - int (length (fd_Buffer f))) out"
proof (cases "d = []")
  case True
  then have "c' = c" using assms(1) f(1) by (auto simp: clWrite_def split: if_splits)
  then show ?thesis using True f pushed_nothing by (intro exI [of _ f] exI [of _ "[]"]) (auto simp: flushable_def)
next
  case False
  obtain r' f' c1 where w: "writeFile (logged T) d f c = (r', f', c1)" by (metis prod_cases3)
  then have c': "r' = Inr r" "c' = setFD fd f' c1" using assms(1) f(1) False by (auto simp: clWrite_def split: if_splits)
  from writeFile_pushes [OF w [unfolded c'(1)] f(2)]
  have "withFD fd c' = Inr f'" "log_of c' = log_of c1" using withFD_setFD [OF f(1), of c1 f'] by (auto simp: c'(2))
  then show ?thesis using writeFile_pushes [OF w [unfolded c'(1)] f(2)] by (intro exI [of _ f']) auto
qed

lemma write_all_pushes:
  assumes "write_all (logged T) fd ds c = (True, c')" and "withFD fd c = Inr f" and "flushable f (length (concat ds))"
  shows "\<exists>f' out. withFD fd c' = Inr f' \<and> f' = f\<lparr>fd_Offset := fd_Offset f + int (length (concat ds)), fd_Buffer := fd_Buffer f'\<rparr>
     \<and> length (fd_Buffer f') \<le> writeBufferLimit \<and> out @ fd_Buffer f' = fd_Buffer f @ concat ds
     \<and> pushed (fd_InodeID f) (log_of c) (log_of c') (fd_Offset f - int (length (fd_Buffer f))) out"
  using assms
proof (induction ds arbitrary: c f)
  case Nil
  then show ?case using pushed_nothing by (intro exI [of _ f] exI [of _ "[]"]) (auto simp: flushable_def)
next
  case (Cons d ds)
  obtain r c1 where r: "clWrite (logged T) fd d c = (r, c1)" by fastforce
  then obtain n where n: "r = Inr n" "write_all (logged T) fd ds c1 = (True, c')" using Cons.prems(1) by (auto split: sum.splits)
  have "flushable f (length d)" using Cons.prems(3) by (simp add: flushable_def)
  then obtain f1 out where f1: "withFD fd c1 = Inr f1" "f1 = f\<lparr>fd_Offset := fd_Offset f + int (length d), fd_Buffer := fd_Buffer f1\<rparr>"
      "length (fd_Buffer f1) \<le> writeBufferLimit" "out @ fd_Buffer f1 = fd_Buffer f @ d"
      "pushed (fd_InodeID f) (log_of c) (log_of c1) (fd_Offset f - int (length (fd_Buffer f))) out"
    using clWrite_pushes [OF r [unfolded n(1)] Cons.prems(2)] by blast
  have o1: "fd_Offset f1 = fd_Offset f + int (length d)" "fd_InodeID f1 = fd_InodeID f" by (subst f1(2), simp)+
  have len: "length out + length (fd_Buffer f1) = length (fd_Buffer f) + length d" using arg_cong [OF f1(4), of length] by simp
  then have "flushable f1 (length (concat ds))" using Cons.prems(3) f1(3) o1(1) by (auto simp: flushable_def)
  then obtain f2 out2 where f2: "withFD fd c' = Inr f2" "f2 = f1\<lparr>fd_Offset := fd_Offset f1 + int (length (concat ds)), fd_Buffer := fd_Buffer f2\<rparr>"
      "length (fd_Buffer f2) \<le> writeBufferLimit" "out2 @ fd_Buffer f2 = fd_Buffer f1 @ concat ds"
      "pushed (fd_InodeID f1) (log_of c1) (log_of c') (fd_Offset f1 - int (length (fd_Buffer f1))) out2"
    using Cons.IH [OF n(2) f1(1)] by blast
  have start: "fd_Offset f1 - int (length (fd_Buffer f1)) = fd_Offset f - int (length (fd_Buffer f)) + int (length out)" using len o1(1) by simp
  have "pushed (fd_InodeID f) (log_of c) (log_of c') (fd_Offset f - int (length (fd_Buffer f))) (out @ out2)"
    using pushed_trans [OF f1(5)] f2(5) o1(2) start by simp
  moreover have "(out @ out2) @ fd_Buffer f2 = fd_Buffer f @ concat (d # ds)" using f1(4) f2(4) by (metis append_assoc concat.simps(2))
  moreover have "f2 = f\<lparr>fd_Offset := fd_Offset f + int (length (concat (d # ds))), fd_Buffer := fd_Buffer f2\<rparr>"
    using f1(2) f2(2) by (cases f, cases f1, cases f2) simp
  ultimately show ?case using f2(1,3) by blast
qed

lemma fsync_pushes:
  assumes "withFD fd c = Inr f" and "fd_Buffer f = []" and "0 \<le> fd_Offset f" and "fd_Offset f + int (length (concat ds)) < 2 ^ 63"
    and "write_all (logged T) fd ds c = (True, c1)" and "clFsync (logged T) fd c1 = (None, c2)"
  shows "\<exists>n f1. log_of c2 = log_of c @ n \<and> tiles (fd_Offset f) (written_at (fd_InodeID f) n) (concat ds) \<and> chunk_pieces (written_at (fd_InodeID f) n)
     \<and> withFD fd c1 = Inr f1 \<and> length (fd_Buffer f1) \<le> writeBufferLimit
     \<and> withFD fd c2 = Inr (f\<lparr>fd_Offset := fd_Offset f + int (length (concat ds))\<rparr>)"
proof -
  have "flushable f (length (concat ds))" using assms(2-4) by (simp add: flushable_def)
  then obtain f1 out where f1: "withFD fd c1 = Inr f1" "f1 = f\<lparr>fd_Offset := fd_Offset f + int (length (concat ds)), fd_Buffer := fd_Buffer f1\<rparr>"
      "length (fd_Buffer f1) \<le> writeBufferLimit" "out @ fd_Buffer f1 = concat ds"
      "pushed (fd_InodeID f) (log_of c) (log_of c1) (fd_Offset f) out"
    using write_all_pushes [OF assms(5,1)] assms(2) by auto
  have o1: "fd_Offset f1 = fd_Offset f + int (length (concat ds))" "fd_InodeID f1 = fd_InodeID f" by (subst f1(2), simp)+
  have len: "int (length out) + int (length (fd_Buffer f1)) = int (length (concat ds))" using arg_cong [OF f1(4), of length] by simp
  obtain f2 c' where fl: "flushBufferedWrites (logged T) ''fsync'' f1 c1 = (None, f2, c')" "c2 = setFD fd f2 c'"
    using assms(6) f1(1) by (auto simp: clFsync_def split: prod.splits)
  have "int (length (fd_Buffer f1)) \<le> fd_Offset f1" "fd_Offset f1 < 2 ^ 63" using len o1(1) assms(3,4) by auto
  note p = flushBufferedWrites_pushes [OF fl(1) this]
  have start: "fd_Offset f1 - int (length (fd_Buffer f1)) = fd_Offset f + int (length out)" using len o1(1) by simp
  have "pushed (fd_InodeID f) (log_of c) (log_of c2) (fd_Offset f) (out @ fd_Buffer f1)"
    using pushed_trans [OF f1(5), of "log_of c2" "fd_Buffer f1"] p [unfolded start o1(2)] fl(2) by simp
  moreover have "f2 = f\<lparr>fd_Offset := fd_Offset f + int (length (concat ds))\<rparr>" using p f1(2) assms(2) by (cases f, cases f1) auto
  ultimately show ?thesis using f1(1,3,4) p withFD_setFD [OF f1(1), of c' f2] fl(2) by (auto simp: pushed_def)
qed

text \<open>
  C9. What a program writes through a descriptor reaches the server.  After any sequence of successful writes and a
  successful \<^verbatim>\<open>Fsync\<close>, however the network behaved, the acknowledged write requests for the file are the written
  data, complete and in order: each piece begins where the last one ended, the first at the descriptor's offset,
  and each stays within one chunk of the server.  The client never keeps more than its buffer limit back.
\<close>

theorem fsync_pushes_all:
  assumes "withFD fd c = Inr f" and "fd_Buffer f = []" and "0 \<le> fd_Offset f" and "fd_Offset f + int (length (concat ds)) < 2 ^ 63"
    and "write_all (logged T) fd ds c = (True, c1)" and "clFsync (logged T) fd c1 = (None, c2)"
  shows "\<exists>n f1. log_of c2 = log_of c @ n \<and> tiles (fd_Offset f) (written_at (fd_InodeID f) n) (concat ds) \<and> chunk_pieces (written_at (fd_InodeID f) n)
     \<and> withFD fd c1 = Inr f1 \<and> length (fd_Buffer f1) \<le> writeBufferLimit
     \<and> withFD fd c2 = Inr (f\<lparr>fd_Offset := fd_Offset f + int (length (concat ds))\<rparr>)"
  using assms by (rule fsync_pushes)

text \<open>A client with one open file, before a transport that plays back replies.\<close>

definition demo_fd :: "int \<Rightarrow> bytes \<Rightarrow> SandstoreFD" where
  "demo_fd off buf = \<lparr>fd_FD = 3, fd_InodeID = ''7'', fd_FilePath = ''/f'', fd_Mode = O_RDWR, fd_Offset = off, fd_Buffer = buf\<rparr>"

definition demo_client :: "int \<Rightarrow> bytes \<Rightarrow> 'w \<Rightarrow> 'w client" where
  "demo_client off buf w = \<lparr>cl_ServerAddr = ''a:1'', cl_router = known_route ''a:1'', OpenFiles = [(3, demo_fd off buf)], cl_world = w\<rparr>"

lemma demo_withFD: "withFD 3 (demo_client off buf w) = Inr (demo_fd off buf)"
  by (simp add: withFD_def demo_client_def of_opt_def)

lemma demo_modes: "and O_RDWR O_WRONLY = 0" "O_RDWR \<noteq> 0"
  by (simp_all add: O_RDWR_def O_WRONLY_def)

lemma demo_send:
  "call_ok (logged scripted) op q mut (demo_client off buf (ok_reply b # rs, l)) = (Inr b, demo_client off buf (rs, l @ [(''a:1'', q, ok_reply b)]))"
  by (simp add: call_ok_def send_def ExecuteMutation_def ExecuteIdempotent_def mutationLoop.simps idempotentLoop.simps maxRetries_def getRoute_def
      GetRoute_def demo_client_def known_route_def scripted_def, simp add: ok_reply_def)

lemma demo_Fsync:
  assumes "buf \<noteq> []" and "int (length buf) \<le> off" and "off < 8388608"
  shows "clFsync (logged scripted) 3 (demo_client off buf (ok_reply b # rs, l)) =
    (None, demo_client off [] (rs, l @ [(''a:1'', WriteRequest ''7'' (off - int (length buf)) buf, ok_reply b)]))"
proof -
  let ?o = "off - int (length buf)"
  have "chunkLimit ?o \<ge> int (length buf)" using assms
    by (simp add: chunkLimit_def Let_def writeRPCChunkSize_def smod_mod_positive)
  then have k: "min (nat (chunkLimit ?o)) (length buf) = length buf" by simp
  have i: "int64 ?o = ?o" using assms by simp
  have "sendWriteInChunks (logged scripted) op ''7'' ?o buf 0 (demo_client off buf (ok_reply b # rs, l)) =
      (None, demo_client off buf (rs, l @ [(''a:1'', WriteRequest ''7'' ?o buf, ok_reply b)]))" for op
    using assms(1) i k
    by (simp add: sendWriteInChunks.simps [of _ _ _ _ _ 0] Let_def demo_send del: int64_id) (simp add: sendWriteInChunks.simps)
  then show ?thesis using assms(1) i
    by (simp add: clFsync_def demo_withFD flushBufferedWrites_def) (simp add: demo_fd_def, simp add: demo_client_def setFD_def demo_fd_def)
qed

lemma demo_Write:
  assumes "d \<noteq> []" and "length buf + length d \<le> writeBufferLimit" and "0 \<le> off" and "off + int (length d) < 2 ^ 63"
  shows "clWrite T 3 d (demo_client off buf w) = (Inr (int (length d)), demo_client (off + int (length d)) (buf @ d) w)"
  using assms by (simp add: clWrite_def demo_withFD demo_fd_def demo_modes writeFile_def Let_def) (simp add: demo_client_def setFD_def demo_fd_def)

theorem fsync_pushes_all_witness:
  "\<exists>c1 c2. write_all (logged scripted) 3 [''ab'', ''cde''] (demo_client 4 [] ([ok_reply (JsonInt 5)], [])) = (True, c1)
     \<and> clFsync (logged scripted) 3 c1 = (None, c2)
     \<and> tiles 4 (written_at ''7'' (log_of c2)) ''abcde'' \<and> withFD 3 c2 = Inr (demo_fd 9 [])"
proof -
  let ?c = "demo_client 4 [] ([ok_reply (JsonInt 5)], [])"
  have w: "write_all (logged scripted) 3 [''ab'', ''cde''] ?c = (True, demo_client 9 ''abcde'' ([ok_reply (JsonInt 5)], []))"
    by (simp add: demo_Write writeBufferLimit_def)
  obtain c2 where f: "clFsync (logged scripted) 3 (demo_client 9 ''abcde'' ([ok_reply (JsonInt 5)], [])) = (None, c2)"
    by (simp add: demo_Fsync)
  from fsync_pushes_all [OF demo_withFD _ _ _ w f] have "tiles 4 (written_at ''7'' (log_of c2)) ''abcde'' \<and> withFD 3 c2 = Inr (demo_fd 9 [])"
    by (auto simp: demo_fd_def demo_client_def)
  then show ?thesis using w f by blast
qed

lemma clRead_reads:
  assumes "clRead (logged T) fd n c = (Inr d, c1)" and f: "withFD fd c = Inr f"
  shows "(d = [] \<and> withFD fd c1 = Inr f) \<or> withFD fd c1 = Inr (f\<lparr>fd_Offset := int64 (fd_Offset f + int (length d))\<rparr>)"
    and "\<exists>m. log_of c1 = log_of c @ m \<and> written_at i m = []"
proof -
  let ?q = "ReadRequest (fd_InodeID f) (fd_Offset f) n"
  obtain r c' where r: "call_ok (logged T) ''read'' ?q False c = (r, c')" by fastforce
  obtain w l where w: "cl_world c = (w, l)" by fastforce
  obtain m where m: "idempotentLoop (logged T) ?q 0 (Errorf ''nil'') (cl_router c) (w, l) =
      (case idempotentLoop T ?q 0 (Errorf ''nil'') (cl_router c) w of (r, ro', w') \<Rightarrow> (r, ro', w', l @ m))" "request_log ?q m"
    using idempotentLoop_logged [of ?q T 0 "Errorf ''nil''" "cl_router c" w l] by auto
  have c': "OpenFiles c' = OpenFiles c" "cl_ServerAddr c' = cl_ServerAddr c" "log_of c' = log_of c @ m"
    using r m(1) w by (auto simp: call_ok_def send_def ExecuteIdempotent_def split: prod.splits sum.splits if_splits)
  have "acked i x = []" if "x \<in> set m" for x using m(2) that acked_nothing(1,2) unfolding request_log_def by blast
  then have "written_at i m = []" by (rule written_at_nothing)
  moreover obtain g where g: "c1 = setFD fd g c'" "g = f \<and> d = [] \<or> g = f\<lparr>fd_Offset := int64 (fd_Offset f + int (length d))\<rparr>"
    using assms(1) f r by (auto simp: clRead_def split: if_splits sum.splits body.splits)
  ultimately show "\<exists>m. log_of c1 = log_of c @ m \<and> written_at i m = []" using c'(3) by auto
  show "(d = [] \<and> withFD fd c1 = Inr f) \<or> withFD fd c1 = Inr (f\<lparr>fd_Offset := int64 (fd_Offset f + int (length d))\<rparr>)"
    using withFD_setFD [OF f c'(1,2), of g] g by auto
qed

text \<open>
  C39. A read moves buffered writes.  The buffer is flushed so that it ends at the descriptor's offset, but \<^verbatim>\<open>Read\<close> advances that
  offset without flushing: if a read returns \<open>d\<close> while data are buffered, the next \<^verbatim>\<open>Fsync\<close> writes them, successfully, as many
  bytes behind the place they were written at as the read returned.
\<close>

theorem read_moves_buffered_writes:
  assumes "withFD fd c = Inr f" and "int (length (fd_Buffer f)) \<le> fd_Offset f" and "fd_Offset f + int (length d) < 2 ^ 63"
    and "clRead (logged T) fd n c = (Inr d, c1)" and "clFsync (logged T) fd c1 = (None, c2)"
  shows "\<exists>m. log_of c2 = log_of c @ m
     \<and> tiles (fd_Offset f - int (length (fd_Buffer f)) + int (length d)) (written_at (fd_InodeID f) m) (fd_Buffer f)"
proof -
  let ?f = "f\<lparr>fd_Offset := fd_Offset f + int (length d)\<rparr>"
  have "int64 (fd_Offset f + int (length d)) = fd_Offset f + int (length d)" using assms(2,3) by (intro int64_id) auto
  then have f1: "withFD fd c1 = Inr ?f" using clRead_reads(1) [OF assms(4,1)] by auto
  obtain m where m: "log_of c1 = log_of c @ m" "written_at (fd_InodeID f) m = []" using clRead_reads(2) [OF assms(4,1)] by blast
  obtain f2 c' where fl: "flushBufferedWrites (logged T) ''fsync'' ?f c1 = (None, f2, c')" "c2 = setFD fd f2 c'"
    using assms(5) f1 by (auto simp: clFsync_def split: prod.splits)
  have "pushed (fd_InodeID f) (log_of c1) (log_of c2) (fd_Offset f + int (length d) - int (length (fd_Buffer f))) (fd_Buffer f)"
    using flushBufferedWrites_pushes [OF fl(1)] assms(2,3) fl(2) by simp
  then obtain n' where "log_of c2 = log_of c1 @ n'" "tiles (fd_Offset f + int (length d) - int (length (fd_Buffer f))) (written_at (fd_InodeID f) n') (fd_Buffer f)"
    by (auto simp: pushed_def)
  then show ?thesis using m by (intro exI [of _ "m @ n'"]) (simp add: algebra_simps)
qed

theorem read_moves_buffered_writes_witness:
  "\<exists>c1 c2. clWrite (logged scripted) 3 ''abc'' (demo_client 0 [] ([ok_reply (JsonBytes ''12345''), ok_reply (JsonInt 3)], [])) = (Inr 3, demo_client 3 ''abc'' ([ok_reply (JsonBytes ''12345''), ok_reply (JsonInt 3)], []))
     \<and> clRead (logged scripted) 3 9 (demo_client 3 ''abc'' ([ok_reply (JsonBytes ''12345''), ok_reply (JsonInt 3)], [])) = (Inr ''12345'', c1)
     \<and> clFsync (logged scripted) 3 c1 = (None, c2) \<and> tiles 5 (written_at ''7'' (log_of c2)) ''abc''"
proof -
  let ?c = "demo_client 3 ''abc'' ([ok_reply (JsonBytes ''12345''), ok_reply (JsonInt 3)], [])"
  let ?l = "[(''a:1'', ReadRequest ''7'' 3 9, ok_reply (JsonBytes ''12345''))]"
  have r: "clRead (logged scripted) 3 9 ?c = (Inr ''12345'', demo_client 8 ''abc'' ([ok_reply (JsonInt 3)], ?l))"
    by (simp add: clRead_def demo_withFD demo_fd_def demo_modes demo_send) (simp add: demo_client_def setFD_def demo_fd_def)
  obtain c2 where f: "clFsync (logged scripted) 3 (demo_client 8 ''abc'' ([ok_reply (JsonInt 3)], ?l)) = (None, c2)"
    by (simp add: demo_Fsync)
  have "tiles 5 (written_at ''7'' (log_of c2)) ''abc''"
    using read_moves_buffered_writes [OF demo_withFD _ _ r f] by (auto simp: demo_fd_def demo_client_def)
  then show ?thesis using r f by (intro exI conjI, rule_tac [2] r) (auto simp: demo_Write writeBufferLimit_def)
qed

section \<open>Listing\<close>

lemma listPages_follows:
  assumes "\<And>ck m p ck' eof. R ck = Inr (p, ck', eof) \<Longrightarrow>
      call_ok T ''listdir'' (ReadDirRequest i ck 100) False (c m) = (Inr (JsonReadDir p ck' eof), c (m + 1))"
    and "read_all R fuel ck = Inr es"
  shows "\<exists>m'. listPages T i acc ck (c m) = Some (Inr (acc @ es), c m')"
  using assms(2)
proof (induction fuel arbitrary: ck es acc m)
  case (Suc fuel)
  then obtain p ck' eof where p: "R ck = Inr (p, ck', eof)" by (cases "R ck") auto
  show ?case
  proof (cases eof)
    case True
    then show ?thesis using Suc.prems p by (subst listPages.simps) (auto simp: assms(1) [OF p])
  next
    case False
    then obtain rest where rest: "read_all R fuel ck' = Inr rest" "es = p @ rest" using Suc.prems p by (cases "read_all R fuel ck'") auto
    then show ?thesis using Suc.IH [OF rest(1), of "acc @ p" "m + 1"] False p by (subst listPages.simps) (auto simp: assms(1) [OF p])
  qed
qed simp

text \<open>The client in front of one server, of whose messages \<open>m\<close> have been sent.\<close>

definition at_node :: "'w client \<Rightarrow> ('db, 's) host \<Rightarrow> nat \<Rightarrow> (nat \<times> ('db, 's) host) client" where
  "at_node c h m = \<lparr>cl_ServerAddr = cl_ServerAddr c, cl_router = cl_router c, OpenFiles = OpenFiles c, cl_world = (m, h)\<rparr>"

lemma node_call_ok:
  assumes "handleMessage S (k m) q h = (Inr \<lparr>r_Code = CodeOK, r_Body = b\<rparr>, h')" and "leaderAddr (cl_router c) \<noteq> []"
  shows "call_ok (node_transport S k (leaderAddr (cl_router c))) op q mut (at_node c h m) = (Inr b, at_node c h' (m + 1))"
    and "send (node_transport S k (leaderAddr (cl_router c))) q mut (at_node c h m) = (Inr \<lparr>r_Code = CodeOK, r_Body = b\<rparr>, at_node c h' (m + 1))"
  using node_delivers [of S k m q h _ h' "cl_router c", OF assms(1) refl assms(2)] by (simp_all add: call_ok_def send_def at_node_def)

text \<open>
  C15. The client's \<^verbatim>\<open>ListDir\<close> returns, and what it returns is the directory: asked for the path of a directory, with a server
  whose metadata stay as they are meanwhile, it follows the server's cookies to the end and returns every entry of the
  directory once, in the order of the names.
\<close>

theorem listdir_complete:
  assumes "bbolt_api (sv_B S)" and "svc_repr (sv_B S) (h_meta h) a" and "tree a" and "a_super a = Some sb" and "sb_RootInodeID sb = FormatUint 0"
    and "\<forall>m. live (c_ctx (k m))" and "cl_ServerAddr c \<noteq> []" and "leaderAddr (cl_router c) \<noteq> []"
    and "normalizePath path = Inr cleanPath" and "walk a 0 (path_parts cleanPath) = Inr p" and "is_dir a p"
    and "listing a p es" and "int (length es) + 100 < 2 ^ 63"
  shows "\<exists>m'. clListDir (node_transport S k (leaderAddr (cl_router c))) path (at_node c h m) = Some (Inr es, at_node c h m')"
proof -
  let ?T = "node_transport S k (leaderAddr (cl_router c))"
  have wf: "wf_afs a" using assms(2) repr_wf by (auto simp: svc_repr_def)
  then have p: "inode_number (FormatUint p) = Inr p" using assms(11) inode_number_Format unfolding wf_afs_def is_dir_def by blast
  have look: "handleMessage S (k m) (LookupPathRequest cleanPath) h = (Inr \<lparr>r_Code = CodeOK, r_Body = JsonString (FormatUint p)\<rparr>, h)" for m
    using assms(6,10) bbolt_api.LookupPath_repr [OF assms(1,2) _ assms(4,5)] by (simp add: handleLookupPath_def cpLookupPath_def respond_def)
  have pages: "ReadDir (sv_B S) (c_ctx (k m)) (FormatUint p) ck mx (h_meta h) = readDirPage es ck mx" for m ck mx
    using ReadDir_pages [OF assms(1,2) _ assms(3) p assms(11)] assms(6) listing_unique [OF assms(12)] by metis
  have "\<exists>m'. listPages ?T (FormatUint p) [] 0 (at_node c h (m + 1)) = Some (Inr ([] @ es), at_node c h m')"
  proof (rule listPages_follows [where R = "\<lambda>ck. readDirPage es ck 100" and fuel = "length es + 1" and c = "at_node c h"])
    fix ck m and page :: "DirEntry list" and ck' eof
    assume "readDirPage es ck 100 = Inr (page, ck', eof)"
    then have "handleMessage S (k m) (ReadDirRequest (FormatUint p) ck 100) h = (Inr \<lparr>r_Code = CodeOK, r_Body = JsonReadDir page ck' eof\<rparr>, h)"
      by (simp add: handleReadDir_def cpReadDir_def pages respond_def)
    then show "call_ok ?T ''listdir'' (ReadDirRequest (FormatUint p) ck 100) False (at_node c h m) = (Inr (JsonReadDir page ck' eof), at_node c h (m + 1))"
      by (rule node_call_ok(1)) (rule assms(8))
  next
    show "read_all (\<lambda>ck. readDirPage es ck 100) (length es + 1) 0 = Inr es"
      using read_all_pages [OF _ assms(13), of 0 "length es + 1"] by simp
  qed
  then show ?thesis
    using assms(7,9) node_call_ok(2) [OF look assms(8)]
    by (simp add: clListDir_def with_path_def lookup_ok_def lookupPath_def) (simp add: at_node_def)
qed

theorem listdir_complete_witness:
  "\<exists>m' e. clListDir (node_transport demo_server (\<lambda>_. demo_call) ''a:1'') ''//./'' (at_node (demo_client 0 [] ()) demo_host 0)
     = Some (Inr [e], at_node (demo_client 0 [] ()) demo_host m') \<and> de_Name e = ''f'' \<and> de_InodeID e = ''7''"
proof -
  obtain a inode where a: "svc_repr img_store file_service a" "tree a" "a_super a = Some (initialSuperblock 5)" "is_dir a 0" "a_dents a 0 = [''f'' \<mapsto> 7]"
      "a_inodes a 7 = Some inode" "i_InodeID inode = ''7''"
    using file_tree by blast
  have path: "normalizePath ''//./'' = Inr ''/''" "walk a 0 (path_parts ''/'') = Inr 0"
    by (simp_all add: normalizePath_def strings_TrimSpace_def is_space_def filepath_Clean_def clean_step_def path_parts_def strings_Trim_def has_prefix_def Let_def)
  have root: "FormatUint 0 = ''0''" by code_simp
  define e where "e = (\<lparr>de_Name = ''f'', de_InodeID = i_InodeID inode, de_Type = i_Type inode\<rparr> :: DirEntry)"
  have "\<exists>m'. clListDir (node_transport demo_server (\<lambda>_. demo_call) ''a:1'') ''//./'' (at_node (demo_client 0 [] ()) demo_host 0)
     = Some (Inr [e], at_node (demo_client 0 [] ()) demo_host m')"
    using listdir_complete [of demo_server demo_host a _ "\<lambda>_. demo_call" "demo_client 0 [] ()" "''//./''" "''/''" 0 "[e]" 0, OF _ _ a(2,3) _ _ _ _ path a(4)]
      listing_single [OF a(5,6)] a(1) img.bbolt_api_axioms run_repr(3)
    by (simp add: demo_facts demo_client_def known_route_def initialSuperblock_def e_def root)
  then obtain m' where "clListDir (node_transport demo_server (\<lambda>_. demo_call) ''a:1'') ''//./'' (at_node (demo_client 0 [] ()) demo_host 0)
     = Some (Inr [e], at_node (demo_client 0 [] ()) demo_host m')" by blast
  then show ?thesis by (intro exI [of _ m'] exI [of _ e]) (simp add: e_def a(7))
qed

end
