(* ===== verification/EtcdCluster.thy ===== *)
theory EtcdCluster
  imports DataPlaneProps
begin

text \<open>
  The cluster service on etcd (\<^verbatim>\<open>internal/cluster_service/etcd/etcd_cluster_service.go\<close>, types in
  \<^verbatim>\<open>internal/cluster_service/cluster_service.go\<close>): a cache of the configured nodes and of their leases, filled from etcd at
  the start and kept up to date by a watch, from which the other components take their view of the cluster.

  The etcd client is a parameter (\<open>etcd\<close>) with its documented behaviour as the laws of the locale \<open>etcd_api\<close>.  A Go
  map is an association list, in one of the orders in which Go may walk it.  A value stored in etcd is the JSON text of a node, of a
  liveness record, or other text; decoding one as the other yields the zero record, since they share no field
  name.  A callback is a number; metrics and logging are left out.
\<close>

section \<open>Data\<close>

record ClusterNode =
  cn_ID :: string
  cn_Address :: string
  cn_Role :: string
  cn_Metadata :: "(string \<times> string) list"

record NodeLiveness =
  nl_NodeID :: string
  nl_Status :: NodeStatus
  nl_LeaseID :: int
  nl_LastRenewedAt :: int

datatype etcd_value = JsonClusterNode ClusterNode | JsonNodeLiveness NodeLiveness | OtherText bytes

fun json_Unmarshal_ClusterNode :: "etcd_value \<Rightarrow> ClusterNode option" where
  "json_Unmarshal_ClusterNode (JsonClusterNode n) = Some n"
| "json_Unmarshal_ClusterNode (JsonNodeLiveness _) = Some \<lparr>cn_ID = [], cn_Address = [], cn_Role = [], cn_Metadata = []\<rparr>"
| "json_Unmarshal_ClusterNode (OtherText _) = None"

fun json_Unmarshal_NodeLiveness :: "etcd_value \<Rightarrow> NodeLiveness option" where
  "json_Unmarshal_NodeLiveness (JsonNodeLiveness l) = Some l"
| "json_Unmarshal_NodeLiveness (JsonClusterNode _) =
     Some \<lparr>nl_NodeID = [], nl_Status = NodeStatusUnknown, nl_LeaseID = 0, nl_LastRenewedAt = zero_time\<rparr>"
| "json_Unmarshal_NodeLiveness (OtherText _) = None"

definition LeaseTTL :: int where "LeaseTTL = 5"
definition PrefixConfig :: string where "PrefixConfig = ''/sandstore/config/nodes/''"
definition PrefixLease :: string where "PrefixLease = ''/sandstore/leases/''"

section \<open>The etcd client\<close>

record 'e etcd =
  et_New :: "string list \<Rightarrow> 'e \<Rightarrow> error option \<times> 'e"
  et_Get :: "string \<Rightarrow> 'e \<Rightarrow> (string \<times> etcd_value) list result \<times> 'e"
  et_Grant :: "int \<Rightarrow> 'e \<Rightarrow> int result \<times> 'e"
  et_Put :: "string \<Rightarrow> etcd_value \<Rightarrow> int \<Rightarrow> 'e \<Rightarrow> error option \<times> 'e"
  et_Revoke :: "int \<Rightarrow> 'e \<Rightarrow> error option \<times> 'e"
  et_Close :: "'e \<Rightarrow> error option \<times> 'e"

datatype etcd_event = EventPut string etcd_value | EventDelete string

fun event_key :: "etcd_event \<Rightarrow> string" where
  "event_key (EventPut k v) = k"
| "event_key (EventDelete k) = k"

section \<open>The service\<close>

record etcd_service =
  es_endpoints :: "string list"
  es_client :: bool
  selfNode :: "ClusterNode option"
  es_leaseID :: int
  configCache :: "(string \<times> ClusterNode) list"
  livenessCache :: "(string \<times> NodeLiveness) list"
  watchCallbacks :: "nat list"
  es_cancelled :: bool
  es_watching :: bool
  es_heartbeat :: bool

definition NewEtcdClusterService :: "string list \<Rightarrow> etcd_service" where
  "NewEtcdClusterService endpoints =
     \<lparr>es_endpoints = endpoints, es_client = False, selfNode = None, es_leaseID = 0, configCache = [], livenessCache = [],
      watchCallbacks = [], es_cancelled = False, es_watching = False, es_heartbeat = False\<rparr>"

definition cacheNode :: "etcd_value \<Rightarrow> etcd_service \<Rightarrow> etcd_service" where
  "cacheNode v s =
     (case json_Unmarshal_ClusterNode v of None \<Rightarrow> s | Some n \<Rightarrow> s\<lparr>configCache := AList.update (cn_ID n) n (configCache s)\<rparr>)"

definition cacheLiveness :: "etcd_value \<Rightarrow> etcd_service \<Rightarrow> etcd_service" where
  "cacheLiveness v s =
     (case json_Unmarshal_NodeLiveness v of
        None \<Rightarrow> s
      | Some l \<Rightarrow> s\<lparr>livenessCache := AList.update (nl_NodeID l) l (livenessCache s)\<rparr>)"

definition syncState :: "'e etcd \<Rightarrow> etcd_service \<Rightarrow> 'e \<Rightarrow> error option \<times> etcd_service \<times> 'e" where
  "syncState E s e =
     (case et_Get E PrefixConfig e of
        (Inl err, e1) \<Rightarrow> (Some err, s, e1)
      | (Inr kvs, e1) \<Rightarrow>
          let s1 = fold (\<lambda>(_, v). cacheNode v) kvs s
          in case et_Get E PrefixLease e1 of
               (Inl err, e2) \<Rightarrow> (Some err, s1, e2)
             | (Inr kvs', e2) \<Rightarrow> (None, fold (\<lambda>(_, v). cacheLiveness v) kvs' s1, e2))"

definition etcdStart :: "'e etcd \<Rightarrow> etcd_service \<Rightarrow> 'e \<Rightarrow> error option \<times> etcd_service \<times> 'e" where
  "etcdStart E s e =
     (case et_New E (es_endpoints s) e of
        (Some err, e1) \<Rightarrow> (Some (Wrap ''failed to connect to etcd'' err), s, e1)
      | (None, e1) \<Rightarrow>
          (case syncState E (s\<lparr>es_client := True\<rparr>) e1 of
             (Some err, s2, e2) \<Rightarrow> (Some err, s2, e2)
           | (None, s2, e2) \<Rightarrow> (None, s2\<lparr>es_watching := True\<rparr>, e2)))"

definition etcdStop :: "'e etcd \<Rightarrow> etcd_service \<Rightarrow> 'e \<Rightarrow> error option \<times> etcd_service \<times> 'e" where
  "etcdStop E s e =
     (let e1 = (if es_leaseID s \<noteq> 0 then snd (et_Revoke E (es_leaseID s) e) else e);
          (r, e2) = et_Close E e1
      in (r, s\<lparr>es_cancelled := True, es_watching := False, es_heartbeat := False\<rparr>, e2))"

definition RegisterNode :: "'e etcd \<Rightarrow> int \<Rightarrow> ClusterNode \<Rightarrow> etcd_service \<Rightarrow> 'e \<Rightarrow> error option \<times> etcd_service \<times> 'e" where
  "RegisterNode E now node s e =
     (let s1 = s\<lparr>selfNode := Some node\<rparr>
      in case et_Grant E LeaseTTL e of
           (Inl err, e1) \<Rightarrow> (Some (Wrap ''failed to grant lease'' err), s1, e1)
         | (Inr lease, e1) \<Rightarrow>
             let s2 = s1\<lparr>es_leaseID := lease\<rparr>;
                 liveness = \<lparr>nl_NodeID = cn_ID node, nl_Status = NodeStatusAlive, nl_LeaseID = lease, nl_LastRenewedAt = now\<rparr>
             in case et_Put E (PrefixLease @ cn_ID node) (JsonNodeLiveness liveness) lease e1 of
                  (Some err, e2) \<Rightarrow> (Some (Wrap ''failed to put liveness key'' err), s2, e2)
                | (None, e2) \<Rightarrow> (None, s2\<lparr>es_heartbeat := True\<rparr>, e2))"

text \<open>What the heartbeat goroutine meets: it ends when the context does, and for good when the channel is closed.\<close>

datatype keepalive = KeepAliveFailed | KeepAliveDone | KeepAliveReply | KeepAliveClosed

definition heartbeatStep :: "keepalive \<Rightarrow> etcd_service \<Rightarrow> etcd_service" where
  "heartbeatStep k s = (case k of KeepAliveReply \<Rightarrow> s | _ \<Rightarrow> s\<lparr>es_heartbeat := False\<rparr>)"

text \<open>A watched event, and the callbacks it starts.\<close>

definition has_key :: "string \<Rightarrow> string \<Rightarrow> bool" where
  "has_key prefix key \<longleftrightarrow> length prefix < length key \<and> take (length prefix) key = prefix"

definition putEvent :: "string \<Rightarrow> etcd_value \<Rightarrow> etcd_service \<Rightarrow> etcd_service" where
  "putEvent key v s = (if has_key PrefixConfig key then cacheNode v s else if has_key PrefixLease key then cacheLiveness v s else s)"

definition deleteEvent :: "string \<Rightarrow> etcd_service \<Rightarrow> etcd_service" where
  "deleteEvent key s =
     (if has_key PrefixConfig key then s\<lparr>configCache := AList.delete (drop (length PrefixConfig) key) (configCache s)\<rparr>
      else if has_key PrefixLease key
      then let id = drop (length PrefixLease) key
           in case map_of (livenessCache s) id of
                None \<Rightarrow> s
              | Some entry \<Rightarrow> s\<lparr>livenessCache := AList.update id (entry\<lparr>nl_Status := NodeStatusDown\<rparr>) (livenessCache s)\<rparr>
      else s)"

definition notifyWatchers :: "etcd_service \<Rightarrow> nat list" where
  "notifyWatchers s = watchCallbacks s"

fun handleEvent :: "etcd_event \<Rightarrow> etcd_service \<Rightarrow> etcd_service \<times> nat list" where
  "handleEvent (EventPut key v) s = (let s' = putEvent key v s in (s', notifyWatchers s'))"
| "handleEvent (EventDelete key) s = (let s' = deleteEvent key s in (s', notifyWatchers s'))"

text \<open>The watch goroutine over the events it receives before it ends.\<close>

definition watchLoop :: "etcd_event list \<Rightarrow> etcd_service \<Rightarrow> etcd_service" where
  "watchLoop evs s = fold (\<lambda>ev s. fst (handleEvent ev s)) evs s"

definition etcdWatch :: "nat \<Rightarrow> etcd_service \<Rightarrow> etcd_service" where
  "etcdWatch callback s = s\<lparr>watchCallbacks := watchCallbacks s @ [callback]\<rparr>"

definition GetHealthyNodes :: "etcd_service \<Rightarrow> Node list result" where
  "GetHealthyNodes s =
     Inr (map (\<lambda>(_, n). \<lparr>node_ID = cn_ID n, node_Address = cn_Address n, node_Status = NodeStatusAlive, node_Metadata = cn_Metadata n\<rparr>)
            (filter (\<lambda>(id, _). case map_of (livenessCache s) id of None \<Rightarrow> False | Some l \<Rightarrow> nl_Status l = NodeStatusAlive) (configCache s)))"

definition GetAllNodes :: "etcd_service \<Rightarrow> Node list result" where
  "GetAllNodes s =
     Inr (map (\<lambda>(id, n). \<lparr>node_ID = cn_ID n, node_Address = cn_Address n,
                          node_Status = (case map_of (livenessCache s) id of None \<Rightarrow> NodeStatusDown | Some l \<Rightarrow> nl_Status l),
                          node_Metadata = cn_Metadata n\<rparr>) (configCache s))"

definition view_of :: "etcd_service \<Rightarrow> cluster_view" where
  "view_of s = \<lparr>allNodes = GetAllNodes s, healthyNodes = GetHealthyNodes s\<rparr>"

section \<open>The registry in etcd\<close>

text \<open>
  The abstract registry: what is stored under the two prefixes, with every key naming the node its value is about.  A watch
  delivers the changes of the store, in order (\<open>apply_event\<close>).
\<close>

type_synonym registry = "string \<rightharpoonup> etcd_value"

fun apply_event :: "etcd_event \<Rightarrow> registry \<Rightarrow> registry" where
  "apply_event (EventPut k v) kv = kv(k \<mapsto> v)"
| "apply_event (EventDelete k) kv = kv(k := None)"

definition wf_entry :: "string \<Rightarrow> etcd_value \<Rightarrow> bool" where
  "wf_entry k v \<longleftrightarrow> (\<forall>i. k = PrefixConfig @ i \<longrightarrow> i \<noteq> [] \<and> (\<exists>n. v = JsonClusterNode n \<and> cn_ID n = i))
     \<and> (\<forall>i. k = PrefixLease @ i \<longrightarrow> i \<noteq> [] \<and> (\<exists>l. v = JsonNodeLiveness l \<and> nl_NodeID l = i))"

definition wf_registry :: "registry \<Rightarrow> bool" where
  "wf_registry kv \<longleftrightarrow> (\<forall>k v. kv k = Some v \<longrightarrow> wf_entry k v)"

fun wf_event :: "etcd_event \<Rightarrow> bool" where
  "wf_event (EventPut k v) = wf_entry k v"
| "wf_event (EventDelete k) = True"

definition configured :: "registry \<Rightarrow> string \<Rightarrow> ClusterNode option" where
  "configured kv i = (case kv (PrefixConfig @ i) of Some (JsonClusterNode n) \<Rightarrow> Some n | _ \<Rightarrow> None)"

definition leased :: "registry \<Rightarrow> string \<Rightarrow> bool" where
  "leased kv i \<longleftrightarrow> (\<exists>l. kv (PrefixLease @ i) = Some (JsonNodeLiveness l) \<and> nl_Status l = NodeStatusAlive)"

definition cached_alive :: "etcd_service \<Rightarrow> string \<Rightarrow> bool" where
  "cached_alive s i \<longleftrightarrow> (\<exists>l. map_of (livenessCache s) i = Some l \<and> nl_Status l = NodeStatusAlive)"

text \<open>The refinement relation between the registry and the caches.\<close>

definition tracks :: "registry \<Rightarrow> etcd_service \<Rightarrow> bool" where
  "tracks kv s \<longleftrightarrow> wf_registry kv \<and> distinct (map fst (configCache s))
     \<and> (\<forall>i. map_of (configCache s) i = configured kv i) \<and> (\<forall>i. cached_alive s i \<longleftrightarrow> leased kv i)"

lemma keys_disjoint [simp]: "PrefixConfig @ x \<noteq> PrefixLease @ y" "PrefixLease @ y \<noteq> PrefixConfig @ x"
  by (simp_all add: PrefixConfig_def PrefixLease_def)

lemma has_key_iff: "has_key p k \<longleftrightarrow> (\<exists>i. k = p @ i \<and> i \<noteq> [])"
proof
  assume h: "has_key p k"
  then have "k = p @ drop (length p) k" by (metis append_take_drop_id has_key_def)
  then show "\<exists>i. k = p @ i \<and> i \<noteq> []" using h by (intro exI [of _ "drop (length p) k"]) (auto simp: has_key_def)
qed (auto simp: has_key_def)

lemma has_key_simps [simp]:
  "has_key PrefixConfig (PrefixLease @ y) = False" "has_key PrefixLease (PrefixConfig @ x) = False"
  "has_key p (p @ i) \<longleftrightarrow> i \<noteq> []"
  by (auto simp: has_key_iff)

lemma wf_entry_config: "wf_entry (PrefixConfig @ i) v \<longleftrightarrow> i \<noteq> [] \<and> (\<exists>n. v = JsonClusterNode n \<and> cn_ID n = i)"
  by (auto simp: wf_entry_def)

lemma wf_entry_lease: "wf_entry (PrefixLease @ i) v \<longleftrightarrow> i \<noteq> [] \<and> (\<exists>l. v = JsonNodeLiveness l \<and> nl_NodeID l = i)"
  by (auto simp: wf_entry_def)

lemma cache_sel [simp]:
  "cacheNode (JsonClusterNode n) s = s\<lparr>configCache := AList.update (cn_ID n) n (configCache s)\<rparr>"
  "cacheLiveness (JsonNodeLiveness l) s = s\<lparr>livenessCache := AList.update (nl_NodeID l) l (livenessCache s)\<rparr>"
  by (simp_all add: cacheNode_def cacheLiveness_def)

text \<open>A key that is in neither part of the registry, or is only a prefix, changes nothing.\<close>

lemma key_cases:
  obtains (config) i where "k = PrefixConfig @ i" "i \<noteq> []" | (lease) i where "k = PrefixLease @ i" "i \<noteq> []"
  | (other) "\<not> has_key PrefixConfig k" "\<not> has_key PrefixLease k"
  by (auto simp: has_key_iff)

lemma other_key:
  assumes "\<not> has_key PrefixConfig k" and "\<not> has_key PrefixLease k" and "i \<noteq> []"
  shows "k \<noteq> PrefixConfig @ i" "k \<noteq> PrefixLease @ i"
  using assms by auto

lemma tracks_ids: "tracks kv s \<Longrightarrow> (i, n) \<in> set (configCache s) \<Longrightarrow> cn_ID n = i \<and> configured kv i = Some n"
proof -
  assume t: "tracks kv s" and m: "(i, n) \<in> set (configCache s)"
  have "configured kv i = Some n" using t m by (metis map_of_is_SomeI tracks_def)
  moreover from this have "wf_entry (PrefixConfig @ i) (JsonClusterNode n)"
    using t by (auto simp: configured_def tracks_def wf_registry_def split: option.splits etcd_value.splits)
  ultimately show ?thesis by (simp add: wf_entry_config)
qed

lemma wf_registry_event: "wf_registry kv \<Longrightarrow> wf_event ev \<Longrightarrow> wf_registry (apply_event ev kv)"
  by (cases ev) (auto simp: wf_registry_def split: if_splits)

lemma wf_root: "wf_registry kv \<Longrightarrow> kv PrefixConfig = None \<and> kv PrefixLease = None"
proof -
  assume w: "wf_registry kv"
  have "\<not> wf_entry PrefixConfig v" "\<not> wf_entry PrefixLease v" for v
    using wf_entry_config [of "[]" v] wf_entry_lease [of "[]" v] by simp_all
  then show ?thesis using w unfolding wf_registry_def by (metis option.exhaust)
qed

lemma handleEvent_tracks:
  assumes t: "tracks kv s" and ev: "wf_event ev"
  shows "tracks (apply_event ev kv) (fst (handleEvent ev s))"
proof -
  have w: "wf_registry (apply_event ev kv)" using t ev wf_registry_event by (simp add: tracks_def)
  note root = wf_root [OF w]
  show ?thesis
  proof (cases ev)
    case (EventPut k v)
    then show ?thesis
    proof (cases k rule: key_cases)
      case (config i)
      then obtain n where "v = JsonClusterNode n" "cn_ID n = i" using ev EventPut by (auto simp: wf_entry_config)
      then show ?thesis using t w config EventPut
        by (auto simp: tracks_def putEvent_def Let_def distinct_update update_conv' configured_def cached_alive_def leased_def)
    next
      case (lease i)
      then obtain l where "v = JsonNodeLiveness l" "nl_NodeID l = i" using ev EventPut by (auto simp: wf_entry_lease)
      then show ?thesis using t w lease EventPut
        by (auto simp: tracks_def putEvent_def Let_def update_conv' configured_def cached_alive_def leased_def)
    next
      case other
      then have "k \<noteq> PrefixConfig @ i" "k \<noteq> PrefixLease @ i" for i
        using other_key [of k i] root EventPut by (cases "i = []"; auto)+
      then have "configured (apply_event ev kv) = configured kv" "leased (apply_event ev kv) = leased kv"
        using EventPut by (auto simp: configured_def leased_def fun_eq_iff)
      then show ?thesis using t w other EventPut by (simp add: tracks_def putEvent_def Let_def)
    qed
  next
    case (EventDelete k)
    then show ?thesis
    proof (cases k rule: key_cases)
      case (config i)
      then show ?thesis using t w EventDelete
        by (auto simp: tracks_def deleteEvent_def Let_def distinct_delete delete_conv' configured_def cached_alive_def leased_def)
    next
      case (lease i)
      then have "cached_alive (deleteEvent k s) x \<longleftrightarrow> x \<noteq> i \<and> cached_alive s x" for x
        by (auto simp: deleteEvent_def Let_def cached_alive_def update_conv' split: option.splits)
      moreover have "configCache (deleteEvent k s) = configCache s" using lease by (simp add: deleteEvent_def Let_def split: option.splits)
      moreover have "leased (apply_event ev kv) x \<longleftrightarrow> x \<noteq> i \<and> leased kv x" "configured (apply_event ev kv) x = configured kv x" for x
        using lease EventDelete by (auto simp: leased_def configured_def)
      ultimately show ?thesis using t w EventDelete by (simp add: tracks_def Let_def)
    next
      case other
      then have "configured (apply_event ev kv) i = configured kv i" "leased (apply_event ev kv) i \<longleftrightarrow> leased kv i" for i
        using other_key [of k i] t EventDelete wf_root [of kv] by (cases "i = []"; auto simp: configured_def leased_def tracks_def)+
      then show ?thesis using t w other EventDelete by (simp add: tracks_def deleteEvent_def Let_def)
    qed
  qed
qed

lemma watchLoop_tracks:
  "tracks kv s \<Longrightarrow> \<forall>ev\<in>set evs. wf_event ev \<Longrightarrow> tracks (fold apply_event evs kv) (watchLoop evs s)"
  unfolding watchLoop_def by (induction evs arbitrary: kv s) (simp_all add: handleEvent_tracks)

text \<open>What is relied on of the etcd client: no call but a put changes the store, and a read returns what is stored under a prefix.\<close>

locale etcd_api =
  fixes E :: "'e etcd" and stored :: "'e \<Rightarrow> registry"
  assumes new_keeps: "et_New E eps e = (r, e') \<Longrightarrow> stored e' = stored e"
    and get_reads: "et_Get E p e = (Inr kvs, e') \<Longrightarrow>
      stored e' = stored e \<and> distinct (map fst kvs) \<and> (\<forall>k v. (k, v) \<in> set kvs \<longleftrightarrow> stored e k = Some v \<and> has_prefix k p)"
    and grant_keeps: "et_Grant E ttl e = (lease, e') \<Longrightarrow> stored e' = stored e"
    and put_writes: "et_Put E k v l e = (None, e') \<Longrightarrow> stored e' = (stored e)(k \<mapsto> v)"
begin

lemma get_lookup: "et_Get E p e = (Inr kvs, e') \<Longrightarrow> map_of kvs (p @ i) = stored e (p @ i)"
proof -
  assume g: "et_Get E p e = (Inr kvs, e')"
  have "map_of kvs (p @ i) = Some v \<longleftrightarrow> stored e (p @ i) = Some v" for v
    using get_reads [OF g] by (simp add: map_of_eq_Some_iff has_prefix_def)
  then show ?thesis by (metis option.exhaust)
qed

lemma get_entries:
  assumes "et_Get E p e = (Inr kvs, e')" and "wf_registry (stored e)"
  shows "\<forall>(k, v)\<in>set kvs. wf_entry k v \<and> (\<exists>i. k = p @ i)"
proof -
  have "k = p @ drop (length p) k" if "has_prefix k p" for k using that by (metis append_take_drop_id has_prefix_def)
  then show ?thesis using get_reads [OF assms(1)] assms(2) unfolding wf_registry_def by blast
qed

lemma sync_nodes:
  assumes "\<forall>(k, v)\<in>set kvs. wf_entry k v \<and> (\<exists>i. k = PrefixConfig @ i)" and "distinct (map fst kvs)" and "distinct (map fst (configCache s))"
  shows "distinct (map fst (configCache (fold (\<lambda>(_, v). cacheNode v) kvs s)))
    \<and> livenessCache (fold (\<lambda>(_, v). cacheNode v) kvs s) = livenessCache s
    \<and> (\<forall>i. map_of (configCache (fold (\<lambda>(_, v). cacheNode v) kvs s)) i =
          (case map_of kvs (PrefixConfig @ i) of Some (JsonClusterNode n) \<Rightarrow> Some n | _ \<Rightarrow> map_of (configCache s) i))"
  using assms
proof (induction kvs arbitrary: s)
  case (Cons x kvs)
  obtain j n where x: "x = (PrefixConfig @ j, JsonClusterNode n)" "cn_ID n = j" using Cons.prems(1) by (auto simp: wf_entry_config)
  let ?s = "s\<lparr>configCache := AList.update j n (configCache s)\<rparr>"
  have d: "distinct (map fst (configCache ?s))" using Cons.prems(3) by (simp add: distinct_update)
  have "map_of kvs (PrefixConfig @ j) = None" using Cons.prems(2) x by (simp add: map_of_eq_None_iff)
  then show ?case using Cons.IH [of ?s] Cons.prems(1,2) d x by (auto simp: update_conv' split: option.splits etcd_value.splits)
qed simp

lemma sync_leases:
  assumes "\<forall>(k, v)\<in>set kvs. wf_entry k v \<and> (\<exists>i. k = PrefixLease @ i)" and "distinct (map fst kvs)"
  shows "configCache (fold (\<lambda>(_, v). cacheLiveness v) kvs s) = configCache s
    \<and> (\<forall>i. map_of (livenessCache (fold (\<lambda>(_, v). cacheLiveness v) kvs s)) i =
          (case map_of kvs (PrefixLease @ i) of Some (JsonNodeLiveness l) \<Rightarrow> Some l | _ \<Rightarrow> map_of (livenessCache s) i))"
  using assms
proof (induction kvs arbitrary: s)
  case (Cons x kvs)
  obtain j l where x: "x = (PrefixLease @ j, JsonNodeLiveness l)" "nl_NodeID l = j" using Cons.prems(1) by (auto simp: wf_entry_lease)
  let ?s = "s\<lparr>livenessCache := AList.update j l (livenessCache s)\<rparr>"
  have "map_of kvs (PrefixLease @ j) = None" using Cons.prems(2) x by (simp add: map_of_eq_None_iff)
  then show ?case using Cons.IH [of ?s] Cons.prems x by (auto simp: update_conv' split: option.splits etcd_value.splits)
qed simp

lemma start_tracks:
  assumes "etcdStart E (NewEtcdClusterService eps) e = (None, s, e')" and w: "wf_registry (stored e)"
  shows "tracks (stored e) s" and "stored e' = stored e"
proof -
  let ?s0 = "(NewEtcdClusterService eps)\<lparr>es_client := True\<rparr>"
  obtain e1 where e1: "et_New E eps e = (None, e1)" "stored e1 = stored e"
    using assms(1) new_keeps by (auto simp: etcdStart_def NewEtcdClusterService_def split: prod.splits option.splits)
  obtain kvs e2 where g1: "et_Get E PrefixConfig e1 = (Inr kvs, e2)"
    using assms(1) e1 by (auto simp: etcdStart_def syncState_def NewEtcdClusterService_def split: prod.splits option.splits sum.splits)
  have st: "stored e2 = stored e" using get_reads [OF g1] e1(2) by simp
  obtain kvs' e3 where g2: "et_Get E PrefixLease e2 = (Inr kvs', e3)"
    and s: "s = (fold (\<lambda>(_, v). cacheLiveness v) kvs' (fold (\<lambda>(_, v). cacheNode v) kvs ?s0))\<lparr>es_watching := True\<rparr>" "e' = e3"
    using assms(1) e1 g1 by (auto simp: etcdStart_def syncState_def NewEtcdClusterService_def Let_def split: prod.splits option.splits sum.splits)
  show "stored e' = stored e" using get_reads [OF g2] st s(2) by simp
  have w1: "\<forall>(k, v)\<in>set kvs. wf_entry k v \<and> (\<exists>i. k = PrefixConfig @ i)" "distinct (map fst kvs)"
    using get_entries [OF g1] get_reads [OF g1] w e1(2) by auto
  have w2: "\<forall>(k, v)\<in>set kvs'. wf_entry k v \<and> (\<exists>i. k = PrefixLease @ i)" "distinct (map fst kvs')"
    using get_entries [OF g2] get_reads [OF g2] w st by auto
  have "distinct (map fst (configCache ?s0))" by (simp add: NewEtcdClusterService_def)
  note n = sync_nodes [OF w1 this]
  note l = sync_leases [OF w2]
  have "map_of (configCache s) i = configured (stored e) i" for i
    using n l get_lookup [OF g1, of i] e1(2) s(1)
    by (simp add: configured_def NewEtcdClusterService_def split: option.splits etcd_value.splits)
  moreover have "cached_alive s i \<longleftrightarrow> leased (stored e) i" for i
    using l n get_lookup [OF g2, of i] st s(1)
    by (auto simp: cached_alive_def leased_def NewEtcdClusterService_def split: option.splits etcd_value.splits)
  ultimately show "tracks (stored e) s" using w n l s(1) by (simp add: tracks_def)
qed

lemma register_writes:
  assumes "RegisterNode E now node s e = (None, s', e')"
  shows "\<exists>l. stored e' = (stored e)(PrefixLease @ cn_ID node \<mapsto> JsonNodeLiveness l) \<and> nl_NodeID l = cn_ID node \<and> nl_Status l = NodeStatusAlive"
proof -
  obtain lease e1 where 1: "et_Grant E LeaseTTL e = (Inr lease, e1)"
    using assms by (auto simp: RegisterNode_def Let_def split: prod.splits sum.splits)
  let ?l = "\<lparr>nl_NodeID = cn_ID node, nl_Status = NodeStatusAlive, nl_LeaseID = lease, nl_LastRenewedAt = now\<rparr>"
  have "et_Put E (PrefixLease @ cn_ID node) (JsonNodeLiveness ?l) lease e1 = (None, e')"
    using assms 1 by (auto simp: RegisterNode_def Let_def split: prod.splits option.splits)
  then show ?thesis using grant_keeps [OF 1] put_writes by (intro exI [of _ ?l]) simp
qed

end

lemma tracks_entries:
  assumes "tracks kv s"
  shows "(i, c) \<in> set (configCache s) \<longleftrightarrow> configured kv i = Some c \<and> i = cn_ID c"
proof -
  have "(i, c) \<in> set (configCache s) \<longleftrightarrow> configured kv i = Some c"
    using assms map_of_eq_Some_iff [of "configCache s" i c] by (auto simp: tracks_def)
  then show ?thesis using tracks_ids [OF assms, of i c] by auto
qed

lemma tracks_names: "tracks kv s \<Longrightarrow> xs = filter P (configCache s) \<Longrightarrow> map (\<lambda>x. cn_ID (snd x)) xs = map fst xs"
  using tracks_ids [of kv s] by auto

lemma tracks_healthy:
  assumes t: "tracks kv s"
  shows "\<exists>ns. GetHealthyNodes s = Inr ns \<and> distinct (map node_ID ns)
     \<and> (\<forall>n. n \<in> set ns \<longleftrightarrow> (\<exists>c. configured kv (cn_ID c) = Some c \<and> leased kv (cn_ID c)
           \<and> n = \<lparr>node_ID = cn_ID c, node_Address = cn_Address c, node_Status = NodeStatusAlive, node_Metadata = cn_Metadata c\<rparr>))"
proof -
  have alive: "(case map_of (livenessCache s) i of None \<Rightarrow> False | Some l \<Rightarrow> nl_Status l = NodeStatusAlive) \<longleftrightarrow> leased kv i" for i
  proof -
    have "cached_alive s i \<longleftrightarrow> leased kv i" using t by (simp add: tracks_def)
    then show ?thesis by (cases "map_of (livenessCache s) i") (simp_all add: cached_alive_def)
  qed
  define xs where "xs = filter (\<lambda>(i, _). leased kv i) (configCache s)"
  have "distinct (map fst xs)" using t by (simp add: xs_def tracks_def distinct_map_filter)
  then have "distinct (map (\<lambda>x. cn_ID (snd x)) xs)" by (simp only: tracks_names [OF t xs_def])
  moreover have "(i, c) \<in> set xs \<longleftrightarrow> configured kv i = Some c \<and> i = cn_ID c \<and> leased kv i" for i c
    using tracks_entries [OF t] by (auto simp: xs_def)
  ultimately show ?thesis
    by (intro exI) (auto simp: GetHealthyNodes_def alive xs_def [symmetric] comp_def case_prod_beta image_iff Bex_def)
qed

lemma tracks_all:
  assumes t: "tracks kv s"
  shows "\<exists>ns. GetAllNodes s = Inr ns \<and> distinct (map node_ID ns)
     \<and> (\<forall>i a. (\<exists>n\<in>set ns. node_ID n = i \<and> node_Address n = a) \<longleftrightarrow> (\<exists>c. configured kv i = Some c \<and> cn_Address c = a))"
proof -
  have "configCache s = filter (\<lambda>_. True) (configCache s)" by simp
  from tracks_names [OF t this] have "distinct (map (\<lambda>x. cn_ID (snd x)) (configCache s))" using t by (simp only: tracks_def)
  moreover have "configured kv i = Some c \<longleftrightarrow> (i, c) \<in> set (configCache s)" for i c
    using t map_of_eq_Some_iff [of "configCache s" i c] by (auto simp: tracks_def)
  moreover have "(\<exists>x\<in>set (configCache s). cn_ID (snd x) = i \<and> cn_Address (snd x) = a) \<longleftrightarrow> (\<exists>c. (i, c) \<in> set (configCache s) \<and> cn_Address c = a)" for i a
    using tracks_ids [OF t] by force
  ultimately show ?thesis
    by (intro exI [of _ "projr (GetAllNodes s)"]) (simp add: GetAllNodes_def comp_def case_prod_beta)
qed

text \<open>
  C24. The cluster view is current.  A service that was started while the registry in etcd was well-formed, and that has
  handled the changes of the registry since then, in order, answers with the registry: \<^verbatim>\<open>GetAllNodes\<close> lists exactly
  the configured nodes, each once, with its configured address, and \<^verbatim>\<open>GetHealthyNodes\<close> exactly those of them whose lease
  is there and alive.
\<close>

theorem cluster_view_current:
  assumes "etcd_api E stored" and "wf_registry (stored e)" and "etcdStart E (NewEtcdClusterService eps) e = (None, s, e')"
    and "\<forall>ev\<in>set evs. wf_event ev" and "kv = fold apply_event evs (stored e')"
  shows "\<exists>ns hs. GetAllNodes (watchLoop evs s) = Inr ns \<and> distinct (map node_ID ns)
     \<and> (\<forall>i a. (\<exists>n\<in>set ns. node_ID n = i \<and> node_Address n = a) \<longleftrightarrow> (\<exists>c. configured kv i = Some c \<and> cn_Address c = a))
     \<and> GetHealthyNodes (watchLoop evs s) = Inr hs \<and> distinct (map node_ID hs)
     \<and> (\<forall>n. n \<in> set hs \<longleftrightarrow> (\<exists>c. configured kv (cn_ID c) = Some c \<and> leased kv (cn_ID c)
           \<and> n = \<lparr>node_ID = cn_ID c, node_Address = cn_Address c, node_Status = NodeStatusAlive, node_Metadata = cn_Metadata c\<rparr>))"
proof -
  have "tracks (stored e') s" using etcd_api.start_tracks [OF assms(1,3,2)] by simp
  then have t: "tracks kv (watchLoop evs s)" using watchLoop_tracks assms(4,5) by blast
  from tracks_all [OF t] tracks_healthy [OF t] show ?thesis by (elim exE conjE) (rule exI, rule exI, intro conjI; assumption)
qed

lemma apply_events_other: "\<forall>ev\<in>set evs. event_key ev \<noteq> k \<Longrightarrow> fold apply_event evs kv k = kv k"
proof (induction evs arbitrary: kv)
  case (Cons ev evs)
  then show ?case by (cases ev) auto
qed simp

text \<open>
  A change that falls between the reading of the registry and the beginning of the watch is never seen: a node
  configured in that moment stays out of the view, whatever else happens in the registry, until its own key changes
  again.  The watch is opened without the revision of the read.
\<close>

lemma missed_change_unseen:
  assumes "etcd_api E stored" and "wf_registry (stored e)" and "etcdStart E (NewEtcdClusterService eps) e = (None, s, e')"
    and "configured (stored e) i = None" and "cn_ID n = i" and "i \<noteq> []"
    and "\<forall>ev\<in>set evs. wf_event ev \<and> event_key ev \<noteq> PrefixConfig @ i"
    and "GetAllNodes (watchLoop evs s) = Inr ns"
  shows "configured (fold apply_event evs (apply_event (EventPut (PrefixConfig @ i) (JsonClusterNode n)) (stored e'))) i = Some n
     \<and> i \<notin> node_ID ` set ns"
proof -
  have t: "tracks (stored e') s" "stored e' = stored e" using etcd_api.start_tracks [OF assms(1,3,2)] by simp_all
  let ?kv = "fold apply_event evs (stored e')"
  have t': "tracks ?kv (watchLoop evs s)" using watchLoop_tracks t(1) assms(7) by blast
  have none: "configured ?kv i = None" using apply_events_other [of evs "PrefixConfig @ i"] assms(4,7) t(2) by (simp add: configured_def)
  obtain ms where "GetAllNodes (watchLoop evs s) = Inr ms"
    "\<forall>i a. (\<exists>n\<in>set ms. node_ID n = i \<and> node_Address n = a) \<longleftrightarrow> (\<exists>c. configured ?kv i = Some c \<and> cn_Address c = a)"
    using tracks_all [OF t'] by (elim exE conjE)
  then have "i \<notin> node_ID ` set ns" using none assms(8) by (metis (no_types, lifting) Inr_inject imageE option.distinct(1))
  moreover have "configured (fold apply_event evs (apply_event (EventPut (PrefixConfig @ i) (JsonClusterNode n)) (stored e'))) i = Some n"
    using apply_events_other [of evs "PrefixConfig @ i"] assms(7) by (simp add: configured_def)
  ultimately show ?thesis by simp
qed

section \<open>Placement over the registry\<close>

lemma sort_key_map: "map f (sort_key (\<lambda>x. g (f x)) xs) = sort_key g (map f xs)"
proof (induction xs)
  case (Cons x xs)
  have "map f (insort_key (\<lambda>x. g (f x)) x ys) = insort_key g (f x) (map f ys)" for ys by (induction ys) auto
  then show ?case using Cons by simp
qed simp

text \<open>The locations of the nodes that placement may choose.\<close>

definition locations :: "etcd_service \<Rightarrow> ChunkLocation list" where
  "locations s = map (\<lambda>(_, c). \<lparr>LogicalNodeAlias = cn_ID c, PhysicalEndpoint = cn_Address c\<rparr>) (configCache s)"

lemma SelectTargets_view:
  assumes "configCache s \<noteq> []" and "0 < k"
  shows "SelectTargets (view_of s) own k =
    (let ls = filter (\<lambda>l. LogicalNodeAlias l \<noteq> [] \<and> PhysicalEndpoint l \<noteq> []) (locations s)
     in if int (length ls) < k then Inl (Errorf ''insufficient nodes for prepare'') else Inr (take (nat k) (sort_key LogicalNodeAlias ls)))"
proof -
  obtain ns where ns: "GetAllNodes s = Inr ns" "ns \<noteq> []" "map location ns = locations s"
    using assms(1) by (auto simp: GetAllNodes_def locations_def location_def case_prod_beta)
  define f where "f = filter (\<lambda>n. node_ID n \<noteq> [] \<and> node_Address n \<noteq> []) ns"
  have f: "map location f = filter (\<lambda>l. LogicalNodeAlias l \<noteq> [] \<and> PhysicalEndpoint l \<noteq> []) (locations s)"
    by (simp add: f_def ns(3) [symmetric] filter_map comp_def location_def)
  have "clusterNodes (view_of s) = Inr ns" using ns(1,2) by (cases ns) (simp_all add: clusterNodes_def view_of_def)
  moreover have "map location (sort_key node_ID f) = sort_key LogicalNodeAlias (map location f)"
    using sort_key_map [of location LogicalNodeAlias f] by (simp add: location_def)
  ultimately show ?thesis using assms(2)
    by (simp add: SelectTargets_def Let_def f [symmetric] f_def [symmetric] flip: take_map)
qed

lemma tracks_locations:
  assumes "tracks kv s" and "tracks kv s'"
  shows "mset (locations s) = mset (locations s')" and "distinct (map LogicalNodeAlias (locations s))"
proof -
  have eq: "set (configCache s) = set (configCache s')" using tracks_entries [OF assms(1)] tracks_entries [OF assms(2)] by auto
  have d: "distinct (configCache s)" "distinct (configCache s')" using assms by (auto simp: tracks_def distinct_map)
  have "mset (configCache s) = mset (configCache s')" using eq d by (simp add: set_eq_iff_mset_eq_distinct)
  then show "mset (locations s) = mset (locations s')" by (simp add: locations_def)
  have "map LogicalNodeAlias (locations s) = map (\<lambda>x. cn_ID (snd x)) (configCache s)" by (simp add: locations_def case_prod_beta)
  also have "\<dots> = map fst (configCache s)" using tracks_ids [OF assms(1)] by auto
  finally show "distinct (map LogicalNodeAlias (locations s))" using assms(1) by (simp add: tracks_def)
qed


section \<open>An etcd for examples\<close>

text \<open>A store that takes every call: its pairs and the last lease.\<close>

definition plain_etcd :: "((string \<times> etcd_value) list \<times> int) etcd" where
  "plain_etcd =
     \<lparr>et_New = (\<lambda>_ e. (None, e)), et_Get = (\<lambda>p e. (Inr (filter (\<lambda>(k, _). has_prefix k p) (AList.clearjunk (fst e))), e)),
      et_Grant = (\<lambda>_ e. (Inr (snd e + 1), fst e, snd e + 1)), et_Put = (\<lambda>k v _ e. (None, AList.update k v (fst e), snd e)),
      et_Revoke = (\<lambda>_ e. (None, e)), et_Close = (\<lambda>e. (None, e))\<rparr>"

interpretation pe: etcd_api plain_etcd "\<lambda>e. map_of (fst e)"
proof
  fix p e kvs e'
  assume "et_Get plain_etcd p e = (Inr kvs, e')"
  then have kvs: "kvs = filter (\<lambda>(k, _). has_prefix k p) (AList.clearjunk (fst e))" "e' = e" by (auto simp: plain_etcd_def)
  have "(k, v) \<in> set (AList.clearjunk (fst e)) \<longleftrightarrow> map_of (fst e) k = Some v" for k v
    by (metis distinct_clearjunk map_of_clearjunk map_of_eq_Some_iff)
  then show "map_of (fst e') = map_of (fst e) \<and> distinct (map fst kvs) \<and> (\<forall>k v. (k, v) \<in> set kvs \<longleftrightarrow> map_of (fst e) k = Some v \<and> has_prefix k p)"
    using distinct_map_filter [OF distinct_clearjunk] by (auto simp: kvs)
qed (auto simp: plain_etcd_def update_conv')

definition demo_cn :: "string \<Rightarrow> ClusterNode" where
  "demo_cn i = \<lparr>cn_ID = i, cn_Address = i @ '':1'', cn_Role = ''voter'', cn_Metadata = []\<rparr>"

definition demo_lease :: "string \<Rightarrow> NodeLiveness" where
  "demo_lease i = \<lparr>nl_NodeID = i, nl_Status = NodeStatusAlive, nl_LeaseID = 1, nl_LastRenewedAt = 0\<rparr>"

definition demo_registry :: "(string \<times> etcd_value) list \<times> int" where
  "demo_registry = ([(PrefixConfig @ ''n1'', JsonClusterNode (demo_cn ''n1'')), (PrefixLease @ ''n1'', JsonNodeLiveness (demo_lease ''n1''))], 1)"

definition demo_started :: etcd_service where
  "demo_started = \<lparr>es_endpoints = [], es_client = True, selfNode = None, es_leaseID = 0, configCache = [(''n1'', demo_cn ''n1'')],
     livenessCache = [(''n1'', demo_lease ''n1'')], watchCallbacks = [], es_cancelled = False, es_watching = True, es_heartbeat = False\<rparr>"

lemma demo_start: "etcdStart plain_etcd (NewEtcdClusterService []) demo_registry = (None, demo_started, demo_registry)"
  by (simp add: etcdStart_def plain_etcd_def NewEtcdClusterService_def syncState_def demo_registry_def has_prefix_def demo_started_def
      demo_cn_def demo_lease_def PrefixConfig_def PrefixLease_def cacheNode_def cacheLiveness_def)

lemma demo_entries: "i \<noteq> [] \<Longrightarrow> wf_entry (PrefixConfig @ i) (JsonClusterNode (demo_cn i))" "i \<noteq> [] \<Longrightarrow> wf_entry (PrefixLease @ i) (JsonNodeLiveness (demo_lease i))"
  by (simp_all add: wf_entry_config wf_entry_lease demo_cn_def demo_lease_def)

lemma demo_wf: "wf_registry (map_of (fst demo_registry))"
  by (auto simp: wf_registry_def demo_registry_def demo_entries split: if_splits)

definition demo_changes :: "etcd_event list" where
  "demo_changes = [EventPut (PrefixConfig @ ''n2'') (JsonClusterNode (demo_cn ''n2'')), EventDelete (PrefixLease @ ''n1'')]"

lemma demo_changes_wf: "\<forall>ev\<in>set demo_changes. wf_event ev"
  by (simp add: demo_changes_def demo_entries)

theorem cluster_view_current_witness:
  "etcdStart plain_etcd (NewEtcdClusterService []) demo_registry = (None, demo_started, demo_registry)
   \<and> (\<exists>ns. GetAllNodes (watchLoop demo_changes demo_started) = Inr ns \<and> (\<exists>n\<in>set ns. node_ID n = ''n2'' \<and> node_Address n = ''n2:1''))
   \<and> (\<exists>hs. GetHealthyNodes (watchLoop demo_changes demo_started) = Inr hs \<and> hs = [])"
proof -
  let ?kv = "fold apply_event demo_changes (map_of (fst demo_registry))"
  have kv: "configured ?kv ''n2'' = Some (demo_cn ''n2'')" "cn_Address (demo_cn ''n2'') = ''n2:1''" "\<not> leased ?kv i" for i
    by (auto simp: configured_def demo_changes_def leased_def demo_registry_def demo_cn_def)
  obtain ns hs where ns: "GetAllNodes (watchLoop demo_changes demo_started) = Inr ns"
      "\<forall>i a. (\<exists>n\<in>set ns. node_ID n = i \<and> node_Address n = a) \<longleftrightarrow> (\<exists>c. configured ?kv i = Some c \<and> cn_Address c = a)"
    and hs: "GetHealthyNodes (watchLoop demo_changes demo_started) = Inr hs" "\<forall>n. n \<in> set hs \<longleftrightarrow> (\<exists>c. configured ?kv (cn_ID c) = Some c \<and> leased ?kv (cn_ID c)
           \<and> n = \<lparr>node_ID = cn_ID c, node_Address = cn_Address c, node_Status = NodeStatusAlive, node_Metadata = cn_Metadata c\<rparr>)"
    using cluster_view_current [OF pe.etcd_api_axioms demo_wf demo_start demo_changes_wf refl] by (elim exE conjE)
  have "\<exists>n\<in>set ns. node_ID n = ''n2'' \<and> node_Address n = ''n2:1''" using ns(2) kv(1,2) by blast
  moreover have "hs = []" using hs(2) kv(3) by (cases hs) auto
  ultimately show ?thesis using demo_start ns(1) hs(1) by blast
qed

lemma missed_change_unseen_witness:
  "\<exists>ns. GetAllNodes (watchLoop [] demo_started) = Inr ns \<and> ''n2'' \<notin> node_ID ` set ns
     \<and> configured (apply_event (EventPut (PrefixConfig @ ''n2'') (JsonClusterNode (demo_cn ''n2''))) (map_of (fst demo_registry))) ''n2'' = Some (demo_cn ''n2'')"
proof -
  obtain ns where ns: "GetAllNodes (watchLoop [] demo_started) = Inr ns" by (simp add: GetAllNodes_def)
  have "configured (map_of (fst demo_registry)) ''n2'' = None" by (simp add: configured_def demo_registry_def)
  then show ?thesis
    using ns missed_change_unseen [OF pe.etcd_api_axioms demo_wf demo_start, of "''n2''" "demo_cn ''n2''" "[]"] by (auto simp: demo_cn_def)
qed


end
