(* ===== verification/Wire.thy ===== *)
theory Wire
  imports WritePath
begin

text \<open>
  The gRPC communicator (\<^verbatim>\<open>internal/communication/grpc/grpc_communicator.go\<close>, message types in
  \<^verbatim>\<open>internal/communication/communicator.go\<close>, \<^verbatim>\<open>internal/server/messages.go\<close> and
  \<^verbatim>\<open>internal/orchestrators/protocol/protocol.go\<close>), between a sender and the server's handlers: a request travels as JSON
  under the name of its type, is decoded into the struct registered for that name and handed to the server, which
  asserts the struct's type.

  A request is the value of \<open>Server.request\<close>; \<open>Encoded\<close> is its JSON text.  Encoding replaces every byte of a string that is not part of valid
  UTF-8 by U+FFFD (\<open>json_string\<close>).  What decoding makes of text that was not written from the struct it is decoded into is left open
  (the argument \<open>cross\<close>), except that it is a value of that struct.  The gRPC library is a parameter: whether a client can be
  created (\<open>dial\<close>) and what a call does (\<open>net\<close>).
\<close>

section \<open>Strings in JSON\<close>

definition cont_byte :: "nat \<Rightarrow> bool" where
  "cont_byte b \<longleftrightarrow> 0x80 \<le> b \<and> b \<le> 0xBF"

definition second_of_three :: "nat \<Rightarrow> nat \<Rightarrow> bool" where
  "second_of_three b0 b1 \<longleftrightarrow> b0 = 0xE0 \<and> 0xA0 \<le> b1 \<and> b1 \<le> 0xBF \<or> 0xE1 \<le> b0 \<and> b0 \<le> 0xEC \<and> cont_byte b1
     \<or> b0 = 0xED \<and> 0x80 \<le> b1 \<and> b1 \<le> 0x9F \<or> 0xEE \<le> b0 \<and> b0 \<le> 0xEF \<and> cont_byte b1"

definition second_of_four :: "nat \<Rightarrow> nat \<Rightarrow> bool" where
  "second_of_four b0 b1 \<longleftrightarrow> b0 = 0xF0 \<and> 0x90 \<le> b1 \<and> b1 \<le> 0xBF \<or> 0xF1 \<le> b0 \<and> b0 \<le> 0xF3 \<and> cont_byte b1
     \<or> b0 = 0xF4 \<and> 0x80 \<le> b1 \<and> b1 \<le> 0x8F"

text \<open>The length of the UTF-8 sequence at the front, 0 if there is none.\<close>

fun rune_len :: "nat list \<Rightarrow> nat" where
  "rune_len [] = 0"
| "rune_len (b0 # r) =
     (if b0 < 0x80 then 1
      else case r of
        [] \<Rightarrow> 0
      | b1 # r1 \<Rightarrow>
          if 0xC2 \<le> b0 \<and> b0 \<le> 0xDF then (if cont_byte b1 then 2 else 0)
          else case r1 of
            [] \<Rightarrow> 0
          | b2 # r2 \<Rightarrow>
              if second_of_three b0 b1 then (if cont_byte b2 then 3 else 0)
              else case r2 of
                [] \<Rightarrow> 0
              | b3 # _ \<Rightarrow> if second_of_four b0 b1 \<and> cont_byte b2 \<and> cont_byte b3 then 4 else 0)"

definition replacement :: string where
  "replacement = [CHR 0xEF, CHR 0xBF, CHR 0xBD]"

function json_string :: "string \<Rightarrow> string" where
  "json_string [] = []"
| "json_string (c # s) =
     (let n = rune_len (map of_char (c # s))
      in if n = 0 then replacement @ json_string s else take n (c # s) @ json_string (drop n (c # s)))"
  by pat_completeness auto
termination by (relation "measure length") auto

section \<open>Message types\<close>

datatype payload_type =
    T_GetAttr | T_SetAttr | T_Lookup | T_LookupPath | T_Access | T_Read | T_Write | T_Create | T_Mkdir | T_Remove | T_Rmdir | T_Rename
  | T_ReadDir | T_ReadDirPlus | T_FsStat | T_FsInfo | T_Topology
  | T_RequestVoteArgs | T_AppendEntries | T_InstallSnapshot
  | T_PrepareChunk | T_CommitChunk | T_AbortChunk | T_ReadChunk | T_DeleteChunk
  | T_StoreFile | T_ReadFile | T_DeleteFile | T_StoreChunk | T_StoreMetadata | T_DeleteMetadata | T_StopServer | T_RequestVoteRequest

fun type_of_request :: "request \<Rightarrow> payload_type option" where
  "type_of_request (GetAttrRequest _) = Some T_GetAttr"
| "type_of_request (SetAttrRequest _ _ _ _ _ _) = Some T_SetAttr"
| "type_of_request (LookupRequest _ _) = Some T_Lookup"
| "type_of_request (LookupPathRequest _) = Some T_LookupPath"
| "type_of_request (AccessRequest _ _ _ _) = Some T_Access"
| "type_of_request (ReadRequest _ _ _) = Some T_Read"
| "type_of_request (WriteRequest _ _ _) = Some T_Write"
| "type_of_request (CreateRequest _ _ _ _ _) = Some T_Create"
| "type_of_request (MkdirRequest _ _ _ _ _) = Some T_Mkdir"
| "type_of_request (RemoveRequest _ _) = Some T_Remove"
| "type_of_request (RmdirRequest _ _) = Some T_Rmdir"
| "type_of_request (RenameRequest _ _ _ _) = Some T_Rename"
| "type_of_request (ReadDirRequest _ _ _) = Some T_ReadDir"
| "type_of_request (ReadDirPlusRequest _ _ _) = Some T_ReadDirPlus"
| "type_of_request FsStatRequest = Some T_FsStat"
| "type_of_request FsInfoRequest = Some T_FsInfo"
| "type_of_request TopologyRequest = Some T_Topology"
| "type_of_request (ChunkMessage (PrepareChunkRequest _ _ _ _)) = Some T_PrepareChunk"
| "type_of_request (ChunkMessage (CommitChunkRequest _ _)) = Some T_CommitChunk"
| "type_of_request (ChunkMessage (AbortChunkRequest _ _)) = Some T_AbortChunk"
| "type_of_request (ChunkMessage (ReadChunkRequest _)) = Some T_ReadChunk"
| "type_of_request (ChunkMessage (DeleteChunkRequest _)) = Some T_DeleteChunk"
| "type_of_request (RaftMessage (VoteRpc _)) = Some T_RequestVoteArgs"
| "type_of_request (RaftMessage (AppendRpc _)) = Some T_AppendEntries"
| "type_of_request (RaftMessage (SnapshotRpc _)) = Some T_InstallSnapshot"
| "type_of_request (UnknownMessage _) = None"

text \<open>The message type under which a request is sent.\<close>

fun msg_type :: "request \<Rightarrow> string" where
  "msg_type (GetAttrRequest _) = ''getattr''"
| "msg_type (SetAttrRequest _ _ _ _ _ _) = ''setattr''"
| "msg_type (LookupRequest _ _) = ''lookup''"
| "msg_type (LookupPathRequest _) = ''lookuppath''"
| "msg_type (AccessRequest _ _ _ _) = ''access''"
| "msg_type (ReadRequest _ _ _) = ''read''"
| "msg_type (WriteRequest _ _ _) = ''write''"
| "msg_type (CreateRequest _ _ _ _ _) = ''create''"
| "msg_type (MkdirRequest _ _ _ _ _) = ''mkdir''"
| "msg_type (RemoveRequest _ _) = ''remove''"
| "msg_type (RmdirRequest _ _) = ''rmdir''"
| "msg_type (RenameRequest _ _ _ _) = ''rename''"
| "msg_type (ReadDirRequest _ _ _) = ''readdir''"
| "msg_type (ReadDirPlusRequest _ _ _) = ''readdirplus''"
| "msg_type FsStatRequest = ''fsstat''"
| "msg_type FsInfoRequest = ''fsinfo''"
| "msg_type TopologyRequest = ''topology_request''"
| "msg_type (ChunkMessage (PrepareChunkRequest _ _ _ _)) = ''chunk_prepare''"
| "msg_type (ChunkMessage (CommitChunkRequest _ _)) = ''chunk_commit''"
| "msg_type (ChunkMessage (AbortChunkRequest _ _)) = ''chunk_abort''"
| "msg_type (ChunkMessage (ReadChunkRequest _)) = ''chunk_read''"
| "msg_type (ChunkMessage (DeleteChunkRequest _)) = ''chunk_delete''"
| "msg_type (RaftMessage (VoteRpc _)) = ''raft_request_vote''"
| "msg_type (RaftMessage (AppendRpc _)) = ''raft_append_entries''"
| "msg_type (RaftMessage (SnapshotRpc _)) = ''raft_install_snapshot''"
| "msg_type (UnknownMessage t) = t"

section \<open>The communicator\<close>

record grpc_comm =
  gc_listenAddress :: string
  gc_handler :: bool
  gc_serving :: bool
  gc_clients :: "string list"
  gc_payloadTypes :: "string \<rightharpoonup> payload_type"
  gc_stopped :: bool

definition RegisterPayloadType :: "string \<Rightarrow> payload_type \<Rightarrow> grpc_comm \<Rightarrow> grpc_comm" where
  "RegisterPayloadType messageType payloadType c = c\<lparr>gc_payloadTypes := (gc_payloadTypes c)(messageType \<mapsto> payloadType)\<rparr>"

definition defaultPayloads :: "(string \<times> payload_type) list" where
  "defaultPayloads =
     [(''store_file'', T_StoreFile), (''read_file'', T_ReadFile), (''delete_file'', T_DeleteFile), (''store_chunk'', T_StoreChunk),
      (''chunk_read'', T_ReadChunk), (''chunk_delete'', T_DeleteChunk), (''store_metadata'', T_StoreMetadata),
      (''delete_metadata'', T_DeleteMetadata), (''stop_server'', T_StopServer), (''request_vote'', T_RequestVoteRequest),
      (''append_entries'', T_AppendEntries), (''install_snapshot'', T_InstallSnapshot)]"

definition NewGRPCCommunicator :: "string \<Rightarrow> grpc_comm" where
  "NewGRPCCommunicator addr =
     fold (\<lambda>(m, t). RegisterPayloadType m t) defaultPayloads
       \<lparr>gc_listenAddress = addr, gc_handler = False, gc_serving = False, gc_clients = [], gc_payloadTypes = Map.empty, gc_stopped = False\<rparr>"

text \<open>What the server registers before it starts to listen.\<close>

definition serverPayloads :: "(string \<times> payload_type) list" where
  "serverPayloads =
     [(''getattr'', T_GetAttr), (''setattr'', T_SetAttr), (''lookup'', T_Lookup), (''lookuppath'', T_LookupPath), (''access'', T_Access),
      (''read'', T_Read), (''write'', T_Write), (''create'', T_Create), (''mkdir'', T_Mkdir), (''remove'', T_Remove), (''rmdir'', T_Rmdir),
      (''rename'', T_Rename), (''readdir'', T_ReadDir), (''readdirplus'', T_ReadDirPlus), (''fsstat'', T_FsStat), (''fsinfo'', T_FsInfo),
      (''topology_request'', T_Topology),
      (''raft_request_vote'', T_RequestVoteArgs), (''raft_append_entries'', T_AppendEntries), (''raft_install_snapshot'', T_InstallSnapshot),
      (''chunk_read'', T_ReadChunk), (''chunk_delete'', T_DeleteChunk),
      (''chunk_read'', T_ReadChunk), (''chunk_delete'', T_DeleteChunk), (''chunk_prepare'', T_PrepareChunk),
      (''chunk_commit'', T_CommitChunk), (''chunk_abort'', T_AbortChunk)]"

definition registerPayloads :: "grpc_comm \<Rightarrow> grpc_comm" where
  "registerPayloads c = fold (\<lambda>(m, t). RegisterPayloadType m t) serverPayloads c"

text \<open>\<open>listening\<close> is whether the address could be bound.\<close>

definition commStart :: "bool \<Rightarrow> grpc_comm \<Rightarrow> error option \<times> grpc_comm" where
  "commStart listening c =
     (if listening then (None, c\<lparr>gc_handler := True, gc_serving := True\<rparr>)
      else (Some (Errorf ''failed to listen on address''), c\<lparr>gc_handler := True\<rparr>))"

definition commStop :: "grpc_comm \<Rightarrow> error option \<times> grpc_comm" where
  "commStop c = (None, if gc_stopped c then c else c\<lparr>gc_serving := False, gc_stopped := True\<rparr>)"

section \<open>Sending and receiving\<close>

text \<open>A struct that is no request of the server is known by its type only.\<close>

datatype payload = Encoded request | EncodedOther payload_type bytes | JsonText bytes

datatype struct_value = RequestValue request | OtherValue payload_type

fun type_of_value :: "struct_value \<Rightarrow> payload_type option" where
  "type_of_value (RequestValue r) = type_of_request r"
| "type_of_value (OtherValue t) =
     (if t \<in> {T_StoreFile, T_ReadFile, T_DeleteFile, T_StoreChunk, T_StoreMetadata, T_DeleteMetadata, T_StopServer, T_RequestVoteRequest}
      then Some t else None)"

record message =
  m_From :: string
  m_Type :: string
  m_Payload :: "payload option"

fun map_chunk_strings :: "(string \<Rightarrow> string) \<Rightarrow> ChunkRequest \<Rightarrow> ChunkRequest" where
  "map_chunk_strings f (PrepareChunkRequest t c d k) = PrepareChunkRequest (f t) (f c) d (f k)"
| "map_chunk_strings f (CommitChunkRequest t c) = CommitChunkRequest (f t) (f c)"
| "map_chunk_strings f (AbortChunkRequest t c) = AbortChunkRequest (f t) (f c)"
| "map_chunk_strings f (ReadChunkRequest c) = ReadChunkRequest (f c)"
| "map_chunk_strings f (DeleteChunkRequest c) = DeleteChunkRequest (f c)"

fun map_rpc_strings :: "(string \<Rightarrow> string) \<Rightarrow> rpc \<Rightarrow> rpc" where
  "map_rpc_strings f (VoteRpc a) = VoteRpc (a\<lparr>rv_CandidateID := f (rv_CandidateID a)\<rparr>)"
| "map_rpc_strings f (AppendRpc a) = AppendRpc (a\<lparr>ae_LeaderID := f (ae_LeaderID a)\<rparr>)"
| "map_rpc_strings f (SnapshotRpc a) = SnapshotRpc (a\<lparr>is_LeaderID := f (is_LeaderID a)\<rparr>)"

fun map_strings :: "(string \<Rightarrow> string) \<Rightarrow> request \<Rightarrow> request" where
  "map_strings f (GetAttrRequest i) = GetAttrRequest (f i)"
| "map_strings f (SetAttrRequest i m u g a t) = SetAttrRequest (f i) m u g a t"
| "map_strings f (LookupRequest p n) = LookupRequest (f p) (f n)"
| "map_strings f (LookupPathRequest p) = LookupPathRequest (f p)"
| "map_strings f (AccessRequest i u g a) = AccessRequest (f i) u g a"
| "map_strings f (ReadRequest i off len) = ReadRequest (f i) off len"
| "map_strings f (WriteRequest i off d) = WriteRequest (f i) off d"
| "map_strings f (CreateRequest p n m u g) = CreateRequest (f p) (f n) m u g"
| "map_strings f (MkdirRequest p n m u g) = MkdirRequest (f p) (f n) m u g"
| "map_strings f (RemoveRequest p n) = RemoveRequest (f p) (f n)"
| "map_strings f (RmdirRequest p n) = RmdirRequest (f p) (f n)"
| "map_strings f (RenameRequest sp sn dp dn) = RenameRequest (f sp) (f sn) (f dp) (f dn)"
| "map_strings f (ReadDirRequest i c m) = ReadDirRequest (f i) c m"
| "map_strings f (ReadDirPlusRequest i c m) = ReadDirPlusRequest (f i) c m"
| "map_strings f FsStatRequest = FsStatRequest"
| "map_strings f FsInfoRequest = FsInfoRequest"
| "map_strings f TopologyRequest = TopologyRequest"
| "map_strings f (ChunkMessage q) = ChunkMessage (map_chunk_strings f q)"
| "map_strings f (RaftMessage q) = RaftMessage (map_rpc_strings f q)"
| "map_strings f (UnknownMessage t) = UnknownMessage t"

text \<open>A request as a message with its payload encoded; byte slices travel in base64 and stay as they are.\<close>

definition marshal :: "string \<Rightarrow> request \<Rightarrow> message" where
  "marshal src r =
     \<lparr>m_From = src, m_Type = msg_type r,
      m_Payload = (case r of UnknownMessage _ \<Rightarrow> None | _ \<Rightarrow> Some (Encoded (map_strings json_string r)))\<rparr>"

definition grpcSend ::
  "(string \<Rightarrow> bool) \<Rightarrow> (string \<Rightarrow> message \<Rightarrow> 'w \<Rightarrow> Response result \<times> 'w) \<Rightarrow> string \<Rightarrow> message \<Rightarrow> grpc_comm \<Rightarrow> 'w
   \<Rightarrow> Response result \<times> grpc_comm \<times> 'w" where
  "grpcSend dial net to msg c w =
     (if to \<notin> set (gc_clients c) \<and> \<not> dial to then (Inl (Errorf ''failed to create client''), c, w)
      else let c1 = (if to \<in> set (gc_clients c) then c else c\<lparr>gc_clients := to # gc_clients c\<rparr>);
               (r, w1) = net to msg w
           in (case r of Inl _ \<Rightarrow> Inl ErrMessageSendFailed | Inr resp \<Rightarrow> Inr resp, c1, w1))"

definition json_Unmarshal_payload :: "(payload_type \<Rightarrow> payload \<Rightarrow> struct_value option) \<Rightarrow> payload_type \<Rightarrow> payload \<Rightarrow> struct_value option" where
  "json_Unmarshal_payload cross t p =
     (case p of
        Encoded r \<Rightarrow> if type_of_request r = Some t then Some (RequestValue r) else Option.bind (cross t p) (\<lambda>v. if type_of_value v = Some t then Some v else None)
      | _ \<Rightarrow> Option.bind (cross t p) (\<lambda>v. if type_of_value v = Some t then Some v else None))"

text \<open>
  The server's switch on the message type.  Most handlers assert the type of the payload, which panics if it is nil or of
  another type; the last three do not look at it.
\<close>

definition asserted :: "(string \<times> payload_type) list" where
  "asserted =
     [(''getattr'', T_GetAttr), (''setattr'', T_SetAttr), (''lookup'', T_Lookup), (''lookuppath'', T_LookupPath), (''access'', T_Access),
      (''read'', T_Read), (''write'', T_Write), (''create'', T_Create), (''mkdir'', T_Mkdir), (''remove'', T_Remove), (''rmdir'', T_Rmdir),
      (''rename'', T_Rename), (''readdir'', T_ReadDir), (''readdirplus'', T_ReadDirPlus),
      (''chunk_prepare'', T_PrepareChunk), (''chunk_commit'', T_CommitChunk), (''chunk_abort'', T_AbortChunk),
      (''chunk_read'', T_ReadChunk), (''chunk_delete'', T_DeleteChunk),
      (''raft_request_vote'', T_RequestVoteArgs), (''raft_append_entries'', T_AppendEntries), (''raft_install_snapshot'', T_InstallSnapshot)]"

definition type_panic :: error where
  "type_panic = Panic ''interface conversion''"

definition routeMessage ::
  "('db, 's) server \<Rightarrow> call \<Rightarrow> string \<Rightarrow> struct_value option \<Rightarrow> ('db, 's) host \<Rightarrow> Response result \<times> ('db, 's) host" where
  "routeMessage S k ty v h =
     (if ty = ''fsstat'' then handleMessage S k FsStatRequest h
      else if ty = ''fsinfo'' then handleMessage S k FsInfoRequest h
      else if ty = ''topology_request'' then handleMessage S k TopologyRequest h
      else case map_of asserted ty of
             None \<Rightarrow> handleMessage S k (UnknownMessage ty) h
           | Some t \<Rightarrow>
               (case v of
                  Some (RequestValue r) \<Rightarrow> if type_of_request r = Some t then handleMessage S k r h else (Inl type_panic, h)
                | _ \<Rightarrow> (Inl type_panic, h)))"

definition SendMessage ::
  "(payload_type \<Rightarrow> payload \<Rightarrow> struct_value option) \<Rightarrow> grpc_comm \<Rightarrow> ('db, 's) server \<Rightarrow> call \<Rightarrow> message \<Rightarrow> ('db, 's) host
   \<Rightarrow> Response result \<times> ('db, 's) host" where
  "SendMessage cross c S k req h =
     (if \<not> gc_handler c then (Inl (Errorf ''message handler not set''), h)
      else case m_Payload req of
             None \<Rightarrow> routeMessage S k (m_Type req) None h
           | Some p \<Rightarrow>
               (case gc_payloadTypes c (m_Type req) of
                  None \<Rightarrow> (Inl (Errorf ''failed to unmarshal payload''), h)
                | Some t \<Rightarrow>
                    (case json_Unmarshal_payload cross t p of
                       None \<Rightarrow> (Inl (Errorf ''failed to unmarshal payload''), h)
                     | Some v \<Rightarrow> routeMessage S k (m_Type req) (Some v) h)))"

section \<open>What arrives\<close>

lemma rune_len_bound: "rune_len bs \<le> length bs"
  by (cases bs) (auto split: list.splits)

lemma rune_len_prefix: "0 < rune_len bs \<Longrightarrow> rune_len (take (rune_len bs) bs @ ys) = rune_len bs"
  by (cases bs) (auto split: list.splits if_splits)

lemma rune_len_replacement: "rune_len (map of_char (replacement @ ys)) = 3"
  by (simp add: replacement_def second_of_three_def cont_byte_def)

lemma json_string_rune:
  assumes "rune_len (map of_char s) = n" and "0 < n"
  shows "json_string s = take n s @ json_string (drop n s)"
  using assms by (cases s) (simp_all add: Let_def)

text \<open>Encoding twice is encoding once: a string that has been through JSON is left alone by it from then on.\<close>

lemma json_string_idem [simp]: "json_string (json_string s) = json_string s"
proof (induction s rule: json_string.induct)
  case (2 c s)
  define n where "n = rune_len (map of_char (c # s))"
  show ?case
  proof (cases "n = 0")
    case True
    have "json_string (replacement @ json_string s) = replacement @ json_string (json_string s)"
      using json_string_rune [OF rune_len_replacement, of "json_string s"] by (simp add: replacement_def)
    moreover have "json_string (c # s) = replacement @ json_string s" using True by (simp only: json_string.simps n_def [symmetric] Let_def if_True refl)
    ultimately show ?thesis using 2(1) [OF n_def True] by simp
  next
    case False
    let ?t = "json_string (drop n (c # s))"
    have n: "n \<le> length (c # s)" using rune_len_bound [of "map of_char (c # s) :: nat list"] by (simp add: n_def del: rune_len.simps)
    have "rune_len (map of_char (take n (c # s) @ ?t)) = n"
      using rune_len_prefix [of "map of_char (c # s)" "map of_char ?t"] False by (simp only: n_def [symmetric] map_append take_map neq0_conv)
    from json_string_rune [OF this] have "json_string (take n (c # s) @ ?t) = take n (c # s) @ json_string ?t" using False n by simp
    then show ?thesis using False 2(2) [OF n_def False] by (simp only: json_string.simps n_def [symmetric] Let_def if_False)
  qed
qed simp

lemma json_string_ascii: "\<forall>c\<in>set s. of_char c < (0x80 :: nat) \<Longrightarrow> json_string s = s"
  by (induction s) simp_all

lemma map_strings_types [simp]:
  "type_of_request (map_strings f r) = type_of_request r" "msg_type (map_strings f r) = msg_type r"
  "map_strings f r = UnknownMessage t \<longleftrightarrow> r = UnknownMessage t"
proof -
  have c: "type_of_request (ChunkMessage (map_chunk_strings f q)) = type_of_request (ChunkMessage q)" "msg_type (ChunkMessage (map_chunk_strings f q)) = msg_type (ChunkMessage q)" for q
    by (cases q; simp)+
  have p: "type_of_request (RaftMessage (map_rpc_strings f q)) = type_of_request (RaftMessage q)" "msg_type (RaftMessage (map_rpc_strings f q)) = msg_type (RaftMessage q)" for q
    by (cases q; simp)+
  show "type_of_request (map_strings f r) = type_of_request r" "msg_type (map_strings f r) = msg_type r"
    "map_strings f r = UnknownMessage t \<longleftrightarrow> r = UnknownMessage t"
    by (cases r; simp add: c p)+
qed

lemma map_strings_idem: "(\<And>s. f (f s) = f s) \<Longrightarrow> map_strings f (map_strings f r) = map_strings f r"
proof -
  assume f: "\<And>s. f (f s) = f s"
  have "map_chunk_strings f (map_chunk_strings f q) = map_chunk_strings f q" for q by (cases q) (simp_all add: f)
  moreover have "map_rpc_strings f (map_rpc_strings f q) = map_rpc_strings f q" for q by (cases q) (simp_all add: f)
  ultimately show ?thesis by (cases r) (simp_all add: f)
qed

text \<open>The communicator of a server that has registered its payloads and been given its handler.\<close>

definition ready_comm :: "string \<Rightarrow> bool \<Rightarrow> grpc_comm" where
  "ready_comm addr listening = snd (commStart listening (registerPayloads (NewGRPCCommunicator addr)))"

lemma registered_map: "gc_payloadTypes (fold (\<lambda>(m, t). RegisterPayloadType m t) xs c) = gc_payloadTypes c ++ map_of (rev xs)"
  by (induction xs arbitrary: c) (auto simp: RegisterPayloadType_def)

lemma ready_handler [simp]: "gc_handler (ready_comm a l)"
  by (simp add: ready_comm_def commStart_def)

lemma ready_payloads: "gc_payloadTypes (ready_comm a l) = map_of (rev defaultPayloads) ++ map_of (rev serverPayloads)"
proof -
  have "gc_payloadTypes (ready_comm a l) = gc_payloadTypes (registerPayloads (NewGRPCCommunicator a))" by (simp add: ready_comm_def commStart_def)
  then show ?thesis by (simp only: registerPayloads_def NewGRPCCommunicator_def registered_map) simp
qed

lemma request_registered:
  assumes "type_of_request r = Some t"
  shows "gc_payloadTypes (ready_comm a l) (msg_type r) = Some t"
proof (cases r)
  case (ChunkMessage q)
  then show ?thesis using assms unfolding ready_payloads by (cases q) (auto simp: serverPayloads_def)
next
  case (RaftMessage q)
  then show ?thesis using assms unfolding ready_payloads by (cases q) (auto simp: serverPayloads_def)
qed (use assms in \<open>auto simp: ready_payloads serverPayloads_def\<close>)

lemma request_routed:
  assumes "type_of_request r = Some t"
  shows "routeMessage S k (msg_type r) (Some (RequestValue r)) h = handleMessage S k r h"
proof (cases r)
  case (ChunkMessage q)
  then show ?thesis by (cases q) (simp_all add: routeMessage_def asserted_def)
next
  case (RaftMessage q)
  then show ?thesis by (cases q) (simp_all add: routeMessage_def asserted_def)
qed (use assms in \<open>simp_all add: routeMessage_def asserted_def\<close>)

lemma asserted_registered:
  assumes "map_of asserted ty = Some t"
  shows "gc_payloadTypes (ready_comm a l) ty = Some t"
proof -
  have "\<forall>(ty, t)\<in>set asserted. map_of (rev serverPayloads) ty = Some t" by (simp add: asserted_def serverPayloads_def)
  then have "map_of (rev serverPayloads) ty = Some t" using map_of_SomeD [OF assms] by blast
  then show ?thesis unfolding ready_payloads by (rule map_add_find_right)
qed

lemma asserted_types:
  assumes "map_of asserted ty = Some t" and "type_of_request r = Some t"
  shows "msg_type r = ty"
proof -
  have a: "(ty, t) \<in> set asserted" using assms(1) by (rule map_of_SomeD)
  have "(msg_type r, t) \<in> set asserted \<or> t \<in> {T_FsStat, T_FsInfo, T_Topology}"
    using assms(2) by (cases r rule: msg_type.cases) (simp_all add: asserted_def)
  moreover have "t \<notin> {T_FsStat, T_FsInfo, T_Topology}" using a by (auto simp: asserted_def)
  ultimately have b: "(msg_type r, t) \<in> set asserted" by blast
  have "distinct (map snd asserted)" by (simp add: asserted_def)
  then have "inj_on snd (set asserted)" by (simp add: distinct_map)
  from inj_onD [OF this _ b a] show ?thesis by simp
qed

lemma SendMessage_request:
  assumes "type_of_request r = Some t"
  shows "SendMessage cross (ready_comm a l) S k \<lparr>m_From = src, m_Type = msg_type r, m_Payload = Some (Encoded r)\<rparr> h = handleMessage S k r h"
  using assms by (simp add: SendMessage_def request_registered [OF assms] json_Unmarshal_payload_def request_routed [OF assms])

lemma marshal_request:
  assumes "type_of_request r = Some t"
  shows "marshal src r = \<lparr>m_From = src, m_Type = msg_type r, m_Payload = Some (Encoded (map_strings json_string r))\<rparr>"
  using assms by (cases r) (simp_all add: marshal_def)



text \<open>
  C30. What a message can do to a server that has started, whoever sent it: if it has no payload and its type is one of those whose handler
  asserts the payload's type, the process panics; in every other case it is rejected as undecodable, without effect, or handled as a
  request of its type.  So every payload type is registered as the handler expects it, and an empty message takes the server down.
\<close>

theorem message_outcomes:
  "if m_Payload m = None \<and> m_Type m \<in> set (map fst asserted)
   then SendMessage cross (ready_comm a l) S k m h = (Inl type_panic, h)
   else SendMessage cross (ready_comm a l) S k m h = (Inl (Errorf ''failed to unmarshal payload''), h)
     \<or> (\<exists>r. msg_type r = m_Type m \<and> SendMessage cross (ready_comm a l) S k m h = handleMessage S k r h)"
proof -
  define ty where "ty = m_Type m"
  have free: "\<exists>r. msg_type r = ty \<and> routeMessage S k ty v h = handleMessage S k r h" if "map_of asserted ty = None" for v
  proof -
    let ?r = "if ty = ''fsstat'' then FsStatRequest else if ty = ''fsinfo'' then FsInfoRequest
        else if ty = ''topology_request'' then TopologyRequest else UnknownMessage ty"
    have "routeMessage S k ty v h = handleMessage S k ?r h" using that by (simp add: routeMessage_def)
    moreover have "msg_type ?r = ty" by simp
    ultimately show ?thesis by blast
  qed
  have typed: "\<exists>r. msg_type r = ty \<and> routeMessage S k ty (Some v) h = handleMessage S k r h"
    if t: "map_of asserted ty = Some t" "type_of_value v = Some t" for t v
  proof -
    have "\<exists>r. v = RequestValue r"
      using map_of_SomeD [OF t(1)] t(2) by (cases v) (auto simp: asserted_def split: if_splits)
    then obtain r where r: "v = RequestValue r" "type_of_request r = Some t" using t(2) by auto
    then have "msg_type r = ty" using asserted_types [OF t(1)] by simp
    then show ?thesis using request_routed [OF r(2), of S k h] r(1) by auto
  qed
  show ?thesis
  proof (cases "m_Payload m")
    case None
    have "ty \<in> set (map fst asserted) \<longleftrightarrow> map_of asserted ty \<noteq> None" by (simp add: map_of_eq_None_iff)
    moreover have "routeMessage S k ty None h = (Inl type_panic, h)" if a: "map_of asserted ty \<noteq> None"
    proof -
      have "ty \<noteq> ''fsstat''" "ty \<noteq> ''fsinfo''" "ty \<noteq> ''topology_request''" using a by (auto simp: asserted_def)
      then show ?thesis using a by (auto simp: routeMessage_def)
    qed
    ultimately show ?thesis using None free by (cases "map_of asserted ty = None") (simp_all add: SendMessage_def ty_def [symmetric])
  next
    case (Some p)
    have "routed = routeMessage S k ty (Some v) h \<Longrightarrow> \<exists>r. msg_type r = ty \<and> routed = handleMessage S k r h"
      if "gc_payloadTypes (ready_comm a l) ty = Some t" "json_Unmarshal_payload cross t p = Some v" for t v routed
    proof -
      have "type_of_value v = Some t"
        using that(2) by (auto simp: json_Unmarshal_payload_def split: payload.splits if_splits bind_splits)
      then show "routed = routeMessage S k ty (Some v) h \<Longrightarrow> \<exists>r. msg_type r = ty \<and> routed = handleMessage S k r h"
        using free typed asserted_registered [of ty] that(1) by (cases "map_of asserted ty") auto
    qed
    then show ?thesis using Some by (auto simp: SendMessage_def ty_def [symmetric] split: option.splits)
  qed
qed

text \<open>The message types of the tool server (\<^verbatim>\<open>clients/mcp/main.go\<close>) are registered, but the server has no handler for them.\<close>

lemma mcp_messages_rejected:
  assumes "ty \<in> {''store_file'', ''read_file'', ''delete_file'', ''stop_server''}" and "SendMessage cross (ready_comm a l) S k m h = (Inr resp, h')"
    and "m_Type m = ty"
  shows "resp = \<lparr>r_Code = CodeBadRequest, r_Body = UnknownType ty\<rparr> \<and> h' = h"
  using assms by (auto simp: SendMessage_def routeMessage_def asserted_def split: option.splits)

end
