(* ===== verification/Deploy.thy ===== *)
theory Deploy
  imports ClientProps EtcdCluster Wire
begin

text \<open>
  How a node is put together (\<^verbatim>\<open>cmd/sandstore/main.go\<close>, \<^verbatim>\<open>servers/node/server.go\<close>,
  \<^verbatim>\<open>servers/node/topology_hyperconverged.go\<close>): the options and the configuration, the construction of all components in
  \<^verbatim>\<open>Build\<close>, and the life of the process in \<^verbatim>\<open>Run\<close>.

  The environment variables are a function (\<^verbatim>\<open>os.Getenv\<close>, empty if unset).  The three parts of the data directory, that of the metadata
  database, of the Raft files and of the chunks, are separate file systems.  The log and metrics services are left out.
\<close>

section \<open>Numbers in text\<close>

fun digits_val :: "nat \<Rightarrow> string \<Rightarrow> nat option" where
  "digits_val a [] = Some a"
| "digits_val a (c # s) = (case digit_val c of None \<Rightarrow> None | Some d \<Rightarrow> digits_val (10 * a + d) s)"

definition Atoi :: "string \<Rightarrow> int result" where
  "Atoi s =
     (let (neg, ds) = (case s of
                         [] \<Rightarrow> (False, [])
                       | c # r \<Rightarrow> if c = CHR ''-'' then (True, r) else if c = CHR ''+'' then (False, r) else (False, s))
      in if ds = [] then Inl (Errorf ''invalid syntax'')
         else case digits_val 0 ds of
                None \<Rightarrow> Inl (Errorf ''invalid syntax'')
              | Some n \<Rightarrow> let v = (if neg then - int n else int n)
                          in if - (2 ^ 63) \<le> v \<and> v < 2 ^ 63 then Inr v else Inl (Errorf ''value out of range''))"

definition FormatInt :: "int \<Rightarrow> string" where
  "FormatInt v = (if v < 0 then CHR ''-'' # FormatUint (nat (- v)) else FormatUint (nat v))"

section \<open>Options and configuration\<close>

type_synonym environ = "string \<Rightarrow> string"

record Options =
  o_NodeID :: string
  o_ListenAddr :: string
  o_DataDir :: string
  o_SeedPeers :: "string list"

text \<open>The command line flags that were given.\<close>

record flags =
  fl_server :: "string option"
  fl_nodeID :: "string option"
  fl_listen :: "string option"
  fl_dataDir :: "string option"
  fl_seeds :: "string option"

definition or_default :: "string option \<Rightarrow> string \<Rightarrow> string" where
  "or_default f d = (case f of None \<Rightarrow> d | Some v \<Rightarrow> v)"

definition mainOptions :: "environ \<Rightarrow> flags \<Rightarrow> Options result" where
  "mainOptions env fl =
     (let listenDefault = (if env ''LISTEN_ADDR'' = [] then '':8080'' else env ''LISTEN_ADDR'');
          dataDirDefault = (if env ''DATA_DIR'' = [] then ''./data'' else env ''DATA_DIR'');
          serverType = or_default (fl_server fl) ''node'';
          nodeID = or_default (fl_nodeID fl) (env ''NODE_ID'');
          seeds = or_default (fl_seeds fl) []
      in if nodeID = [] then Inl (Errorf ''--node-id is required'')
         else if serverType \<noteq> ''node'' then Inl (Errorf ''Unknown server type'')
         else Inr \<lparr>o_NodeID = nodeID, o_ListenAddr = or_default (fl_listen fl) listenDefault,
                   o_DataDir = or_default (fl_dataDir fl) dataDirDefault,
                   o_SeedPeers = (if seeds = [] then [] else strings_Split (CHR '','') seeds)\<rparr>)"

definition defaultEtcdEndpoint :: string where "defaultEtcdEndpoint = ''127.0.0.1:2379''"
definition defaultRaftMaxBatchSize :: int where "defaultRaftMaxBatchSize = 64"
definition defaultRaftMaxBatchWaitMilliseconds :: int where "defaultRaftMaxBatchWaitMilliseconds = 10"
definition defaultRaftSnapshotThresholdLogs :: int where "defaultRaftSnapshotThresholdLogs = 1000"
definition defaultChunkSizeBytes :: int where "defaultChunkSizeBytes = 8 * 1024 * 1024"
definition nodeReplicaCount :: int where "nodeReplicaCount = 3"

definition parseEtcdEndpoints :: "string \<Rightarrow> string list" where
  "parseEtcdEndpoints raw0 =
     (let raw = strings_TrimSpace raw0
      in if raw = [] then [defaultEtcdEndpoint]
         else let endpoints = filter (\<lambda>ep. ep \<noteq> []) (map strings_TrimSpace (strings_Split (CHR '','') raw))
              in if endpoints = [] then [defaultEtcdEndpoint] else endpoints)"

definition envInt :: "environ \<Rightarrow> string \<Rightarrow> int \<Rightarrow> int" where
  "envInt env name fallback =
     (let raw = strings_TrimSpace (env name)
      in if raw = [] then fallback
         else case Atoi raw of Inl _ \<Rightarrow> fallback | Inr v \<Rightarrow> if v \<le> 0 then fallback else v)"

record externalTopology =
  xt_advertiseHost :: string
  xt_externalBasePort :: string
  xt_nodeID :: string

text \<open>The text after the last dash, if there is one.\<close>

definition after_dash :: "string \<Rightarrow> string option" where
  "after_dash s = (if CHR ''-'' \<in> set s then Some (rev (takeWhile (\<lambda>c. c \<noteq> CHR ''-'') (rev s))) else None)"

definition ordinal_of :: "string \<Rightarrow> int" where
  "ordinal_of nodeID =
     (case after_dash nodeID of
        None \<Rightarrow> 0
      | Some t \<Rightarrow> (case Atoi t of Inl _ \<Rightarrow> 0 | Inr n \<Rightarrow> if 0 \<le> n then n else 0))"

definition externalLeaderAddress :: "externalTopology \<Rightarrow> string \<Rightarrow> string" where
  "externalLeaderAddress e addr =
     (if addr = [] then addr
      else if xt_advertiseHost e = [] \<or> xt_externalBasePort e = [] then addr
      else case Atoi (xt_externalBasePort e) of
             Inl _ \<Rightarrow> addr
           | Inr basePort \<Rightarrow>
               if basePort \<le> 0 then addr
               else xt_advertiseHost e @ '':'' @ FormatInt (int64 (basePort + ordinal_of (xt_nodeID e))))"

record hyperconvergedConfig =
  hc_NodeID :: string
  hc_ListenAddr :: string
  hc_DataDir :: string
  hc_ChunkDir :: string
  hc_EtcdEndpoints :: "string list"
  hc_AdvertiseHost :: string
  hc_ExternalBasePort :: string
  hc_RaftConfig :: RaftConfig
  hc_ChunkSizeBytes :: int
  hc_ReplicaCount :: int

definition buildConfig :: "environ \<Rightarrow> Options \<Rightarrow> hyperconvergedConfig result" where
  "buildConfig env opts =
     (let advertise = strings_TrimSpace (env ''ADVERTISE_HOST'');
          c = \<lparr>hc_NodeID = o_NodeID opts, hc_ListenAddr = o_ListenAddr opts, hc_DataDir = o_DataDir opts,
               hc_ChunkDir = o_DataDir opts @ ''/chunks/'' @ o_NodeID opts,
               hc_EtcdEndpoints = parseEtcdEndpoints (env ''ETCD_ENDPOINTS''),
               hc_AdvertiseHost = (if advertise = [] then strings_TrimSpace (env ''HOST_IP'') else advertise),
               hc_ExternalBasePort = strings_TrimSpace (env ''EXTERNAL_BASE_PORT''),
               hc_RaftConfig =
                 \<lparr>MaxBatchSize = envInt env ''RAFT_MAX_BATCH_SIZE'' defaultRaftMaxBatchSize,
                  MaxBatchWaitTime = int64 (envInt env ''RAFT_MAX_BATCH_WAIT_MS'' defaultRaftMaxBatchWaitMilliseconds * 1000000),
                  SnapshotThresholdLogs = uint64 (envInt env ''RAFT_SNAPSHOT_THRESHOLD_LOGS'' defaultRaftSnapshotThresholdLogs)\<rparr>,
               hc_ChunkSizeBytes = defaultChunkSizeBytes, hc_ReplicaCount = nodeReplicaCount\<rparr>
      in if hc_NodeID c = [] then Inl (Errorf ''node ID is required'')
         else if hc_ListenAddr c = [] then Inl (Errorf ''listen address is required'')
         else if hc_DataDir c = [] then Inl (Errorf ''data directory is required'')
         else Inr c)"

section \<open>Construction\<close>

text \<open>
  What the process runs on: the etcd client, the bolt library, the checksum of the stores, how a proposal fares in the cluster, the hash of
  the data plane, the order in which its goroutines end, and the intent states and clocks of the chunk services.
\<close>

record ('db, 'e) platform =
  pf_etcd :: "'e etcd"
  pf_B :: "'db bbolt"
  pf_crc :: "blob \<Rightarrow> nat"
  pf_rep :: "'db replicate"
  pf_sha :: "bytes \<Rightarrow> string"
  pf_sched :: "ChunkLocation list \<Rightarrow> ChunkLocation list"
  pf_ist :: "string \<Rightarrow> string \<Rightarrow> IntentState result"
  pf_clock :: "string \<Rightarrow> int"

record 'e site =
  st_etcd :: 'e
  st_meta :: fs
  st_raft :: fs
  st_chunks :: fs

record 'db singleNodeServer =
  sn_cfg :: hyperconvergedConfig
  sn_comm :: grpc_comm
  sn_cluster :: etcd_service
  sn_server :: "('db, LocalDiscChunkService \<times> fs) server"
  sn_raft :: "('db service \<times> fs) node"
  sn_chunks :: "LocalDiscChunkService \<times> fs"

definition raftEnv :: "('db, 'e) platform \<Rightarrow> int \<Rightarrow> hyperconvergedConfig \<Rightarrow> ('db service \<times> fs) raft_env" where
  "raftEnv P now c =
     \<lparr>self = hc_NodeID c, cfg = hc_RaftConfig c, crc32 = pf_crc P, dataDir = hc_DataDir c,
      applyFn = (\<lambda>b (s, f). case ApplyTransaction (pf_B P) now b s of (r, s') \<Rightarrow> (r, s', f)),
      serializeFn = (\<lambda>(s, f). SerializeSnapshot (pf_B P) s),
      restoreFn = (\<lambda>b (s, f). RestoreSnapshot (pf_B P) (hc_DataDir c @ ''/state.db'') b s f)\<rparr>"

text \<open>The two planes, the topology provider and the server over them.\<close>

definition topologyProvider :: "hyperconvergedConfig \<Rightarrow> Node list result \<Rightarrow> 'm node \<Rightarrow> string" where
  "topologyProvider c nodes n =
     (if hc_AdvertiseHost c \<noteq> [] \<and> hc_ExternalBasePort c \<noteq> []
      then externalLeaderAddress
             \<lparr>xt_advertiseHost = hc_AdvertiseHost c, xt_externalBasePort = hc_ExternalBasePort c, xt_nodeID = hc_NodeID c\<rparr>
             (GetLeaderAddress nodes n)
      else GetLeaderAddress nodes n)"

definition assemble :: "('db, 'e) platform \<Rightarrow> int \<Rightarrow> hyperconvergedConfig \<Rightarrow> etcd_service \<Rightarrow> ('db, LocalDiscChunkService \<times> fs) server" where
  "assemble P now c cluster =
     \<lparr>sv_B = pf_B P, sv_rep = pf_rep P, sv_raft = raftEnv P now c,
      sv_cp = NewControlPlaneOrchestrator (NewSortedPlacementStrategy (hc_ReplicaCount c)) (view_of cluster) (hc_ChunkSizeBytes c) (hc_ReplicaCount c),
      sv_dp = \<lparr>dp_chunkSize = hc_ChunkSizeBytes c, dp_resolver = True, dp_view = view_of cluster\<rparr>,
      sv_serve = serve_chunk (pf_sha P) (pf_ist P) (pf_clock P), sv_sha = pf_sha P, sv_sched = pf_sched P, sv_self = hc_ListenAddr c,
      sv_topology = topologyProvider c\<rparr>"

text \<open>The stores of the replicator, the metadata service and the chunk service, in the order of the code.\<close>

definition openStores ::
  "('db, 'e) platform \<Rightarrow> hyperconvergedConfig \<Rightarrow> 'e site
   \<Rightarrow> (('db service \<times> fs) node \<times> LocalDiscChunkService \<times> fs) result \<times> 'e site" where
  "openStores P c w0 =
     (let (r, fm) = NewBoltMetadataService (pf_B P) (hc_DataDir c @ ''/state.db'') (st_meta w0); w1 = w0\<lparr>st_meta := fm\<rparr>
      in case r of Inl e \<Rightarrow> (Inl (Wrap ''creating metadata service'' e), w1) | Inr ms \<Rightarrow>
         let (r, d1) = NewFileLogStore (pf_crc P) (hc_DataDir c @ ''/raft_wal.json'') (st_raft w1); w2 = w1\<lparr>st_raft := d1\<rparr>
         in case r of Inl e \<Rightarrow> (Inl (Wrap ''creating raft log store'' e), w2) | Inr ls \<Rightarrow>
            let (r, d2) = NewFileStableStore (pf_crc P) (hc_DataDir c @ ''/raft_stable.json'') (st_raft w2); w3 = w2\<lparr>st_raft := d2\<rparr>
            in case r of Inl e \<Rightarrow> (Inl (Wrap ''creating raft stable store'' e), w3) | Inr _ \<Rightarrow>
               let w4 = w3\<lparr>st_raft := snd (os_MkdirAll (st_raft w3))\<rparr>;
                   (r, fc) = NewLocalDiscChunkService (hc_ChunkDir c) (st_chunks w4); w5 = w4\<lparr>st_chunks := fc\<rparr>
               in case r of Inl e \<Rightarrow> (Inl (Wrap ''creating chunk service'' e), w5) | Inr cs \<Rightarrow>
                  (Inr (NewDurableRaftReplicator (st_raft w5) ls (SetReplicator True ms, st_meta w5), cs, st_chunks w5), w5))"

definition Build ::
  "('db, 'e) platform \<Rightarrow> int \<Rightarrow> environ \<Rightarrow> Options \<Rightarrow> 'e site \<Rightarrow> 'db singleNodeServer result \<times> 'e site" where
  "Build P now env opts w0 =
     (case buildConfig env opts of
        Inl e \<Rightarrow> (Inl (Wrap ''building hyperconverged config'' e), w0)
      | Inr c \<Rightarrow>
          let comm = NewGRPCCommunicator (hc_ListenAddr c);
              (r, cl1, e1) = etcdStart (pf_etcd P) (NewEtcdClusterService (hc_EtcdEndpoints c)) (st_etcd w0); w1 = w0\<lparr>st_etcd := e1\<rparr>
          in case r of Some e \<Rightarrow> (Inl (Wrap ''starting cluster service'' e), w1) | None \<Rightarrow>
             let me = \<lparr>cn_ID = hc_NodeID c, cn_Address = hc_ListenAddr c, cn_Role = [], cn_Metadata = []\<rparr>;
                 (r, cl2, e2) = RegisterNode (pf_etcd P) now me cl1 (st_etcd w1); w2 = w1\<lparr>st_etcd := e2\<rparr>
             in case r of Some e \<Rightarrow> (Inl (Wrap ''registering node'' e), w2) | None \<Rightarrow>
                let (r, w3) = openStores P c w2
                in case r of Inl e \<Rightarrow> (Inl e, w3) | Inr (n, cs) \<Rightarrow>
                   (Inr \<lparr>sn_cfg = c, sn_comm = comm, sn_cluster = cl2, sn_server = assemble P now c cl2, sn_raft = n, sn_chunks = cs\<rparr>, w3))"

text \<open>The node among others: its own chunk service is the one at its own address.\<close>

definition node_host :: "'db singleNodeServer \<Rightarrow> (LocalDiscChunkService \<times> fs) world \<Rightarrow> ('db, LocalDiscChunkService \<times> fs) host" where
  "node_host b w = \<lparr>h_raft = sn_raft b, h_world = w\<lparr>w_nodes := (w_nodes w)(hc_ListenAddr (sn_cfg b) \<mapsto> sn_chunks b)\<rparr>, h_outbox = []\<rparr>"

text \<open>
  The life of a node.  \<open>rstart\<close> and \<open>rstop\<close> are the replicator's \<^verbatim>\<open>Start\<close> and \<^verbatim>\<open>Stop\<close>, \<open>listening\<close> whether the address could be
  bound, and \<open>serving\<close> all that happens to the host, the cluster service and etcd until the signal.
\<close>

definition Run ::
  "('db, 'e) platform \<Rightarrow> ('db service \<Rightarrow> error option \<times> 'db service) \<Rightarrow> error option \<Rightarrow> bool \<Rightarrow> int
   \<Rightarrow> (('db, LocalDiscChunkService \<times> fs) server \<Rightarrow> ('db, LocalDiscChunkService \<times> fs) host \<times> etcd_service \<times> 'e
       \<Rightarrow> ('db, LocalDiscChunkService \<times> fs) host \<times> etcd_service \<times> 'e)
   \<Rightarrow> 'db singleNodeServer \<Rightarrow> ('db, LocalDiscChunkService \<times> fs) host \<Rightarrow> 'e
   \<Rightarrow> error option \<times> grpc_comm \<times> ('db, LocalDiscChunkService \<times> fs) host \<times> etcd_service \<times> 'e" where
  "Run P rstart rstop listening now serving b h0 e0 =
     (let comm1 = registerPayloads (sn_comm b);
          failed = (\<lambda>e comm h. let (_, cl, e1) = etcdStop (pf_etcd P) (sn_cluster b) e0 in (Some e, comm, h, cl, e1))
      in case serverStart rstart None now (sn_server b) h0 of
           (Some e, _, h1) \<Rightarrow> failed e comm1 h1
         | (None, S, h1) \<Rightarrow>
             (case commStart listening comm1 of
                (Some e, comm2) \<Rightarrow> failed e comm2 h1
              | (None, comm2) \<Rightarrow>
                  let (h2, cl1, e1) = serving S (h1, sn_cluster b, e0);
                      (closing, comm3) = commStop comm2;
                      (errServer, h3) = serverStop rstop closing S h2;
                      (errCluster, cl2, e2) = etcdStop (pf_etcd P) cl1 e1
                  in (if errServer \<noteq> None then errServer else errCluster, comm3, h3, cl2, e2)))"

section \<open>The configuration\<close>

lemma Atoi_range: "Atoi s = Inr v \<Longrightarrow> - (2 ^ 63) \<le> v \<and> v < 2 ^ 63"
  by (auto simp: Atoi_def Let_def split: prod.splits if_splits option.splits)

lemma envInt_range: "0 < d \<Longrightarrow> d < 2 ^ 63 \<Longrightarrow> 0 < envInt env name d \<and> envInt env name d < 2 ^ 63"
  using Atoi_range by (auto simp: envInt_def Let_def split: sum.splits)

lemma TrimSpace_set: "set (strings_TrimSpace s) \<subseteq> set s"
  unfolding strings_TrimSpace_def by (auto dest!: set_dropWhileD)

lemma dropWhile_rev_dropWhile: "dropWhile P (rev (dropWhile P (rev (dropWhile P s)))) = rev (dropWhile P (rev (dropWhile P s)))"
proof (cases "dropWhile P s")
  case (Cons c t)
  have "\<not> P c" using Cons by (metis dropWhile_eq_Cons_conv)
  then have r: "rev (dropWhile P (rev (c # t))) = c # rev (dropWhile P (rev t))"
    by (simp add: dropWhile_append)
  show ?thesis unfolding Cons r using \<open>\<not> P c\<close> by simp
next
  case Nil
  show ?thesis unfolding Nil by simp
qed

lemma TrimSpace_idem: "strings_TrimSpace (strings_TrimSpace s) = strings_TrimSpace s"
  unfolding strings_TrimSpace_def dropWhile_rev_dropWhile by simp

lemma Split_parts: "p \<in> set (strings_Split c s) \<Longrightarrow> c \<notin> set p"
  by (induction c s arbitrary: p rule: strings_Split.induct) (auto split: if_splits list.splits)

lemma endpoints_ok:
  "parseEtcdEndpoints t \<noteq> [] \<and> list_all (\<lambda>ep. ep \<noteq> [] \<and> strings_TrimSpace ep = ep \<and> CHR '','' \<notin> set ep) (parseEtcdEndpoints t)"
proof -
  have "strings_TrimSpace defaultEtcdEndpoint = defaultEtcdEndpoint" "CHR '','' \<notin> set defaultEtcdEndpoint" "defaultEtcdEndpoint \<noteq> []"
    by (simp_all add: defaultEtcdEndpoint_def strings_TrimSpace_def is_space_def)
  then show ?thesis using Split_parts TrimSpace_set
    by (auto simp: parseEtcdEndpoints_def Let_def list_all_iff TrimSpace_idem) (meson in_mono)
qed

text \<open>
  C29. Every configuration is usable.  Whatever the environment holds, the configuration of a node is refused only if its name, its
  address or its data directory is missing, and otherwise has at least one etcd endpoint, each of them trimmed and
  non-empty, a positive batch size and snapshot threshold within their integer types, a positive batch wait unless the environment asks for more
  milliseconds than a duration holds, and the chunk size the client library splits its writes by.
\<close>

theorem config_valid:
  "case buildConfig env opts of
     Inl e \<Rightarrow> o_NodeID opts = [] \<or> o_ListenAddr opts = [] \<or> o_DataDir opts = []
   | Inr c \<Rightarrow> hc_NodeID c = o_NodeID opts \<and> hc_NodeID c \<noteq> [] \<and> hc_ListenAddr c = o_ListenAddr opts \<and> hc_ListenAddr c \<noteq> []
      \<and> hc_DataDir c = o_DataDir opts \<and> hc_DataDir c \<noteq> []
      \<and> hc_EtcdEndpoints c \<noteq> [] \<and> list_all (\<lambda>ep. ep \<noteq> [] \<and> strings_TrimSpace ep = ep \<and> CHR '','' \<notin> set ep) (hc_EtcdEndpoints c)
      \<and> 0 < MaxBatchSize (hc_RaftConfig c) \<and> MaxBatchSize (hc_RaftConfig c) < 2 ^ 63
      \<and> 0 < SnapshotThresholdLogs (hc_RaftConfig c) \<and> SnapshotThresholdLogs (hc_RaftConfig c) < 2 ^ 63
      \<and> (0 < MaxBatchWaitTime (hc_RaftConfig c) \<or> 9223372036854 < envInt env ''RAFT_MAX_BATCH_WAIT_MS'' defaultRaftMaxBatchWaitMilliseconds)
      \<and> hc_ChunkSizeBytes c = writeRPCChunkSize \<and> hc_ReplicaCount c = 3"
proof (cases "buildConfig env opts")
  case (Inl e)
  then show ?thesis by (simp add: buildConfig_def Let_def split: if_splits)
next
  case (Inr c)
  have e: "0 < envInt env name d \<and> envInt env name d < 2 ^ 63" if "d \<in> {defaultRaftMaxBatchSize, defaultRaftMaxBatchWaitMilliseconds, defaultRaftSnapshotThresholdLogs}" for name d
    using that by (intro envInt_range)
      (auto simp: defaultRaftMaxBatchSize_def defaultRaftMaxBatchWaitMilliseconds_def defaultRaftSnapshotThresholdLogs_def)
  have u: "0 < uint64 v \<and> uint64 v < 2 ^ 63" if "0 < v" "v < 2 ^ 63" for v using that by (simp add: uint64_def nat_less_iff)
  have w: "0 < int64 (v * 1000000) \<or> 9223372036854 < v" if "0 < v" for v
    using that by (cases "v \<le> 9223372036854") (simp_all add: int64_id)
  note e1 = e [of defaultRaftMaxBatchSize "''RAFT_MAX_BATCH_SIZE''"] and e2 = e [of defaultRaftMaxBatchWaitMilliseconds "''RAFT_MAX_BATCH_WAIT_MS''"]
    and e3 = e [of defaultRaftSnapshotThresholdLogs "''RAFT_SNAPSHOT_THRESHOLD_LOGS''"]
  have w2: "0 < int64 (envInt env ''RAFT_MAX_BATCH_WAIT_MS'' defaultRaftMaxBatchWaitMilliseconds * 1000000)
      \<or> 9223372036854 < envInt env ''RAFT_MAX_BATCH_WAIT_MS'' defaultRaftMaxBatchWaitMilliseconds"
    using w e2 by simp
  have u3: "0 < uint64 (envInt env ''RAFT_SNAPSHOT_THRESHOLD_LOGS'' defaultRaftSnapshotThresholdLogs)
      \<and> uint64 (envInt env ''RAFT_SNAPSHOT_THRESHOLD_LOGS'' defaultRaftSnapshotThresholdLogs) < 2 ^ 63"
    using u e3 by simp
  show ?thesis using Inr e1 w2 u3 endpoints_ok [of "env ''ETCD_ENDPOINTS''"]
    by (auto simp: buildConfig_def Let_def defaultChunkSizeBytes_def writeRPCChunkSize_def nodeReplicaCount_def split: if_splits)
qed

section \<open>What is built\<close>

lemma Build_cases:
  assumes "Build P now env opts w = (Inr b, w')"
  obtains c cl1 e1 cl2 e2 where "buildConfig env opts = Inr c"
    "etcdStart (pf_etcd P) (NewEtcdClusterService (hc_EtcdEndpoints c)) (st_etcd w) = (None, cl1, e1)"
    "RegisterNode (pf_etcd P) now \<lparr>cn_ID = hc_NodeID c, cn_Address = hc_ListenAddr c, cn_Role = [], cn_Metadata = []\<rparr> cl1 e1 = (None, cl2, e2)"
    "openStores P c (w\<lparr>st_etcd := e2\<rparr>) = (Inr (sn_raft b, sn_chunks b), w')"
    "sn_cfg b = c" "sn_cluster b = cl2" "sn_server b = assemble P now c cl2" "sn_comm b = NewGRPCCommunicator (hc_ListenAddr c)"
  using assms by (auto simp: Build_def Let_def split: sum.splits prod.splits option.splits)

lemma openStores_built:
  assumes "openStores P c w = (Inr (n, cs, f), w')"
  shows "st_etcd w' = st_etcd w \<and> baseDir cs = hc_ChunkDir c \<and> \<not> cs_ms cs \<and> preparedIndex cs = Map.empty
    \<and> replicator (fst (machine n)) \<and> state n = Follower"
proof -
  obtain f0 where cs: "NewLocalDiscChunkService (hc_ChunkDir c) f0 = (Inr cs, f)"
    using assms by (auto simp: openStores_def Let_def split: sum.splits prod.splits)
  have "st_etcd w' = st_etcd w \<and> (\<exists>d ls ms m. n = NewDurableRaftReplicator d ls (SetReplicator True ms, m))"
    using assms by (auto simp: openStores_def Let_def split: sum.splits prod.splits)
  then show ?thesis using cs by (auto simp: NewLocalDiscChunkService_def NewDurableRaftReplicator_def SetReplicator_def split: prod.splits option.splits)
qed

lemma Build_control_plane:
  assumes "Build P now env opts w = (Inr b, w')"
  shows "cp_chunkSize (sv_cp (sn_server b)) = writeRPCChunkSize" and "dp_chunkSize (sv_dp (sn_server b)) = writeRPCChunkSize"
proof -
  obtain c cl2 where c: "buildConfig env opts = Inr c" "sn_server b = assemble P now c cl2" using assms by (elim Build_cases) auto
  have "hc_ChunkSizeBytes c = 8388608" using c(1) by (auto simp: buildConfig_def Let_def defaultChunkSizeBytes_def split: if_splits)
  then show "cp_chunkSize (sv_cp (sn_server b)) = writeRPCChunkSize" "dp_chunkSize (sv_dp (sn_server b)) = writeRPCChunkSize"
    using c(2) by (simp_all add: assemble_def NewControlPlaneOrchestrator_def writeRPCChunkSize_def)
qed

lemma tiles_bounds:
  "tiles start ps d \<Longrightarrow> (off, p) \<in> set ps \<Longrightarrow> start \<le> off \<and> off + int (length p) \<le> start + int (length d)"
proof (induction ps arbitrary: start d)
  case (Cons x ps)
  obtain o' q where x: "x = (o', q)" by fastforce
  have q: "o' = start" "take (length q) d = q" "tiles (start + int (length q)) ps (drop (length q) d)" using Cons.prems(1) x by auto
  then have "length q \<le> length d" by (metis length_take min.cobounded1)
  then show ?case using Cons.IH [OF q(3)] Cons.prems(2) q(1) x by auto
qed simp

text \<open>
  C26. The client's writes fit the server.  Every write request that a client's writes and \<^verbatim>\<open>Fsync\<close> got acknowledged is one that the control plane of a node
  built by \<^verbatim>\<open>Build\<close> accepts as lying within one chunk: client and server agree on the chunk size and on how offsets are split.
\<close>

theorem client_pieces_accepted:
  assumes "Build P now env opts w = (Inr b, w')"
    and "withFD fd c = Inr f" and "fd_Buffer f = []" and "0 \<le> fd_Offset f" and "fd_Offset f + int (length (concat ds)) < 2 ^ 63"
    and "write_all (logged T) fd ds c = (True, c1)" and "clFsync (logged T) fd c1 = (None, c2)"
  shows "\<exists>n. log_of c2 = log_of c @ n \<and> tiles (fd_Offset f) (written_at (fd_InodeID f) n) (concat ds)
     \<and> (\<forall>(off, p)\<in>set (written_at (fd_InodeID f) n). isWithinChunkBoundary (sv_cp (sn_server b)) off (int (length p)) = Inr True)"
proof -
  obtain n where n: "log_of c2 = log_of c @ n" "tiles (fd_Offset f) (written_at (fd_InodeID f) n) (concat ds)" "chunk_pieces (written_at (fd_InodeID f) n)"
    using fsync_pushes [OF assms(2-7)] by (elim exE conjE)
  have "isWithinChunkBoundary (sv_cp (sn_server b)) off (int (length p)) = Inr True" if p: "(off, p) \<in> set (written_at (fd_InodeID f) n)" for off p
  proof -
    have q: "p \<noteq> []" "off mod writeRPCChunkSize + int (length p) \<le> writeRPCChunkSize" using n(3) p by (auto simp: chunk_pieces_def)
    moreover have "0 \<le> off" "off + int (length p) < 2 ^ 63" using tiles_bounds [OF n(2) p] assms(4,5) by auto
    ultimately show ?thesis
      using within_exact [of "sv_cp (sn_server b)" off "int (length p)"] Build_control_plane(1) [OF assms(1)]
      by (simp add: writeRPCChunkSize_def)
  qed
  then show ?thesis using n(1,2) by blast
qed

section \<open>The chunk service of a built node\<close>

text \<open>Any requests, with whatever metadata service and clock each of them meets.\<close>

definition chunk_life ::
  "(bytes \<Rightarrow> string) \<Rightarrow> ((string \<Rightarrow> IntentState result) \<times> int \<times> ChunkRequest) list \<Rightarrow> LocalDiscChunkService \<times> fs \<Rightarrow> LocalDiscChunkService \<times> fs" where
  "chunk_life sha qs s = fold (\<lambda>(ist, now, q) (cs, f). snd (handleChunk sha ist now q cs f)) qs s"

lemma handleChunk_ms:
  assumes "handleChunk sha ist now q cs f = (r, cs', f')"
  shows "cs_ms cs' = cs_ms cs"
  using assms
  by (cases q) (auto simp: PrepareChunk_def CommitChunk_def AbortChunk_def ReadChunk_def readFinish_def finalizeChunk_def
      addToPreparedIndex_def removeFromPreparedIndex_def Let_def apfst_def map_prod_def
      split: option.splits prod.splits if_splits sum.splits read_begin.splits)

lemma chunk_life_ms: "cs_ms (fst (chunk_life sha qs s)) = cs_ms (fst s)"
  unfolding chunk_life_def
proof (induction qs arbitrary: s)
  case (Cons q qs)
  obtain ist now x cs f where q: "q = (ist, now, x)" "s = (cs, f)" by (metis prod_cases3 surj_pair)
  obtain r cs' f' where h: "handleChunk sha ist now x cs f = (r, cs', f')" by (metis prod_cases3)
  show ?case using Cons.IH [of "(cs', f')"] handleChunk_ms [OF h] by (simp add: q h)
qed simp

lemma ReadChunk_unserved:
  assumes "\<not> cs_ms cs" and "fst (os_ReadFile (finalChunkPath cs c) f) = Inl e"
  shows "\<exists>e'. fst (ReadChunk ist now c cs f) = Inl e' \<and> fst (snd (ReadChunk ist now c cs f)) = cs"
  using assms by (auto simp: ReadChunk_def readBegin_def split: prod.splits option.splits)

text \<open>
  C40. A built node never finishes a commit on reading.  The chunk service that \<^verbatim>\<open>Build\<close> makes is not given the metadata service: whatever requests it has
  handled, and even if the metadata record the transaction as committed, a chunk that is prepared but was not published by its commit message cannot be read from it, and
  stays in the index.
\<close>

theorem built_reads_ignore_commit:
  assumes "Build P now env opts w = (Inr b, w')" and "(cs, f) = chunk_life sha qs (sn_chunks b)" and "fst (os_ReadFile (finalChunkPath cs c) f) = Inl e"
    and "preparedIndex cs c = Some entry" and "ist (pe_TxnID entry) = Inr StateCommitted"
  shows "\<exists>e'. fst (ReadChunk ist t c cs f) = Inl e' \<and> preparedIndex (fst (snd (ReadChunk ist t c cs f))) c = Some entry"
proof -
  obtain cf w2 where "openStores P cf w2 = (Inr (sn_raft b, sn_chunks b), w')" using assms(1) by (elim Build_cases) auto
  then have "\<not> cs_ms (fst (sn_chunks b))" using openStores_built [of P cf w2 "sn_raft b" "fst (sn_chunks b)" "snd (sn_chunks b)"] by simp
  then have "\<not> cs_ms cs" using chunk_life_ms [of sha qs "sn_chunks b"] assms(2) by (metis fst_conv)
  from ReadChunk_unserved [OF this assms(3), of ist t] show ?thesis using assms(4) by auto
qed

section \<open>A built node in the cluster\<close>

text \<open>
  C28. A node that has been built is seen by the others.  After a successful \<^verbatim>\<open>Build\<close> every cluster service that starts lists the node among the
  healthy ones if, and only if, the node is configured in etcd: registration writes the lease, never the configuration.
\<close>

theorem built_node_seen:
  assumes "etcd_api (pf_etcd P) stored" and "wf_registry (stored (st_etcd w))" and "Build P now env opts w = (Inr b, w')"
    and "etcdStart (pf_etcd P) (NewEtcdClusterService eps) (st_etcd w') = (None, s, e)"
  shows "\<exists>hs. GetHealthyNodes s = Inr hs \<and> (o_NodeID opts \<in> node_ID ` set hs \<longleftrightarrow> configured (stored (st_etcd w)) (o_NodeID opts) \<noteq> None)"
proof -
  obtain c cl1 e1 cl2 e2 where b: "buildConfig env opts = Inr c"
    "etcdStart (pf_etcd P) (NewEtcdClusterService (hc_EtcdEndpoints c)) (st_etcd w) = (None, cl1, e1)"
    "RegisterNode (pf_etcd P) now \<lparr>cn_ID = hc_NodeID c, cn_Address = hc_ListenAddr c, cn_Role = [], cn_Metadata = []\<rparr> cl1 e1 = (None, cl2, e2)"
    "openStores P c (w\<lparr>st_etcd := e2\<rparr>) = (Inr (sn_raft b, sn_chunks b), w')"
    using assms(3) by (elim Build_cases) auto
  have i: "hc_NodeID c = o_NodeID opts" "o_NodeID opts \<noteq> []" using b(1) by (auto simp: buildConfig_def Let_def split: if_splits)
  have e: "st_etcd w' = e2" using b(4) openStores_built [of P c "w\<lparr>st_etcd := e2\<rparr>" "sn_raft b" "fst (sn_chunks b)" "snd (sn_chunks b)" w'] by simp
  have e1: "stored e1 = stored (st_etcd w)" using etcd_api.start_tracks(2) [OF assms(1) b(2) assms(2)] .
  obtain l where l: "stored e2 = (stored e1)(PrefixLease @ o_NodeID opts \<mapsto> JsonNodeLiveness l)" "nl_NodeID l = o_NodeID opts" "nl_Status l = NodeStatusAlive"
    using etcd_api.register_writes [OF assms(1) b(3)] i(1) by auto
  have w: "wf_registry (stored e2)" using assms(2) l(1,2) e1 i(2) by (auto simp: wf_registry_def wf_entry_lease)
  have "tracks (stored e2) s" using etcd_api.start_tracks(1) [OF assms(1) assms(4) [unfolded e] w] .
  then obtain hs where hs: "GetHealthyNodes s = Inr hs" "\<forall>n. n \<in> set hs \<longleftrightarrow> (\<exists>c. configured (stored e2) (cn_ID c) = Some c \<and> leased (stored e2) (cn_ID c)
           \<and> n = \<lparr>node_ID = cn_ID c, node_Address = cn_Address c, node_Status = NodeStatusAlive, node_Metadata = cn_Metadata c\<rparr>)"
    using tracks_healthy by blast
  have lc: "leased (stored e2) (o_NodeID opts)" "configured (stored e2) (o_NodeID opts) = configured (stored (st_etcd w)) (o_NodeID opts)"
    using l e1 keys_disjoint(1) [of "[]" "[]"] by (simp_all add: leased_def configured_def)
  have "o_NodeID opts \<in> node_ID ` set hs \<longleftrightarrow> configured (stored e2) (o_NodeID opts) \<noteq> None"
  proof
    assume "o_NodeID opts \<in> node_ID ` set hs"
    then obtain n where "n \<in> set hs" "node_ID n = o_NodeID opts" by force
    then obtain d where "configured (stored e2) (cn_ID d) = Some d" "cn_ID d = o_NodeID opts" using hs(2) by auto
    then show "configured (stored e2) (o_NodeID opts) \<noteq> None" by simp
  next
    assume "configured (stored e2) (o_NodeID opts) \<noteq> None"
    then obtain d where d: "configured (stored e2) (o_NodeID opts) = Some d" by blast
    then have "stored e2 (PrefixConfig @ o_NodeID opts) = Some (JsonClusterNode d)" by (auto simp: configured_def split: option.splits etcd_value.splits)
    then have "wf_entry (PrefixConfig @ o_NodeID opts) (JsonClusterNode d)" using w unfolding wf_registry_def by blast
    then have "cn_ID d = o_NodeID opts" by (simp add: wf_entry_config)
    moreover from this have "\<lparr>node_ID = cn_ID d, node_Address = cn_Address d, node_Status = NodeStatusAlive, node_Metadata = cn_Metadata d\<rparr> \<in> set hs"
      unfolding hs(2) [rule_format] using d lc(1) by (intro exI [of _ d]) simp
    ultimately show "o_NodeID opts \<in> node_ID ` set hs" by (metis Node.select_convs(1) image_eqI)
  qed
  then show ?thesis using hs(1) lc(2) by simp
qed

section \<open>The advertised leader\<close>

lemma FormatInt_inj:
  assumes "0 \<le> a" and "0 \<le> b" and "a < 2 ^ 63" and "b < 2 ^ 63" and "FormatInt a = FormatInt b"
  shows "a = b"
proof -
  have "nat v \<le> MaxUint64" if "v < 2 ^ 63" for v using that by (simp add: MaxUint64_def)
  then have p: "parse_digits 0 (FormatUint (nat a)) = Inr (nat a)" "parse_digits 0 (FormatUint (nat b)) = Inr (nat b)"
    using assms(3,4) by (simp_all only: parse_FormatUint)
  have e: "FormatUint (nat a) = FormatUint (nat b)" using assms(1,2,5) by (simp add: FormatInt_def)
  have "nat a = nat b" using p unfolding e by simp
  then show ?thesis using assms(1,2) by simp
qed

text \<open>
  With an advertised host every node names itself as the leader.  Two nodes with the same environment and different ordinals in their names, which both
  know the same leader, answer a topology request with different addresses: each with the external port of its own ordinal.
\<close>

lemma advertised_leader_is_self:
  assumes "hc_AdvertiseHost c \<noteq> []" and "Atoi (hc_ExternalBasePort c) = Inr p" and "0 < p"
    and "hc_AdvertiseHost c' = hc_AdvertiseHost c" and "hc_ExternalBasePort c' = hc_ExternalBasePort c"
    and "ordinal_of (hc_NodeID c) \<noteq> ordinal_of (hc_NodeID c')" and "p + ordinal_of (hc_NodeID c) < 2 ^ 63" and "p + ordinal_of (hc_NodeID c') < 2 ^ 63"
    and "GetLeaderAddress nodes n \<noteq> []" and "GetLeaderAddress nodes' n' = GetLeaderAddress nodes n"
  shows "topologyProvider c nodes n = hc_AdvertiseHost c @ '':'' @ FormatInt (p + ordinal_of (hc_NodeID c))
     \<and> topologyProvider c' nodes' n' \<noteq> topologyProvider c nodes n"
proof -
  have o: "0 \<le> ordinal_of i" for i by (simp add: ordinal_of_def split: option.splits sum.splits)
  have port: "hc_ExternalBasePort c \<noteq> []" using assms(2) by (auto simp: Atoi_def)
  have a: "topologyProvider c nodes n = hc_AdvertiseHost c @ '':'' @ FormatInt (p + ordinal_of (hc_NodeID c))"
    "topologyProvider c' nodes' n' = hc_AdvertiseHost c @ '':'' @ FormatInt (p + ordinal_of (hc_NodeID c'))"
    using assms port o [of "hc_NodeID c"] o [of "hc_NodeID c'"] by (simp_all add: topologyProvider_def externalLeaderAddress_def)
  have "FormatInt (p + ordinal_of (hc_NodeID c')) \<noteq> FormatInt (p + ordinal_of (hc_NodeID c))"
    using FormatInt_inj [of "p + ordinal_of (hc_NodeID c')" "p + ordinal_of (hc_NodeID c)"] assms(3,6-8) o [of "hc_NodeID c"] o [of "hc_NodeID c'"] by auto
  then show ?thesis using a by simp
qed

section \<open>The life of a node\<close>

lemma fold_register_state:
  "gc_serving (fold (\<lambda>(m, t). RegisterPayloadType m t) xs c) = gc_serving c"
  "gc_stopped (fold (\<lambda>(m, t). RegisterPayloadType m t) xs c) = gc_stopped c"
proof -
  have "gc_serving (RegisterPayloadType m t c) = gc_serving c" "gc_stopped (RegisterPayloadType m t c) = gc_stopped c" for m t c
    by (simp_all add: RegisterPayloadType_def)
  then show "gc_serving (fold (\<lambda>(m, t). RegisterPayloadType m t) xs c) = gc_serving c"
    "gc_stopped (fold (\<lambda>(m, t). RegisterPayloadType m t) xs c) = gc_stopped c"
    by (induction xs arbitrary: c) (simp_all add: case_prod_beta)
qed

lemma registered_state: "gc_serving (registerPayloads c) = gc_serving c" "gc_stopped (registerPayloads c) = gc_stopped c"
  unfolding registerPayloads_def by (rule fold_register_state)+

text \<open>However the run of a node ends, its cluster service has been stopped and it no longer serves requests.\<close>

lemma Run_stops:
  assumes "Run P rstart rstop listening now serving b h0 e0 = (r, comm, h, cl, e)" and "\<not> gc_serving (sn_comm b)" and "\<not> gc_stopped (sn_comm b)"
  shows "es_cancelled cl \<and> \<not> es_heartbeat cl \<and> \<not> es_watching cl \<and> \<not> gc_serving comm"
  using assms
  by (auto simp: Run_def Let_def etcdStop_def commStop_def commStart_def registered_state split: prod.splits option.splits if_splits)

section \<open>A node for examples\<close>

definition demo_platform :: "(image, (string \<times> etcd_value) list \<times> int) platform" where
  "demo_platform = \<lparr>pf_etcd = plain_etcd, pf_B = img_store, pf_crc = (\<lambda>_. 0), pf_rep = direct img_store 6, pf_sha = id, pf_sched = rev,
     pf_ist = (\<lambda>_ _. Inr StateCommitted), pf_clock = (\<lambda>_. 1)\<rparr>"

definition demo_site :: "((string \<times> etcd_value) list \<times> int) site" where
  "demo_site = \<lparr>st_etcd = demo_registry, st_meta = blank_fs, st_raft = blank_fs, st_chunks = blank_fs\<rparr>"

definition demo_options :: Options where
  "demo_options = \<lparr>o_NodeID = ''n1'', o_ListenAddr = ''n1:1'', o_DataDir = ''d'', o_SeedPeers = []\<rparr>"

definition demo_config :: hyperconvergedConfig where
  "demo_config = projr (buildConfig (\<lambda>_. []) demo_options)"

definition demo_chunks :: LocalDiscChunkService where
  "demo_chunks = \<lparr>baseDir = ''d/chunks/n1'', cs_ms = False, preparedIndex = Map.empty\<rparr>"

lemma demo_config:
  "buildConfig (\<lambda>_. []) demo_options = Inr demo_config" "hc_DataDir demo_config = ''d''" "hc_ChunkDir demo_config = ''d/chunks/n1''"
  "hc_NodeID demo_config = ''n1''"
  by (simp_all add: demo_config_def buildConfig_def demo_options_def Let_def)

lemma demo_stores:
  assumes "st_meta w = blank_fs" and "st_raft w = blank_fs" and "st_chunks w = blank_fs"
  shows "\<exists>n w'. openStores demo_platform demo_config w = (Inr (n, demo_chunks, blank_fs), w')"
proof -
  have p: "''d/state.db'' \<noteq> []" by simp
  obtain ms fm where ms: "NewBoltMetadataService img_store ''d/state.db'' blank_fs = (Inr ms, fm)"
    using img.NewBoltMetadataService_fresh [OF img_ok(1,2) p blank_ok] by (metis prod.collapse)
  have l: "NewFileLogStore (\<lambda>_. 0) ''d/raft_wal.json'' blank_fs = (Inr empty_log, blank_fs)"
    "NewFileStableStore (\<lambda>_. 0) ''d/raft_stable.json'' blank_fs = (Inr (), blank_fs)" "os_MkdirAll blank_fs = (None, blank_fs)"
    by (simp_all add: NewFileLogStore_def NewFileStableStore_def GetState_def os_MkdirAll_def syscall_def blank_fs_def os_ReadFile_def empty_log_def)
  then show ?thesis using assms ms
    by (simp add: openStores_def demo_config demo_platform_def NewLocalDiscChunkService_def demo_chunks_def)
qed

lemma demo_build: "\<exists>b w'. Build demo_platform 0 (\<lambda>_. []) demo_options demo_site = (Inr b, w') \<and> sn_chunks b = (demo_chunks, blank_fs)"
proof -
  obtain cl1 where cl1: "etcdStart plain_etcd (NewEtcdClusterService (hc_EtcdEndpoints demo_config)) demo_registry = (None, cl1, demo_registry)"
    by (simp add: etcdStart_def plain_etcd_def syncState_def)
  obtain cl2 e2 where cl2: "RegisterNode plain_etcd 0 \<lparr>cn_ID = hc_NodeID demo_config, cn_Address = hc_ListenAddr demo_config, cn_Role = [], cn_Metadata = []\<rparr> cl1 demo_registry = (None, cl2, e2)"
    by (simp add: RegisterNode_def plain_etcd_def Let_def)
  obtain n w' where st: "openStores demo_platform demo_config (demo_site\<lparr>st_etcd := e2\<rparr>) = (Inr (n, demo_chunks, blank_fs), w')"
    using demo_stores [of "demo_site\<lparr>st_etcd := e2\<rparr>"] by (auto simp: demo_site_def)
  have e: "pf_etcd demo_platform = plain_etcd" "st_etcd demo_site = demo_registry" by (simp_all add: demo_platform_def demo_site_def)
  show ?thesis using st by (simp add: Build_def demo_config(1) e cl1 cl2)
qed

theorem client_pieces_accepted_witness:
  "\<exists>b w' n. Build demo_platform 0 (\<lambda>_. []) demo_options demo_site = (Inr b, w') \<and> tiles 4 (written_at ''7'' n) ''abcde''
     \<and> list_all (\<lambda>(off, p). isWithinChunkBoundary (sv_cp (sn_server b)) off (int (length p)) = Inr True) (written_at ''7'' n)"
proof -
  obtain b w' where b: "Build demo_platform 0 (\<lambda>_. []) demo_options demo_site = (Inr b, w')" using demo_build by blast
  let ?c = "demo_client 4 [] ([ok_reply (JsonInt 5)], [])"
  have w: "write_all (logged scripted) 3 [''ab'', ''cde''] ?c = (True, demo_client 9 ''abcde'' ([ok_reply (JsonInt 5)], []))"
    by (simp add: demo_Write writeBufferLimit_def)
  obtain c2 where f: "clFsync (logged scripted) 3 (demo_client 9 ''abcde'' ([ok_reply (JsonInt 5)], [])) = (None, c2)"
    by (simp add: demo_Fsync)
  from client_pieces_accepted [OF b demo_withFD _ _ _ w f] show ?thesis using b by (auto simp: demo_fd_def list_all_iff)
qed

definition demo_prepared :: "LocalDiscChunkService \<times> fs" where
  "demo_prepared = chunk_life id [(\<lambda>_. Inr StateUnknown, 1, PrepareChunkRequest ''t1'' ''c1'' ''xyz'' ''xyz'')] (demo_chunks, blank_fs)"

lemma demo_prepared:
  "fst (os_ReadFile (finalChunkPath (fst demo_prepared) ''c1'') (snd demo_prepared)) = Inl OsNotExist"
  "\<exists>entry. preparedIndex (fst demo_prepared) ''c1'' = Some entry \<and> pe_TxnID entry = ''t1''"
  by (simp_all add: demo_prepared_def chunk_life_def demo_chunks_def PrepareChunk_def os_Stat_def os_OpenTrunc_def f_Write_def f_Sync_def f_Close_def
      syscall_def blank_fs_def os_ReadFile_def addToPreparedIndex_def finalChunkPath_def tempFilePath_def tempFileName_def filepath_Join_def
      filepath_Clean_def clean_step_def has_prefix_def Let_def apfst_def)

theorem built_reads_ignore_commit_witness:
  "\<exists>b w' e entry. Build demo_platform 0 (\<lambda>_. []) demo_options demo_site = (Inr b, w')
     \<and> demo_prepared = chunk_life id [(\<lambda>_. Inr StateUnknown, 1, PrepareChunkRequest ''t1'' ''c1'' ''xyz'' ''xyz'')] (sn_chunks b)
     \<and> fst (ReadChunk (\<lambda>_. Inr StateCommitted) 2 ''c1'' (fst demo_prepared) (snd demo_prepared)) = Inl e
     \<and> preparedIndex (fst demo_prepared) ''c1'' = Some entry \<and> pe_TxnID entry = ''t1''"
proof -
  obtain b w' where b: "Build demo_platform 0 (\<lambda>_. []) demo_options demo_site = (Inr b, w')" "sn_chunks b = (demo_chunks, blank_fs)" using demo_build by blast
  then have p: "(fst demo_prepared, snd demo_prepared) = chunk_life id [(\<lambda>_. Inr StateUnknown, 1, PrepareChunkRequest ''t1'' ''c1'' ''xyz'' ''xyz'')] (sn_chunks b)"
    by (simp add: demo_prepared_def)
  obtain entry where e: "preparedIndex (fst demo_prepared) ''c1'' = Some entry" "pe_TxnID entry = ''t1''" using demo_prepared(2) by blast
  from built_reads_ignore_commit [OF b(1) p demo_prepared(1) e(1), of "\<lambda>_. Inr StateCommitted" 2] show ?thesis using b(1) p e by auto
qed

theorem built_node_seen_witness:
  "\<exists>b w' s e hs. Build demo_platform 0 (\<lambda>_. []) demo_options demo_site = (Inr b, w')
     \<and> etcdStart plain_etcd (NewEtcdClusterService []) (st_etcd w') = (None, s, e) \<and> GetHealthyNodes s = Inr hs \<and> ''n1'' \<in> node_ID ` set hs"
proof -
  obtain b w' where b: "Build demo_platform 0 (\<lambda>_. []) demo_options demo_site = (Inr b, w')" using demo_build by blast
  obtain s e where s: "etcdStart plain_etcd (NewEtcdClusterService []) (st_etcd w') = (None, s, e)" by (simp add: etcdStart_def plain_etcd_def syncState_def)
  have p: "pf_etcd demo_platform = plain_etcd" "st_etcd demo_site = demo_registry" by (simp_all add: demo_platform_def demo_site_def)
  have c: "configured (map_of (fst demo_registry)) ''n1'' \<noteq> None" by (simp add: configured_def demo_registry_def)
  from built_node_seen [of demo_platform "\<lambda>e. map_of (fst e)" demo_site, unfolded p, OF pe.etcd_api_axioms demo_wf b s] show ?thesis
    using b s c by (auto simp: demo_options_def)
qed

definition demo_external :: "string \<Rightarrow> hyperconvergedConfig" where
  "demo_external i = demo_config\<lparr>hc_NodeID := i, hc_AdvertiseHost := ''h'', hc_ExternalBasePort := ''9000''\<rparr>"

lemma advertised_leader_is_self_witness:
  "let n = (NewDurableRaftReplicator blank_fs empty_log ())\<lparr>leaderID := ''a''\<rparr>
   in topologyProvider (demo_external ''s-1'') (Inr run_members) n = ''h:9001''
      \<and> topologyProvider (demo_external ''s-2'') (Inr run_members) n \<noteq> topologyProvider (demo_external ''s-1'') (Inr run_members) n"
proof -
  let ?n = "(NewDurableRaftReplicator blank_fs empty_log ())\<lparr>leaderID := ''a''\<rparr>"
  have l: "GetLeaderAddress (Inr run_members) ?n \<noteq> []" by (simp add: GetLeaderAddress_def findLeaderAddrLocked_def run_members_def NewDurableRaftReplicator_def)
  have p: "Atoi ''9000'' = Inr 9000" by (simp add: Atoi_def digit_val_def)
  have o: "ordinal_of ''s-1'' = 1" "ordinal_of ''s-2'' = 2" by (simp_all add: ordinal_of_def after_dash_def Atoi_def digit_val_def)
  have f: "FormatInt 9001 = ''9001''" by (simp add: FormatInt_def FormatUint.simps digit_char_def char_of_def bit_iff_odd)
  from advertised_leader_is_self [of "demo_external ''s-1''" 9000 "demo_external ''s-2''" "Inr run_members" ?n "Inr run_members" ?n] show ?thesis
    using l p o f by (auto simp: demo_external_def)
qed

end
