(* ===== verification/Spec2Isabelle.thy ===== *)
theory Spec2Isabelle
  imports BoltRestore WriteFaults Deploy
begin

text \<open>
  A verification of sandstore, a distributed file system in Go.  A node has a metadata service on a bolt database, replicated by
  Raft, a chunk service on local files, a control plane and a data plane that together carry out a write in two phases, a server that
  answers the messages of clients and other nodes, and a cluster service on etcd.  A client library buffers writes, finds the leader
  and retries.  All paths below are under \<^verbatim>\<open>src/\<close>.

  \<^bold>\<open>How the parts interact.\<close>  A client's write goes through the client's buffer (\<open>ClientLib\<close>), its retry loop (\<open>ClientRouting\<close>) and the
  communicator (\<open>Wire\<close>) to a server (\<open>Server\<close>).  The control plane (\<open>ControlPlane\<close>) chooses chunk, transaction and targets, the
  data plane (\<open>DataPlane\<close>) prepares the bytes on the chunk services (\<open>ChunkService\<close>) of the targets, the transaction's command goes through
  Raft (\<open>DurableRaft\<close>, \<open>RaftStores\<close>) and is applied to the metadata service (\<open>BoltMeta\<close>), and commit notices follow.  The nodes a
  component knows are those of the cluster service (\<open>EtcdCluster\<close>).  \<open>Deploy\<close> builds all of it from the environment.

  \<^bold>\<open>The theories\<close>, from the bottom:

  \<^item> \<open>Prelude\<close>: machine integers, errors and results.  \<open>Contract\<close>: the shared data (\<^verbatim>\<open>topology/contract/types.go\<close>,
    \<^verbatim>\<open>internal/metadata_service/ops.go\<close>, \<^verbatim>\<open>raft_replicator/types.go\<close>).  \<open>OsFile\<close>: files with failing calls and crashes, and
    \<^verbatim>\<open>writeFileAtomically\<close>.  \<open>Keys\<close>: the byte keys of the database.
  \<^item> \<open>RaftStores\<close> (\<^verbatim>\<open>durable_raft/stores.go\<close>), \<open>DurableRaft\<close> (\<^verbatim>\<open>durable_raft/replicator.go\<close>): one function per method, split where the
    lock is released.  \<open>RaftProps\<close>: what each operation does to term, vote and their durable copies.  \<open>RaftNet\<close>: a cluster with crashes and
    an unreliable network as a step relation; election safety and the durability of votes by rule induction.
  \<^item> \<open>Bbolt\<close>: the interface of the key/value store (locales \<open>bbolt_api\<close>, \<open>bbolt_sweep\<close>) and a store that satisfies it.  \<open>BoltMeta\<close>
    (\<^verbatim>\<open>internal/metadata_service/bolt/bolt_metadata_service.go\<close>): every method.  \<open>BoltSpec\<close>: the abstract file system and the simulation of it.
    \<open>BoltQuery\<close>, \<open>BoltProps\<close>, \<open>BoltTree\<close>, \<open>BoltClient\<close>, \<open>BoltRestore\<close>: queries, refinement and agreement of replicas, the namespace as a
    tree, the operations clients call, snapshots and replays.
  \<^item> \<open>ChunkService\<close> (\<^verbatim>\<open>internal/chunk_service/local_disc\<close>) and \<open>ChunkProps\<close>: refinement of an abstract store of prepared and committed
    chunks, atomicity under failures and crashes, restart.
  \<^item> \<open>DataPlane\<close> (\<^verbatim>\<open>raft_data_plane.go\<close>, \<^verbatim>\<open>cluster_placement.go\<close>, \<^verbatim>\<open>cluster_endpoint_resolver.go\<close>) and \<open>DataPlaneProps\<close>: the bytes a
    write prepares, and that a prepared write is on every target; the locale \<open>chunk_nodes\<close> is what the data plane relies on of the nodes.
  \<^item> \<open>ControlPlane\<close> (\<^verbatim>\<open>control_plane.go\<close>, \<^verbatim>\<open>raft_tx_coordinator.go\<close>), \<open>Server\<close> (\<^verbatim>\<open>hyperconverged_server.go\<close>, \<^verbatim>\<open>messages.go\<close>,
    \<^verbatim>\<open>consensus_handler.go\<close>), \<open>WritePath\<close>: an acknowledged write stays readable.  \<open>WriteFaults\<close>: failed writes, and the cases in which data are
    lost or misplaced.
  \<^item> \<open>ClientRouting\<close> (\<^verbatim>\<open>clients/library/errors.go\<close>, \<^verbatim>\<open>request_manager.go\<close>, \<^verbatim>\<open>topology/hyperconverged_router.go\<close>), \<open>ClientLib\<close>
    (\<^verbatim>\<open>clients/library/client.go\<close>), \<open>ClientProps\<close>: a mutation is repeated only after a rejection, what is written and synced reaches the
    server, a listing is complete.
  \<^item> \<open>EtcdCluster\<close> (\<^verbatim>\<open>internal/cluster_service/etcd\<close>): the cache follows the registry in etcd, and placement over it agrees between nodes.
  \<^item> \<open>Wire\<close> (\<^verbatim>\<open>internal/communication/grpc\<close>): what the server handles is what was sent, and what any message can do to it.
  \<^item> \<open>Deploy\<close> (\<^verbatim>\<open>servers/node\<close>, \<^verbatim>\<open>cmd/sandstore/main.go\<close>): configuration, construction and life of a node, and the properties of the composed
    node: client and server agree on the chunk size, a built node is seen by the others, its chunk service has no metadata service.

  \<^bold>\<open>State and operations.\<close>  A Go struct is a record, with the fields' names where they are free; an operation is a function with
  the struct's state as its last argument that returns the new state.  A method that fails returns \<open>Inl\<close> of an error, or \<open>Some\<close> error where it has no
  other result; a panic is the error \<open>Panic\<close>.  Strings and byte slices are lists of bytes, a 32-bit number is a word, a 64-bit number an integer with
  the wrap-around written out.  The clock, fresh names, the polling of a context and the order in which goroutines finish are arguments.
  Encoded data are the value they encode (\<open>blob\<close>); \<open>Wire\<close> shows that JSON leaves strings alone that have been sent once.

  \<^bold>\<open>What is left open.\<close>  bbolt, the etcd client and gRPC are parameters; what is relied on of bbolt and etcd are the laws of \<open>bbolt_api\<close>,
  \<open>bbolt_sweep\<close> and \<open>etcd_api\<close>, with instances \<open>img_store\<close> and \<open>plain_etcd\<close> on which the examples run.  Nothing is assumed of CRC32 and
  SHA-256 beyond being functions.

  \<^bold>\<open>Bounds.\<close>  Loops of the code are recursive functions with a termination proof, except the client's loop over the pages of a listing, which
  depends on the server's answers: it is a partial function (\<open>listPages\<close>), and its end is proved where the directory does not change.  The only fuel is that of
  \<open>read_all\<close>, which follows the cookies of a listing in a specification; one call more than there are entries is proved to be enough.  Offsets are taken below
  \<open>2 ^ 63\<close> where a property says so; the check at the chunk boundary is exact with overflow.

  \<^bold>\<open>Not modelled.\<close>  Metrics and logging are pure output.  The in-memory metadata service, the earlier Raft replicator, the Raft cluster service and the
  HTTP communicator are not part of the node that \<^verbatim>\<open>Build\<close> constructs.  The generated protocol code belongs to gRPC.  The command line clients,
  the benchmark, the smoke tests and the integration helpers drive the library and print what they see.  Of the modelled components, latency
  metrics, log messages and the variable part of error texts are left out, and concurrent calls on one client are taken one after the other, as its locks
  make them.
\<close>

end
